(* ===== verification/Prelude.thy ===== *)
theory Prelude
  imports Main "HOL-Library.Word"
begin

text \<open>
  Shared vocabulary of the development: machine-integer type synonyms, a fallible fold, the
  locale of injective hash steps, and the generic facts on words and lists that the
  component theories use.
\<close>

unbundle bit_operations_syntax

type_synonym u8 = "8 word"
type_synonym u32 = "32 word"
type_synonym u64 = "64 word"

text \<open>\<open>size_t\<close>, \<open>ULONG_PTR\<close>, \<open>HANDLE\<close> and \<open>PVOID\<close> are 64 bits wide: the
  driver project and the user prototype are built for x64.\<close>

type_synonym size_t = "64 word"

named_theorems model_defs \<open>definitions that component proofs unfold\<close>
named_theorems outcome_simps \<open>equations that run the outcome monad\<close>

section \<open>Folds that may fail\<close>

fun ofold :: "('a \<Rightarrow> 's \<Rightarrow> 's option) \<Rightarrow> 'a list \<Rightarrow> 's \<Rightarrow> 's option" where
  "ofold f [] s = Some s"
| "ofold f (x # xs) s = (case f x s of None \<Rightarrow> None | Some s' \<Rightarrow> ofold f xs s')"

lemma ofold_append:
  "ofold f (xs @ ys) s = (case ofold f xs s of None \<Rightarrow> None | Some s' \<Rightarrow> ofold f ys s')"
  by (induction xs arbitrary: s) (auto split: option.splits)

lemma ofold_snoc:
  "ofold f (xs @ [x]) s = (case ofold f xs s of None \<Rightarrow> None | Some s' \<Rightarrow> f x s')"
  by (auto simp: ofold_append split: option.splits)

text \<open>An invariant of every step is an invariant of the whole fold.\<close>

lemma ofold_invariant:
  assumes "ofold f xs s = Some s'" and "P s"
    and "\<And>x s t. x \<in> set xs \<Longrightarrow> P s \<Longrightarrow> f x s = Some t \<Longrightarrow> P t"
  shows "P s'"
  using assms
proof (induction xs arbitrary: s)
  case Nil
  then show ?case by simp
next
  case (Cons x xs)
  from Cons.prems(1) obtain t where t: "f x s = Some t" "ofold f xs t = Some s'"
    by (auto split: option.splits)
  have "P t" using Cons.prems(2) t(1) by (rule Cons.prems(3) [rotated]) simp
  then show ?case
    by (rule Cons.IH [OF t(2)]) (rule Cons.prems(3), auto)
qed

section \<open>Searching an index range\<close>

lemma find_upt_Some_iff:
  "List.find P [0..<n] = Some j \<longleftrightarrow> j < n \<and> P j \<and> (\<forall>k < j. \<not> P k)"
  by (auto simp: find_Some_iff)

lemma find_upt_None_iff: "List.find P [0..<n] = None \<longleftrightarrow> (\<forall>k < n. \<not> P k)"
  by (auto simp: find_None_iff)

lemma find_filter: "List.find P (filter Q xs) = List.find (\<lambda>x. Q x \<and> P x) xs"
  by (induction xs) auto

text \<open>Two searches agree when they accept the same least index.\<close>

lemma find_upt_cong_least:
  assumes "\<And>j. j < n \<Longrightarrow> Q j \<Longrightarrow> P j"
    and "\<And>j. j < n \<Longrightarrow> P j \<Longrightarrow> (\<forall>k < j. \<not> P k) \<Longrightarrow> Q j"
  shows "List.find Q [0..<n] = List.find P [0..<n]"
proof (cases "List.find P [0..<n]")
  case None
  then have "List.find Q [0..<n] = None"
    using assms(1) by (auto simp: find_upt_None_iff)
  with None show ?thesis by simp
next
  case (Some j)
  then have "List.find Q [0..<n] = Some j"
    using assms by (fastforce simp: find_upt_Some_iff)
  with Some show ?thesis by simp
qed

lemma remove1_first:
  assumes "i < length xs" and "xs ! i = x" and "\<forall>k < i. xs ! k \<noteq> x"
  shows "remove1 x xs = take i xs @ drop (Suc i) xs"
proof -
  have "x \<notin> set (take i xs)"
    using assms by (auto simp: in_set_conv_nth)
  then show ?thesis
    using assms(1,2) by (subst id_take_nth_drop [OF assms(1)]) (simp add: remove1_append)
qed

text \<open>Counting the elements of a list that satisfy a predicate, under an update.\<close>

lemma length_filter_update:
  assumes "i < length xs"
  shows "length (filter P (xs[i := y])) + (if P (xs ! i) then 1 else 0)
         = length (filter P xs) + (if P y then 1 else 0)"
proof -
  have "filter P xs = filter P (take i xs @ xs ! i # drop (Suc i) xs)"
    using assms by (simp add: id_take_nth_drop [symmetric])
  then show ?thesis using assms by (simp add: upd_conv_take_nth_drop)
qed

lemma length_filter_nth: "length (filter P xs) = length (filter (\<lambda>i. P (xs ! i)) [0..<length xs])"
proof -
  have "filter P xs = filter P (map ((!) xs) [0..<length xs])" by (simp add: map_nth)
  then show ?thesis by (simp add: filter_map comp_def)
qed

section \<open>Words\<close>

lemma xor_right_cancel [simp]: "(a XOR c = b XOR c) = (a = b)" for a b c :: "'a::len word"
  by (metis (no_types, lifting) xor.assoc xor.right_neutral xor_self_eq)

lemma xor_left_cancel [simp]: "(c XOR a = c XOR b) = (a = b)" for a b c :: "'a::len word"
  by (metis xor.commute xor_right_cancel)

text \<open>Multiplication by a word that has an inverse is injective: an odd constant has
  one, given here as the second factor.\<close>

lemma mult_right_injective:
  assumes "m * n = (1 :: 'a::len word)"
  shows "(a * m = b * m) = (a = b)"
proof
  assume "a * m = b * m"
  then have "a * m * n = b * m * n" by simp
  then show "a = b" using assms by (simp add: mult.assoc)
qed simp

lemma ucast_inj_u8_u64 [simp]: "((ucast a :: u64) = ucast b) = (a = b)" for a b :: u8
proof
  assume eq: "(ucast a :: u64) = ucast b"
  have "a = ucast (ucast a :: u64)" for a :: u8
    by (rule bit_word_eqI) (simp add: bit_simps)
  with eq show "a = b" by metis
qed simp

lemma unat_of_nat_small: "n < 2 ^ 64 \<Longrightarrow> unat (of_nat n :: u64) = n"
  by (simp add: unat_of_nat take_bit_nat_eq_self)

lemma of_nat_u64_eq_iff:
  "m < 2 ^ 64 \<Longrightarrow> n < 2 ^ 64 \<Longrightarrow> ((of_nat m :: u64) = of_nat n) = (m = n)"
  by (metis unat_of_nat_small)

text \<open>A hash loop feeds the input items one at a time into a state. When each step is
  injective in the state and in the item, inputs that differ in one item never collide.\<close>

locale injective_mixer =
  fixes mix :: "'s \<Rightarrow> 'b \<Rightarrow> 's"
  assumes mix_state: "mix s b = mix t b \<Longrightarrow> s = t"
    and mix_item: "mix s b = mix s c \<Longrightarrow> b = c"
begin

lemma foldl_mix_state: "(foldl mix s bs = foldl mix t bs) = (s = t)"
  by (induction bs arbitrary: s t) (auto dest: mix_state)

lemma foldl_mix_update:
  assumes "i < length bs"
  shows "(foldl mix s (bs[i := c]) = foldl mix s bs) = (c = bs ! i)"
proof -
  let ?p = "foldl mix s (take i bs)"
  have "foldl mix s (bs[i := c]) = foldl mix (mix ?p c) (drop (Suc i) bs)"
    using assms by (simp add: upd_conv_take_nth_drop)
  moreover have "foldl mix s bs = foldl mix (mix ?p (bs ! i)) (drop (Suc i) bs)"
    using assms by (metis foldl_Cons foldl_append id_take_nth_drop)
  ultimately show ?thesis
    using foldl_mix_state mix_item by metis
qed

end

end
