(* ===== verification/Signatures.thy ===== *)
theory Signatures
  imports Prelude
begin

text \<open>
  Page signatures of the user prototype (user/dedupe_engine.cpp, the anonymous namespace
  and the two functors of user/dedupe_engine.h): the 64-bit FNV-1a hash with its
  finalizer, the sampled 32-bit fingerprint, and the hash and equality functors of
  \<open>std::unordered_map\<close>. A read past the end of the page data is undefined behaviour in
  C++ and is the value None here.
\<close>

section \<open>fastHash64\<close>

definition fnv_offset :: u64 where
  "fnv_offset = 1469598103934665603"

definition fnv_prime :: u64 where
  "fnv_prime = 1099511628211"

definition fnv_step :: "u64 \<Rightarrow> u8 \<Rightarrow> u64" where
  "fnv_step hash b = (hash XOR ucast b) * fnv_prime"

definition xorshift33 :: "u64 \<Rightarrow> u64" where
  "xorshift33 hash = hash XOR drop_bit 33 hash"

definition hash_finalize :: "u64 \<Rightarrow> u64" where
  "hash_finalize hash0 =
     (let hash1 = xorshift33 hash0;
          hash2 = hash1 * 0xff51afd7ed558ccd;
          hash3 = xorshift33 hash2;
          hash4 = hash3 * 0xc4ceb9fe1a85ec53
      in xorshift33 hash4)"

definition fastHash64 :: "u8 list \<Rightarrow> u64" where
  "fastHash64 data = hash_finalize (foldl fnv_step fnv_offset data)"

section \<open>computeFingerprint\<close>

definition fingerprint_steps :: nat where
  "fingerprint_steps = 8"

definition fingerprint_value :: "u8 \<Rightarrow> u8 \<Rightarrow> u8 \<Rightarrow> u32" where
  "fingerprint_value b0 b1 b2 =
     push_bit 16 (ucast b0) OR push_bit 8 (ucast b1) OR ucast b2"

definition fingerprint_step :: "u8 list \<Rightarrow> nat \<Rightarrow> nat \<Rightarrow> u32 \<Rightarrow> u32 option" where
  "fingerprint_step data stride i acc =
     (let idx = i * stride in
      if idx + 2 < length data
      then Some ((acc XOR fingerprint_value (data ! idx) (data ! (idx + 1)) (data ! (idx + 2)))
                 * 16777619)
      else None)"

definition computeFingerprint :: "u8 list \<Rightarrow> u32 option" where
  "computeFingerprint data =
     (let stride = length data div fingerprint_steps in
      case ofold (fingerprint_step data stride) [0..<fingerprint_steps] 0x811C9DC5 of
        None \<Rightarrow> None
      | Some acc \<Rightarrow> Some (acc XOR of_nat (length data)))"

section \<open>Signatures and the functors of the signature map\<close>

record PageSignature =
  sig_hash :: u64
  sig_fingerprint :: u32

definition PageSignatureHash :: "PageSignature \<Rightarrow> size_t" where
  "PageSignatureHash sig =
     sig_hash sig XOR drop_bit 32 (sig_hash sig) XOR ucast (sig_fingerprint sig)"

definition PageSignatureEq :: "PageSignature \<Rightarrow> PageSignature \<Rightarrow> bool" where
  "PageSignatureEq a b \<longleftrightarrow>
     sig_hash a = sig_hash b \<and> sig_fingerprint a = sig_fingerprint b"

section \<open>The hash separates pages that differ in one byte\<close>

lemma fnv_prime_inverse: "fnv_prime * 14886173955864302971 = 1"
  by (simp add: fnv_prime_def)

interpretation fnv: injective_mixer fnv_step
proof
  show "s = t" if "fnv_step s b = fnv_step t b" for s t b
    using that by (simp add: fnv_step_def mult_right_injective [OF fnv_prime_inverse])
  show "b = c" if "fnv_step s b = fnv_step s c" for s b c
    using that
    by (simp add: fnv_step_def mult_right_injective [OF fnv_prime_inverse] ucast_inj_u8_u64)
qed

lemma xorshift33_inverse: "xorshift33 (xorshift33 w) = w"
  unfolding xorshift33_def by (rule bit_word_eqI) (auto simp: bit_simps)

lemma xorshift33_eq_iff: "(xorshift33 v = xorshift33 w) = (v = w)"
  by (metis xorshift33_inverse)

lemma hash_finalize_eq_iff: "(hash_finalize v = hash_finalize w) = (v = w)"
proof -
  have "(x * 0xff51afd7ed558ccd = y * 0xff51afd7ed558ccd) = (x = y)" for x y :: u64
    by (rule mult_right_injective [where n = 5725274745694666757]) simp
  moreover have "(x * 0xc4ceb9fe1a85ec53 = y * 0xc4ceb9fe1a85ec53) = (x = y)" for x y :: u64
    by (rule mult_right_injective [where n = 11291846944257947611]) simp
  ultimately show ?thesis
    by (simp only: hash_finalize_def Let_def xorshift33_eq_iff)
qed

lemma fastHash64_update:
  "i < length data \<Longrightarrow> (fastHash64 (data[i := v]) = fastHash64 data) = (v = data ! i)"
  by (simp add: fastHash64_def hash_finalize_eq_iff fnv.foldl_mix_update)

section \<open>Where the fingerprint reads, and what it sees\<close>

definition fingerprint_mix :: "u32 \<Rightarrow> u32 \<Rightarrow> u32" where
  "fingerprint_mix acc v = (acc XOR v) * 16777619"

interpretation fpm: injective_mixer fingerprint_mix
proof
  have inj: "(x * 16777619 = y * 16777619) = (x = y)" for x y :: u32
    by (rule mult_right_injective [where n = 899433627]) simp
  show "s = t" if "fingerprint_mix s b = fingerprint_mix t b" for s t b
    using that by (simp add: fingerprint_mix_def inj)
  show "b = c" if "fingerprint_mix s b = fingerprint_mix s c" for s b c
    using that by (simp add: fingerprint_mix_def inj)
qed

definition sample_at :: "u8 list \<Rightarrow> nat \<Rightarrow> nat \<Rightarrow> u32" where
  "sample_at data stride i =
     fingerprint_value (data ! (i * stride)) (data ! (i * stride + 1)) (data ! (i * stride + 2))"

lemma fingerprint_value_eq_iff:
  "(fingerprint_value a b c = fingerprint_value a' b' c') = (a = a' \<and> b = b' \<and> c = c')"
proof
  assume eq: "fingerprint_value a b c = fingerprint_value a' b' c'"
  have "a = ucast (drop_bit 16 (fingerprint_value a b c))" for a b c
    unfolding fingerprint_value_def
    by (rule bit_word_eqI) (auto simp: bit_simps dest: bit_imp_le_length)
  moreover have "b = ucast (drop_bit 8 (fingerprint_value a b c))" for a b c
    unfolding fingerprint_value_def
    by (rule bit_word_eqI) (auto simp: bit_simps dest: bit_imp_le_length)
  moreover have "c = ucast (fingerprint_value a b c)" for a b c
    unfolding fingerprint_value_def
    by (rule bit_word_eqI) (auto simp: bit_simps dest: bit_imp_le_length)
  ultimately show "a = a' \<and> b = b' \<and> c = c'"
    using eq by metis
qed simp

lemma fingerprint_step_eq:
  "fingerprint_step data stride i acc =
     (if i * stride + 2 < length data
      then Some (fingerprint_mix acc (sample_at data stride i)) else None)"
  by (simp add: fingerprint_step_def fingerprint_mix_def sample_at_def Let_def)

lemma ofold_fingerprint:
  assumes "\<forall>i \<in> set is. i * stride + 2 < length data"
  shows "ofold (fingerprint_step data stride) is acc =
           Some (foldl fingerprint_mix acc (map (sample_at data stride) is))"
  using assms by (induction "is" arbitrary: acc) (auto simp: fingerprint_step_eq)

lemma ofold_fingerprint_out_of_bounds:
  assumes "i \<in> set is" and "\<not> i * stride + 2 < length data"
  shows "ofold (fingerprint_step data stride) is acc = None"
  using assms
  by (induction "is" arbitrary: acc) (auto simp: fingerprint_step_eq split: option.splits)

lemma fingerprint_last_sample: "7 * (n div 8) + 2 < n \<longleftrightarrow> 2 < n div 8 + n mod (8::nat)"
  using div_mult_mod_eq [of n 8] by linarith

lemma fingerprint_samples_in_bounds:
  assumes "2 < length data div 8 + length data mod 8" and "i < 8"
  shows "i * (length data div 8) + 2 < length data"
proof -
  from assms(2) have "i * (length data div 8) \<le> 7 * (length data div 8)"
    by (intro mult_le_mono1) simp
  moreover have "7 * (length data div 8) + 2 < length data"
    using assms(1) fingerprint_last_sample by blast
  ultimately show ?thesis by linarith
qed

lemma computeFingerprint_eq:
  assumes "2 < length data div 8 + length data mod 8"
  shows "computeFingerprint data =
    Some (foldl fingerprint_mix 0x811C9DC5 (map (sample_at data (length data div 8)) [0..<8])
          XOR of_nat (length data))"
proof -
  have "\<forall>i \<in> set [0..<fingerprint_steps].
          i * (length data div fingerprint_steps) + 2 < length data"
    using fingerprint_samples_in_bounds [OF assms] by (simp add: fingerprint_steps_def)
  from ofold_fingerprint [OF this, of "0x811C9DC5"] show ?thesis
    by (simp only: computeFingerprint_def Let_def option.case fingerprint_steps_def)
qed

lemma computeFingerprint_defined_iff_lengths:
  "computeFingerprint data \<noteq> None \<longleftrightarrow> length data \<notin> {0, 1, 2, 8, 9, 16}"
proof -
  have small: "2 < n div 8 + n mod 8 \<longleftrightarrow> n \<notin> {0, 1, 2, 8, 9, 16}" for n :: nat
  proof -
    have large: "16 < n \<Longrightarrow> 2 < n div 8 + n mod 8"
      using div_mult_mod_eq [of n 8] by linarith
    have "\<forall>m \<in> set [0..<17]. 2 < m div 8 + m mod 8 \<longleftrightarrow> m \<notin> {0, 1, 2, 8, 9, 16 :: nat}"
      by code_simp
    then have "n \<le> 16 \<Longrightarrow> ?thesis" by simp
    with large show ?thesis by (cases "n \<le> 16") auto
  qed
  show ?thesis
  proof (cases "2 < length data div 8 + length data mod 8")
    case True
    then show ?thesis using small [of "length data"] by (simp add: computeFingerprint_eq)
  next
    case False
    then have "\<not> 7 * (length data div fingerprint_steps) + 2 < length data"
      using fingerprint_last_sample by (simp add: fingerprint_steps_def)
    then have "computeFingerprint data = None"
      unfolding computeFingerprint_def Let_def
      by (subst ofold_fingerprint_out_of_bounds [where i = 7])
        (auto simp: fingerprint_steps_def)
    then show ?thesis using small [of "length data"] False by simp
  qed
qed

text \<open>
  C37: \<open>computeFingerprint\<close> stays inside the page data exactly for the lengths other than
  0, 1, 2, 8, 9 and 16; for these one of the reads \<open>data[idx + 2]\<close> is past the end.
\<close>

theorem computeFingerprint_defined_iff:
  "computeFingerprint data \<noteq> None \<longleftrightarrow> length data \<notin> {0, 1, 2, 8, 9, 16}"
  by (rule computeFingerprint_defined_iff_lengths)

lemma computeFingerprint_page:
  assumes "length data = 4096"
  shows "computeFingerprint data =
    Some (foldl fingerprint_mix 0x811C9DC5 (map (sample_at data 512) [0..<8]) XOR 4096)"
  using computeFingerprint_eq [of data] assms by simp

text \<open>Updating one byte of a page changes at most the sample that covers it.\<close>

lemma samples_update:
  assumes "length data = 4096" and "p < 4096"
  shows "map (sample_at (data[p := v]) 512) [0..<8] =
    (map (sample_at data 512) [0..<8])[p div 512 := sample_at (data[p := v]) 512 (p div 512)]"
proof (rule nth_equalityI)
  fix i assume i: "i < length (map (sample_at (data[p := v]) 512) [0..<8])"
  have "sample_at (data[p := v]) 512 i = sample_at data 512 i" if "i \<noteq> p div 512"
  proof -
    have "i * 512 + k \<noteq> p" if "k < 3" for k
      using that \<open>i \<noteq> p div 512\<close> by auto
    from this [of 0] this [of 1] this [of 2] show ?thesis
      by (simp add: sample_at_def)
  qed
  then show "map (sample_at (data[p := v]) 512) [0..<8] ! i =
    (map (sample_at data 512) [0..<8])
      [p div 512 := sample_at (data[p := v]) 512 (p div 512)] ! i"
    using i by (cases "i = p div 512") auto
qed simp

lemma sample_update_iff:
  assumes "length data = 4096" and "p < 4096"
  shows "sample_at (data[p := v]) 512 (p div 512) = sample_at data 512 (p div 512)
         \<longleftrightarrow> v = data ! p \<or> 3 \<le> p mod 512"
proof -
  define q r where "q = p div 512 * 512" and "r = p mod 512"
  have p: "p = q + r" and r: "r < 512" by (simp_all add: q_def r_def)
  have upd: "(data[p := v]) ! (q + k) = (if r = k then v else data ! (q + k))" if "k < 3" for k
    using assms that p by (cases "r = k") auto
  have "sample_at (data[p := v]) 512 (p div 512) = sample_at data 512 (p div 512)
    \<longleftrightarrow> (\<forall>k \<in> {0, 1, 2}. (data[p := v]) ! (q + k) = data ! (q + k))"
    by (simp add: sample_at_def fingerprint_value_eq_iff q_def)
  also have "\<dots> \<longleftrightarrow> (\<forall>k \<in> {0, 1, 2}. r = k \<longrightarrow> v = data ! (q + k))"
    using upd [of 0] upd [of 1] upd [of 2] by simp
  also have "\<dots> \<longleftrightarrow> v = data ! (q + r) \<or> 3 \<le> r"
  proof -
    consider "r = 0" | "r = 1" | "r = 2" | "3 \<le> r" by linarith
    then show ?thesis by cases auto
  qed
  finally show ?thesis by (simp only: p [symmetric] r_def [symmetric])
qed

text \<open>
  C38: on a 4 KB page the fingerprint sees 24 bytes only: writing one byte changes the
  fingerprint exactly when the byte changes and lies in the first three bytes of one of
  the eight 512-byte strides.
\<close>

theorem computeFingerprint_page_update:
  assumes "length data = 4096" and "p < 4096"
  shows "computeFingerprint (data[p := v]) = computeFingerprint data \<longleftrightarrow>
         v = data ! p \<or> 3 \<le> p mod 512"
proof -
  let ?ss = "map (sample_at data 512) [0..<8]"
  let ?s' = "sample_at (data[p := v]) 512 (p div 512)"
  have i: "p div 512 < length ?ss" using assms(2) by (simp add: less_mult_imp_div_less)
  have "computeFingerprint (data[p := v]) = computeFingerprint data \<longleftrightarrow>
        foldl fingerprint_mix 0x811C9DC5 (?ss[p div 512 := ?s'])
        = foldl fingerprint_mix 0x811C9DC5 ?ss"
    using assms by (simp only: computeFingerprint_page length_list_update samples_update
        option.inject xor_right_cancel)
  also have "\<dots> \<longleftrightarrow> ?s' = ?ss ! (p div 512)"
    by (rule fpm.foldl_mix_update [OF i])
  also have "?ss ! (p div 512) = sample_at data 512 (p div 512)"
    using i by simp
  finally show ?thesis using sample_update_iff [OF assms] by simp
qed

theorem computeFingerprint_page_update_witness:
  "length (replicate 4096 (0 :: u8)) = 4096 \<and>
   computeFingerprint ((replicate 4096 0)[513 := 7]) \<noteq> computeFingerprint (replicate 4096 0)"
  using computeFingerprint_page_update [of "replicate 4096 0" 513 7] by simp

text \<open>
  C39: \<open>fastHash64\<close> never maps two pages that differ in exactly one byte to the same hash:
  overwriting a byte keeps the hash only if it keeps the byte.
\<close>

theorem fastHash64_single_byte:
  assumes "i < length data"
  shows "fastHash64 (data[i := v]) = fastHash64 data \<longleftrightarrow> v = data ! i"
  using assms by (rule fastHash64_update)

theorem fastHash64_single_byte_witness:
  "fastHash64 ([1, 2, 3][1 := 9]) \<noteq> fastHash64 [1, 2, 3]"
  using fastHash64_single_byte [of 1 "[1, 2, 3]" 9] by simp

end
