(* ===== verification/Engine.thy ===== *)
theory Engine
  imports Signatures
begin

text \<open>
  The deduplication engine of the user prototype (user/dedupe_engine.h and
  user/dedupe_engine.cpp): pages, regions, statistics, the scan that merges equal pages of
  a region, and the copy-on-write emulation of a page write. Undefined behaviour (a read
  past the end of a page) is the value None; counters are 64-bit and wrap.
\<close>

section \<open>Data\<close>

definition SIZE_MAX :: size_t where
  "SIZE_MAX = - 1"

definition PageSize :: nat where
  "PageSize = 4096"

record Page =
  pdata :: "u8 list"
  homeIndex :: size_t
  shared :: bool

record MemoryRegion =
  rname :: string
  optIn :: bool
  pages :: "Page list"

record Stats =
  pagesScanned :: size_t
  duplicatePages :: size_t
  uniquePages :: size_t
  bytesSaved :: size_t
  collisionProbes :: size_t
  writesEmulated :: size_t
  writeCowEvents :: size_t

definition initial_stats :: Stats where
  "initial_stats = \<lparr>pagesScanned = 0, duplicatePages = 0, uniquePages = 0, bytesSaved = 0,
                     collisionProbes = 0, writesEmulated = 0, writeCowEvents = 0\<rparr>"

definition newPage :: "u8 list \<Rightarrow> Page" where
  "newPage dataIn = \<lparr>pdata = dataIn, homeIndex = SIZE_MAX, shared = False\<rparr>"

definition isShared :: "Page \<Rightarrow> bool" where
  "isShared page = shared page"

definition markShared :: "size_t \<Rightarrow> Page \<Rightarrow> Page" where
  "markShared representativeIndex page =
     page\<lparr>homeIndex := representativeIndex, shared := True\<rparr>"

section \<open>The signature map\<close>

text \<open>\<open>std::unordered_map\<close> of vectors, as the scan uses it: \<open>um_at\<close> is the vector that
  \<open>signatureMap[key]\<close> refers to (empty for a key not seen before) and \<open>um_push\<close> appends
  to it. Keys are compared with the map's equality functor.\<close>

fun um_at :: "('k \<Rightarrow> 'k \<Rightarrow> bool) \<Rightarrow> ('k \<times> 'v list) list \<Rightarrow> 'k \<Rightarrow> 'v list" where
  "um_at eq [] key = []"
| "um_at eq ((k, vs) # m) key = (if eq k key then vs else um_at eq m key)"

fun um_push :: "('k \<Rightarrow> 'k \<Rightarrow> bool) \<Rightarrow> ('k \<times> 'v list) list \<Rightarrow> 'k \<Rightarrow> 'v \<Rightarrow> ('k \<times> 'v list) list" where
  "um_push eq [] key v = [(key, [v])]"
| "um_push eq ((k, vs) # m) key v =
     (if eq k key then (k, vs @ [v]) # m else (k, vs) # um_push eq m key v)"

text \<open>What the container asks of its functors, and what it then gives.\<close>

locale unordered_map_key =
  fixes eq :: "'k \<Rightarrow> 'k \<Rightarrow> bool" and hash_of :: "'k \<Rightarrow> size_t"
  assumes eq_refl: "eq a a"
    and eq_sym: "eq a b \<Longrightarrow> eq b a"
    and eq_trans: "eq a b \<Longrightarrow> eq b c \<Longrightarrow> eq a c"
    and eq_hash: "eq a b \<Longrightarrow> hash_of a = hash_of b"
begin

lemma eq_right_cong: "eq a b \<Longrightarrow> eq c a = eq c b"
  by (blast intro: eq_sym eq_trans)

lemma um_at_push:
  "um_at eq (um_push eq m key v) key' =
     (if eq key key' then um_at eq m key @ [v] else um_at eq m key')"
proof (cases "eq key key'")
  case True
  then show ?thesis using eq_right_cong [OF True] by (induction m) auto
next
  case False
  have "\<not> eq a key'" if "eq a key" for a
    using False that by (blast intro: eq_sym eq_trans)
  with False show ?thesis by (induction m) auto
qed

lemma um_at_cong: "eq a b \<Longrightarrow> um_at eq m a = um_at eq m b"
  by (induction m) (auto simp: eq_right_cong)

end

lemma PageSignatureEq_iff: "PageSignatureEq a b \<longleftrightarrow> a = b"
  by (cases a; cases b) (simp add: PageSignatureEq_def)

interpretation sigmap: unordered_map_key PageSignatureEq PageSignatureHash
  by unfold_locales (auto simp: PageSignatureEq_iff)

section \<open>Operations of DedupeEngine\<close>

definition makeSignature :: "Page \<Rightarrow> PageSignature option" where
  "makeSignature page =
     (case computeFingerprint (pdata page) of
        None \<Rightarrow> None
      | Some fp \<Rightarrow> Some \<lparr>sig_hash = fastHash64 (pdata page), sig_fingerprint = fp\<rparr>)"

definition memcmp_equal :: "u8 list \<Rightarrow> u8 list \<Rightarrow> nat \<Rightarrow> bool" where
  "memcmp_equal a b n \<longleftrightarrow> take n a = take n b"

definition pagesAreEqual :: "Page \<Rightarrow> Page \<Rightarrow> bool" where
  "pagesAreEqual a b \<longleftrightarrow>
     length (pdata a) = length (pdata b) \<and>
     memcmp_equal (pdata a) (pdata b) (length (pdata a))"

definition mergePage :: "nat \<Rightarrow> nat \<Rightarrow> Stats \<times> Page list \<Rightarrow> Stats \<times> Page list" where
  "mergePage pageIndex representativeIndex = (\<lambda>(stats, ps).
     let page = ps ! pageIndex in
     if homeIndex page = of_nat representativeIndex then (stats, ps)
     else (stats\<lparr>duplicatePages := duplicatePages stats + 1,
                 bytesSaved := bytesSaved stats + of_nat PageSize\<rparr>,
           ps[pageIndex := markShared (of_nat representativeIndex) page]))"

definition clonePageForWrite :: "nat \<Rightarrow> Stats \<times> Page list \<Rightarrow> Stats \<times> Page list" where
  "clonePageForWrite pageIndex = (\<lambda>(stats, ps).
     let page = ps ! pageIndex in
     if \<not> isShared page then (stats, ps)
     else (stats\<lparr>writeCowEvents := writeCowEvents stats + 1\<rparr>,
           ps[pageIndex := (newPage (pdata page))\<lparr>homeIndex := SIZE_MAX, shared := False\<rparr>]))"

type_synonym scan_state = "Stats \<times> Page list \<times> (PageSignature \<times> nat list) list"

text \<open>One iteration of the loop of \<open>scanRegion\<close>.\<close>

definition scan_page :: "nat \<Rightarrow> scan_state \<Rightarrow> scan_state option" where
  "scan_page index = (\<lambda>(stats, ps, signatureMap).
     let page = ps ! index in
     if isShared page then Some (stats, ps, signatureMap)
     else case makeSignature page of
       None \<Rightarrow> None
     | Some signature \<Rightarrow>
         let collisionList = um_at PageSignatureEq signatureMap signature;
             stats1 = stats\<lparr>pagesScanned := pagesScanned stats + 1,
                            collisionProbes := collisionProbes stats
                                               + of_nat (length collisionList)\<rparr>
         in case List.find (\<lambda>rep. pagesAreEqual (ps ! rep) page) collisionList of
              Some rep \<Rightarrow>
                (let (stats2, ps2) = mergePage index rep (stats1, ps)
                 in Some (stats2, ps2, signatureMap))
            | None \<Rightarrow>
                Some (stats1\<lparr>uniquePages := uniquePages stats1 + 1\<rparr>, ps,
                      um_push PageSignatureEq signatureMap signature index))"

definition scanRegion :: "Stats \<Rightarrow> MemoryRegion \<Rightarrow> (Stats \<times> MemoryRegion) option" where
  "scanRegion stats region =
     (if \<not> optIn region then Some (stats, region)
      else case ofold scan_page [0..<length (pages region)] (stats, pages region, []) of
             None \<Rightarrow> None
           | Some (stats', ps, _) \<Rightarrow> Some (stats', region\<lparr>pages := ps\<rparr>))"

definition writeToPage :: "Stats \<Rightarrow> MemoryRegion \<Rightarrow> nat \<Rightarrow> u8 \<Rightarrow> Stats \<times> MemoryRegion" where
  "writeToPage stats region pageIndex v =
     (if length (pages region) \<le> pageIndex then (stats, region)
      else
        let stats1 = stats\<lparr>writesEmulated := writesEmulated stats + 1\<rparr>;
            (stats2, ps) =
              (if isShared (pages region ! pageIndex)
               then clonePageForWrite pageIndex (stats1, pages region)
               else (stats1, pages region));
            page = ps ! pageIndex;
            grown = (if pdata page = [] then replicate PageSize 0 else pdata page)
        in (stats2, region\<lparr>pages := ps[pageIndex := page\<lparr>pdata := grown[0 := v]\<rparr>]\<rparr>))"

section \<open>What a scan is for: the specification\<close>

text \<open>A page is well formed when only shared pages name a home, as the constructor,
  \<open>markShared\<close> and the copy-on-write reset leave it.\<close>

definition wf_page :: "Page \<Rightarrow> bool" where
  "wf_page p \<longleftrightarrow> (shared p \<or> homeIndex p = SIZE_MAX)"

definition wf_pages :: "Page list \<Rightarrow> bool" where
  "wf_pages ps \<longleftrightarrow> (\<forall>p \<in> set ps. wf_page p) \<and> length ps < 2 ^ 64"

text \<open>The representative of page \<open>i\<close>: the first earlier page that is not shared and has
  the same bytes, for a page that is not shared yet.\<close>

definition first_twin :: "Page list \<Rightarrow> nat \<Rightarrow> nat option" where
  "first_twin ps i =
     (if shared (ps ! i) then None
      else List.find (\<lambda>j. \<not> shared (ps ! j) \<and> pdata (ps ! j) = pdata (ps ! i)) [0..<i])"

definition dedupe_page :: "Page list \<Rightarrow> nat \<Rightarrow> Page" where
  "dedupe_page ps i =
     (case first_twin ps i of
        None \<Rightarrow> ps ! i
      | Some j \<Rightarrow> markShared (of_nat j) (ps ! i))"

definition dedupe_pages :: "Page list \<Rightarrow> Page list" where
  "dedupe_pages ps = map (dedupe_page ps) [0..<length ps]"

definition unique_page :: "Page list \<Rightarrow> nat \<Rightarrow> bool" where
  "unique_page ps i \<longleftrightarrow> \<not> shared (ps ! i) \<and> first_twin ps i = None"

definition same_signature_before :: "Page list \<Rightarrow> nat \<Rightarrow> PageSignature \<Rightarrow> nat list" where
  "same_signature_before ps i sig =
     filter (\<lambda>j. unique_page ps j \<and> makeSignature (ps ! j) = Some sig) [0..<i]"

definition probes_at :: "Page list \<Rightarrow> nat \<Rightarrow> nat" where
  "probes_at ps i =
     (if shared (ps ! i) then 0
      else length (filter (\<lambda>j. unique_page ps j \<and> makeSignature (ps ! j) = makeSignature (ps ! i))
             [0..<i]))"

definition count_below :: "(nat \<Rightarrow> bool) \<Rightarrow> nat \<Rightarrow> nat" where
  "count_below P n = length (filter P [0..<n])"

text \<open>The statistics after the scan of the first \<open>n\<close> pages.\<close>

definition scan_stats :: "Page list \<Rightarrow> nat \<Rightarrow> Stats \<Rightarrow> Stats" where
  "scan_stats ps n st =
     st\<lparr>pagesScanned := pagesScanned st + of_nat (count_below (\<lambda>i. \<not> shared (ps ! i)) n),
        duplicatePages := duplicatePages st
          + of_nat (count_below (\<lambda>i. first_twin ps i \<noteq> None) n),
        uniquePages := uniquePages st + of_nat (count_below (unique_page ps) n),
        bytesSaved := bytesSaved st
          + of_nat (PageSize * count_below (\<lambda>i. first_twin ps i \<noteq> None) n),
        collisionProbes := collisionProbes st
          + of_nat (sum_list (map (probes_at ps) [0..<n]))\<rparr>"

text \<open>The loop invariant: the first \<open>i\<close> pages are deduplicated, the rest untouched, the
  map holds the unique pages seen so far under their signatures.\<close>

definition scan_inv :: "Stats \<Rightarrow> Page list \<Rightarrow> nat \<Rightarrow> scan_state \<Rightarrow> bool" where
  "scan_inv st ps i = (\<lambda>(stats, qs, m).
     stats = scan_stats ps i st \<and>
     qs = map (dedupe_page ps) [0..<i] @ drop i ps \<and>
     (\<forall>sig. um_at PageSignatureEq m sig = same_signature_before ps i sig))"

section \<open>The scan meets its specification\<close>

lemma of_nat_neq_SIZE_MAX:
  assumes "n < 2 ^ 64 - 1"
  shows "(of_nat n :: size_t) \<noteq> SIZE_MAX"
proof -
  have eq: "SIZE_MAX = of_nat (2 ^ 64 - 1)" by (simp add: SIZE_MAX_def)
  show ?thesis unfolding eq using assms by (subst of_nat_u64_eq_iff) auto
qed

lemma count_below_0 [simp]: "count_below P 0 = 0"
  by (simp add: count_below_def)

lemma count_below_Suc [simp]: "count_below P (Suc n) = count_below P n + (if P n then 1 else 0)"
  by (simp add: count_below_def)

lemma pagesAreEqual_iff: "pagesAreEqual a b \<longleftrightarrow> pdata a = pdata b"
  by (auto simp: pagesAreEqual_def memcmp_equal_def)

lemma makeSignature_cong: "pdata a = pdata b \<Longrightarrow> makeSignature a = makeSignature b"
  by (simp only: makeSignature_def)

lemma pdata_markShared [simp]: "pdata (markShared r p) = pdata p"
  by (simp add: markShared_def)

lemma pdata_dedupe_page [simp]: "pdata (dedupe_page ps i) = pdata (ps ! i)"
  by (auto simp: dedupe_page_def split: option.splits)

lemma first_twin_SomeD:
  "first_twin ps i = Some j \<Longrightarrow>
     j < i \<and> \<not> shared (ps ! i) \<and> \<not> shared (ps ! j) \<and> pdata (ps ! j) = pdata (ps ! i)"
  by (auto simp: first_twin_def find_upt_Some_iff split: if_splits)

text \<open>The first earlier twin of a page is itself unique.\<close>

lemma first_twin_unique:
  assumes "first_twin ps i = Some j"
  shows "unique_page ps j"
proof -
  from assms have "\<forall>k < j. \<not> (\<not> shared (ps ! k) \<and> pdata (ps ! k) = pdata (ps ! i))"
    by (auto simp: first_twin_def find_upt_Some_iff split: if_splits)
  then show ?thesis
    using first_twin_SomeD [OF assms]
    by (auto simp: unique_page_def first_twin_def find_upt_None_iff)
qed

lemma find_representative:
  assumes "\<not> shared (ps ! i)" and "makeSignature (ps ! i) = Some sig"
    and "\<And>j. j < i \<Longrightarrow> pdata (qs ! j) = pdata (ps ! j)"
  shows "List.find (\<lambda>rep. pagesAreEqual (qs ! rep) (ps ! i)) (same_signature_before ps i sig)
         = first_twin ps i"
proof -
  have "List.find (\<lambda>j. (unique_page ps j \<and> makeSignature (ps ! j) = Some sig)
                       \<and> pagesAreEqual (qs ! j) (ps ! i)) [0..<i]
        = List.find (\<lambda>j. \<not> shared (ps ! j) \<and> pdata (ps ! j) = pdata (ps ! i)) [0..<i]"
  proof (rule find_upt_cong_least)
    fix j assume "j < i" "(unique_page ps j \<and> makeSignature (ps ! j) = Some sig)
                          \<and> pagesAreEqual (qs ! j) (ps ! i)"
    then show "\<not> shared (ps ! j) \<and> pdata (ps ! j) = pdata (ps ! i)"
      using assms(3) by (simp add: unique_page_def pagesAreEqual_iff)
  next
    fix j assume j: "j < i" and eq: "\<not> shared (ps ! j) \<and> pdata (ps ! j) = pdata (ps ! i)"
      and least: "\<forall>k < j. \<not> (\<not> shared (ps ! k) \<and> pdata (ps ! k) = pdata (ps ! i))"
    have "first_twin ps i = Some j"
      using assms(1) j eq least by (simp add: first_twin_def find_upt_Some_iff)
    then have "unique_page ps j" by (rule first_twin_unique)
    moreover have "makeSignature (ps ! j) = Some sig"
      using eq assms(2) makeSignature_cong [of "ps ! j" "ps ! i"] by simp
    ultimately show "(unique_page ps j \<and> makeSignature (ps ! j) = Some sig)
                     \<and> pagesAreEqual (qs ! j) (ps ! i)"
      using assms(3) [OF j] eq by (simp add: pagesAreEqual_iff)
  qed
  then show ?thesis
    using assms(1) by (simp add: same_signature_before_def find_filter first_twin_def)
qed

lemma probes_at_same_signature:
  "\<not> shared (ps ! i) \<Longrightarrow> makeSignature (ps ! i) = Some sig \<Longrightarrow>
     probes_at ps i = length (same_signature_before ps i sig)"
  by (simp add: probes_at_def same_signature_before_def)

lemma same_signature_before_Suc:
  "same_signature_before ps (Suc i) sig = same_signature_before ps i sig @
     (if unique_page ps i \<and> makeSignature (ps ! i) = Some sig then [i] else [])"
  by (simp add: same_signature_before_def)

lemma scan_inv_nth:
  assumes "qs = map (dedupe_page ps) [0..<i] @ drop i ps" and "i \<le> length ps"
  shows "j < i \<Longrightarrow> pdata (qs ! j) = pdata (ps ! j)" and "i < length ps \<Longrightarrow> qs ! i = ps ! i"
  using assms by (simp_all add: nth_append)

lemma scan_inv_pages_Suc:
  assumes "i < length ps"
  shows "(map (dedupe_page ps) [0..<i] @ drop i ps)[i := dedupe_page ps i]
         = map (dedupe_page ps) [0..<Suc i] @ drop (Suc i) ps"
  using assms by (simp add: list_update_append Cons_nth_drop_Suc [symmetric])

lemma scan_inv_pages_keep:
  assumes "i < length ps" and "first_twin ps i = None"
  shows "map (dedupe_page ps) [0..<i] @ drop i ps
         = map (dedupe_page ps) [0..<Suc i] @ drop (Suc i) ps"
  using assms by (simp add: dedupe_page_def Cons_nth_drop_Suc)

lemma mergePage_unshared:
  assumes "wf_page (qs ! i)" and "\<not> shared (qs ! i)" and "r < 2 ^ 64 - 1"
  shows "mergePage i r (st, qs) =
    (st\<lparr>duplicatePages := duplicatePages st + 1, bytesSaved := bytesSaved st + of_nat PageSize\<rparr>,
     qs[i := markShared (of_nat r) (qs ! i)])"
  using assms of_nat_neq_SIZE_MAX [OF assms(3)]
  by (simp add: mergePage_def wf_page_def Let_def)

text \<open>The three ways an iteration can go.\<close>

lemma scan_page_shared:
  "shared (qs ! i) \<Longrightarrow> scan_page i (stats, qs, m) = Some (stats, qs, m)"
  by (simp add: scan_page_def isShared_def)

lemma scan_page_undefined:
  "\<not> shared (qs ! i) \<Longrightarrow> makeSignature (qs ! i) = None \<Longrightarrow> scan_page i (stats, qs, m) = None"
  by (simp add: scan_page_def isShared_def)

lemma scan_page_unique:
  assumes "\<not> shared (qs ! i)" and "makeSignature (qs ! i) = Some sig"
    and "um_at PageSignatureEq m sig = lst"
    and "List.find (\<lambda>rep. pagesAreEqual (qs ! rep) (qs ! i)) lst = None"
  shows "scan_page i (stats, qs, m) =
    Some (stats\<lparr>pagesScanned := pagesScanned stats + 1,
                 collisionProbes := collisionProbes stats + of_nat (length lst),
                 uniquePages := uniquePages stats + 1\<rparr>,
          qs, um_push PageSignatureEq m sig i)"
  using assms by (simp add: scan_page_def isShared_def Let_def)

lemma scan_page_duplicate:
  assumes "\<not> shared (qs ! i)" and "makeSignature (qs ! i) = Some sig"
    and "um_at PageSignatureEq m sig = lst"
    and "List.find (\<lambda>rep. pagesAreEqual (qs ! rep) (qs ! i)) lst = Some r"
    and "wf_page (qs ! i)" and "r < 2 ^ 64 - 1"
  shows "scan_page i (stats, qs, m) =
    Some (stats\<lparr>pagesScanned := pagesScanned stats + 1,
                 collisionProbes := collisionProbes stats + of_nat (length lst),
                 duplicatePages := duplicatePages stats + 1,
                 bytesSaved := bytesSaved stats + of_nat PageSize\<rparr>,
          qs[i := markShared (of_nat r) (qs ! i)], m)"
  using assms(1-4) mergePage_unshared [OF assms(5,1,6)]
  by (simp add: scan_page_def isShared_def Let_def)

text \<open>How the specified statistics and signature lists move from \<open>i\<close> to \<open>i + 1\<close>.\<close>

lemma scan_stats_Suc_shared:
  "shared (ps ! i) \<Longrightarrow> scan_stats ps (Suc i) st = scan_stats ps i st"
  by (simp add: scan_stats_def unique_page_def probes_at_def first_twin_def)

lemma scan_stats_Suc_unique:
  "unique_page ps i \<Longrightarrow> scan_stats ps (Suc i) st =
     (scan_stats ps i st)\<lparr>pagesScanned := pagesScanned (scan_stats ps i st) + 1,
        collisionProbes := collisionProbes (scan_stats ps i st) + of_nat (probes_at ps i),
        uniquePages := uniquePages (scan_stats ps i st) + 1\<rparr>"
  by (simp add: scan_stats_def unique_page_def)

lemma scan_stats_Suc_duplicate:
  "first_twin ps i = Some r \<Longrightarrow> scan_stats ps (Suc i) st =
     (scan_stats ps i st)\<lparr>pagesScanned := pagesScanned (scan_stats ps i st) + 1,
        collisionProbes := collisionProbes (scan_stats ps i st) + of_nat (probes_at ps i),
        duplicatePages := duplicatePages (scan_stats ps i st) + 1,
        bytesSaved := bytesSaved (scan_stats ps i st) + of_nat PageSize\<rparr>"
  by (frule first_twin_SomeD) (simp add: scan_stats_def unique_page_def algebra_simps)

text \<open>One iteration keeps the loop invariant, whatever the page is.\<close>

lemma scan_page_step:
  assumes inv: "scan_inv st ps i (stats, qs, m)"
    and i: "i < length ps" and wf: "wf_pages ps"
    and def: "shared (ps ! i) \<or> makeSignature (ps ! i) = Some sig"
  shows "\<exists>s'. scan_page i (stats, qs, m) = Some s' \<and> scan_inv st ps (Suc i) s'"
proof -
  have stats: "stats = scan_stats ps i st"
    and qs: "qs = map (dedupe_page ps) [0..<i] @ drop i ps"
    and m: "\<And>sig. um_at PageSignatureEq m sig = same_signature_before ps i sig"
    using inv by (auto simp: scan_inv_def)
  have qi: "qs ! i = ps ! i" using scan_inv_nth(2) [OF qs] i by simp
  have keep: "qs = map (dedupe_page ps) [0..<Suc i] @ drop (Suc i) ps" if "first_twin ps i = None"
    using scan_inv_pages_keep [OF i that] qs by simp
  show ?thesis
  proof (cases "shared (ps ! i)")
    case True
    then have "qs = map (dedupe_page ps) [0..<Suc i] @ drop (Suc i) ps"
      by (intro keep) (simp add: first_twin_def)
    then have "scan_inv st ps (Suc i) (stats, qs, m)"
      using True by (simp add: scan_inv_def stats m scan_stats_Suc_shared
          same_signature_before_Suc unique_page_def)
    moreover have "scan_page i (stats, qs, m) = Some (stats, qs, m)"
      using True qi by (simp add: scan_page_shared)
    ultimately show ?thesis by blast
  next
    case False
    with def have sig: "makeSignature (ps ! i) = Some sig" by simp
    have rep: "List.find (\<lambda>rep. pagesAreEqual (qs ! rep) (qs ! i)) (same_signature_before ps i sig)
        = first_twin ps i"
      unfolding qi by (rule find_representative [OF False sig])
        (rule scan_inv_nth(1) [OF qs], use i in auto)
    note page = False [folded qi] sig [folded qi] m [of sig]
    note probes = probes_at_same_signature [OF False sig]
    show ?thesis
    proof (cases "first_twin ps i")
      case None
      then have u: "unique_page ps i" using False by (simp add: unique_page_def)
      note step = scan_page_unique [OF page rep [unfolded None], of stats]
      show ?thesis
        unfolding step option.inject using keep [OF None]
        by (simp add: scan_inv_def stats m u sig scan_stats_Suc_unique [OF u] probes
            same_signature_before_Suc sigmap.um_at_push PageSignatureEq_iff)
    next
      case (Some r)
      then have r: "r < 2 ^ 64 - 1"
        using first_twin_SomeD [OF Some] i wf by (simp add: wf_pages_def)
      have "wf_page (qs ! i)" using wf i by (simp add: qi wf_pages_def)
      note step = scan_page_duplicate [OF page rep [unfolded Some] this r, of stats]
      have "qs[i := markShared (of_nat r) (qs ! i)]
          = map (dedupe_page ps) [0..<Suc i] @ drop (Suc i) ps"
        using scan_inv_pages_Suc [OF i] Some qi qs by (simp add: dedupe_page_def)
      with Some show ?thesis
        unfolding step option.inject
        by (simp add: scan_inv_def stats m scan_stats_Suc_duplicate [OF Some] probes
            same_signature_before_Suc unique_page_def)
    qed
  qed
qed

definition fingerprintable :: "Page \<Rightarrow> bool" where
  "fingerprintable p \<longleftrightarrow> shared p \<or> length (pdata p) \<notin> {0, 1, 2, 8, 9, 16}"

lemma fingerprintable_iff: "fingerprintable p \<longleftrightarrow> shared p \<or> makeSignature p \<noteq> None"
proof -
  have "makeSignature p \<noteq> None \<longleftrightarrow> computeFingerprint (pdata p) \<noteq> None"
    by (auto simp: makeSignature_def split: option.splits)
  then show ?thesis
    by (simp only: fingerprintable_def computeFingerprint_defined_iff_lengths)
qed

lemma scan_loop:
  assumes wf: "wf_pages ps" and n: "n \<le> length ps"
    and ok: "\<forall>i < n. fingerprintable (ps ! i)"
  shows "\<exists>s'. ofold scan_page [0..<n] (st, ps, []) = Some s' \<and> scan_inv st ps n s'"
  using n ok
proof (induction n)
  case 0
  then show ?case by (simp add: scan_inv_def scan_stats_def same_signature_before_def)
next
  case (Suc n)
  then obtain stats qs m where s: "ofold scan_page [0..<n] (st, ps, []) = Some (stats, qs, m)"
    and inv: "scan_inv st ps n (stats, qs, m)" by auto
  have "shared (ps ! n) \<or> makeSignature (ps ! n) \<noteq> None"
    using Suc.prems by (simp add: fingerprintable_iff)
  then obtain sig where "shared (ps ! n) \<or> makeSignature (ps ! n) = Some sig" by auto
  from scan_page_step [OF inv _ wf this] Suc.prems(1) s show ?case
    by (auto simp: ofold_snoc)
qed

text \<open>The first page that cannot be fingerprinted stops the scan with undefined behaviour.\<close>

lemma scan_loop_undefined:
  assumes wf: "wf_pages ps" and k: "k < length ps" and bad: "\<not> fingerprintable (ps ! k)"
    and least: "\<forall>i < k. fingerprintable (ps ! i)"
  shows "ofold scan_page [0..<length ps] (st, ps, []) = None"
proof -
  have split: "[0..<length ps] = ([0..<k] @ [k]) @ [Suc k..<length ps]"
    using k upt_add_eq_append [of 0 k "length ps - k"] upt_conv_Cons [OF k] by simp
  from scan_loop [OF wf _ least] k obtain stats qs m
    where s: "ofold scan_page [0..<k] (st, ps, []) = Some (stats, qs, m)"
      and inv: "scan_inv st ps k (stats, qs, m)" by fastforce
  have "qs ! k = ps ! k"
    using inv k scan_inv_nth(2) [of qs ps k] by (simp add: scan_inv_def)
  then have "scan_page k (stats, qs, m) = None"
    using bad by (intro scan_page_undefined) (simp_all add: fingerprintable_iff)
  with s show ?thesis unfolding split by (simp add: ofold_append ofold_snoc del: append_assoc)
qed

lemma scanRegion_correct_lemma:
  assumes "wf_pages (pages region)"
  shows "scanRegion st region =
    (if \<not> optIn region then Some (st, region)
     else if \<forall>p \<in> set (pages region). fingerprintable p
     then Some (scan_stats (pages region) (length (pages region)) st,
                region\<lparr>pages := dedupe_pages (pages region)\<rparr>)
     else None)"
proof (cases "\<forall>p \<in> set (pages region). fingerprintable p")
  case True
  then obtain s' where "ofold scan_page [0..<length (pages region)] (st, pages region, []) = Some s'"
    and "scan_inv st (pages region) (length (pages region)) s'"
    using scan_loop [OF assms, of "length (pages region)" st] by auto
  with True show ?thesis
    by (auto simp: scanRegion_def scan_inv_def dedupe_pages_def)
next
  case False
  then obtain j where "j < length (pages region) \<and> \<not> fingerprintable (pages region ! j)"
    by (metis in_set_conv_nth)
  then obtain k where "k < length (pages region)" "\<not> fingerprintable (pages region ! k)"
    and "\<forall>i < k. fingerprintable (pages region ! i)"
    using exists_least_iff [of "\<lambda>k. k < length (pages region) \<and> \<not> fingerprintable (pages region ! k)"]
    by (metis order_less_trans)
  then have "ofold scan_page [0..<length (pages region)] (st, pages region, []) = None"
    by (rule scan_loop_undefined [OF assms])
  with False show ?thesis by (auto simp: scanRegion_def)
qed

text \<open>
  C1: a scan of an opted-in region of well-formed pages computes exactly the specified
  deduplication (every page that is not shared and has an earlier unshared page with the
  same bytes becomes shared with the first such page as its home; nothing else changes)
  and the specified statistics; it is undefined exactly when some unshared page has one of
  the lengths that \<open>computeFingerprint\<close> reads past; a region that is not opted in is left
  alone. The hash functions do not influence the result.
\<close>

theorem scanRegion_correct:
  assumes "wf_pages (pages region)"
  shows "scanRegion st region =
    (if \<not> optIn region then Some (st, region)
     else if \<forall>p \<in> set (pages region). fingerprintable p
     then Some (scan_stats (pages region) (length (pages region)) st,
                region\<lparr>pages := dedupe_pages (pages region)\<rparr>)
     else None)"
  using assms by (rule scanRegion_correct_lemma)

theorem scanRegion_correct_witness:
  "scanRegion initial_stats \<lparr>rname = ''r'', optIn = False, pages = [newPage [1]]\<rparr>
   = Some (initial_stats, \<lparr>rname = ''r'', optIn = False, pages = [newPage [1]]\<rparr>)
   \<and> scanRegion initial_stats \<lparr>rname = ''r'', optIn = True, pages = [newPage [1]]\<rparr> = None"
  using scanRegion_correct [of "\<lparr>rname = ''r'', optIn = False, pages = [newPage [1]]\<rparr>" initial_stats]
    scanRegion_correct [of "\<lparr>rname = ''r'', optIn = True, pages = [newPage [1]]\<rparr>" initial_stats]
  by (simp add: wf_pages_def wf_page_def newPage_def fingerprintable_def)

section \<open>Consequences of the specification\<close>

lemma length_dedupe_pages [simp]: "length (dedupe_pages ps) = length ps"
  by (simp add: dedupe_pages_def)

lemma nth_dedupe_pages [simp]: "i < length ps \<Longrightarrow> dedupe_pages ps ! i = dedupe_page ps i"
  by (simp add: dedupe_pages_def)

lemma shared_dedupe_page [simp]:
  "shared (dedupe_page ps i) \<longleftrightarrow> shared (ps ! i) \<or> first_twin ps i \<noteq> None"
  by (auto simp: dedupe_page_def markShared_def split: option.splits)

lemma homeIndex_dedupe_page:
  "homeIndex (dedupe_page ps i) =
     (case first_twin ps i of None \<Rightarrow> homeIndex (ps ! i) | Some j \<Rightarrow> of_nat j)"
  by (auto simp: dedupe_page_def markShared_def split: option.splits)

lemma wf_dedupe_pages: "wf_pages ps \<Longrightarrow> wf_pages (dedupe_pages ps)"
  by (auto simp: wf_pages_def wf_page_def dedupe_pages_def dedupe_page_def markShared_def
      split: option.splits)

lemma fingerprintable_dedupe:
  "\<forall>p \<in> set ps. fingerprintable p \<Longrightarrow> \<forall>p \<in> set (dedupe_pages ps). fingerprintable p"
  by (auto simp: dedupe_pages_def fingerprintable_def)

text \<open>A successful scan of an opted-in region, as an equation the consequences use.\<close>

lemma scanRegion_SomeD:
  assumes "scanRegion st region = Some (st', region')" and "wf_pages (pages region)"
    and "optIn region"
  shows "st' = scan_stats (pages region) (length (pages region)) st"
    and "region' = region\<lparr>pages := dedupe_pages (pages region)\<rparr>"
    and "\<forall>p \<in> set (pages region). fingerprintable p"
  using assms scanRegion_correct_lemma [OF assms(2), of st] by (auto split: if_splits)

definition home :: "Page \<Rightarrow> nat" where
  "home p = unat (homeIndex p)"

text \<open>Every shared page names a page of the region with the same bytes.\<close>

definition homes_ok :: "Page list \<Rightarrow> bool" where
  "homes_ok ps \<longleftrightarrow> (\<forall>i < length ps. shared (ps ! i) \<longrightarrow>
     home (ps ! i) < length ps \<and> pdata (ps ! home (ps ! i)) = pdata (ps ! i))"

lemma home_dedupe_page:
  assumes "first_twin ps i = Some j" and "i < 2 ^ 64"
  shows "home (dedupe_page ps i) = j"
  using assms first_twin_SomeD [OF assms(1)]
  by (simp add: home_def homeIndex_dedupe_page unat_of_nat_small)

lemma homes_ok_dedupe_pages:
  assumes "wf_pages ps" and "homes_ok ps"
  shows "homes_ok (dedupe_pages ps)"
  unfolding homes_ok_def
proof (intro allI impI)
  fix i assume i: "i < length (dedupe_pages ps)" and sh: "shared (dedupe_pages ps ! i)"
  show "home (dedupe_pages ps ! i) < length (dedupe_pages ps) \<and>
    pdata (dedupe_pages ps ! home (dedupe_pages ps ! i)) = pdata (dedupe_pages ps ! i)"
  proof (cases "first_twin ps i")
    case None
    with i sh have "shared (ps ! i)" and "home (dedupe_page ps i) = home (ps ! i)"
      by (simp_all add: home_def homeIndex_dedupe_page)
    with i assms(2) show ?thesis by (simp add: homes_ok_def)
  next
    case (Some j)
    with i assms(1) have "home (dedupe_page ps i) = j"
      by (intro home_dedupe_page) (simp_all add: wf_pages_def)
    with i first_twin_SomeD [OF Some] show ?thesis by simp
  qed
qed

text \<open>
  C5: a scan preserves the sharing invariant (every shared page's home is a page of the
  region with the same bytes), never changes the bytes of any page, and a page that this
  scan merged has an unshared page as its home.
\<close>

theorem scanRegion_sharing_sound:
  assumes "scanRegion st region = Some (st', region')" and "wf_pages (pages region)"
    and "homes_ok (pages region)"
  shows "homes_ok (pages region') \<and> map pdata (pages region') = map pdata (pages region) \<and>
    (\<forall>i < length (pages region). shared (pages region' ! i) \<and> \<not> shared (pages region ! i)
       \<longrightarrow> \<not> shared (pages region' ! home (pages region' ! i)))"
proof (cases "optIn region")
  case False
  with assms show ?thesis by (simp add: scanRegion_def)
next
  case True
  let ?ps = "pages region"
  have r: "pages region' = dedupe_pages ?ps"
    using scanRegion_SomeD(2) [OF assms(1,2) True] by simp
  have "map pdata (dedupe_pages ?ps) = map pdata ?ps"
    by (rule nth_equalityI) auto
  moreover have "\<not> shared (dedupe_pages ?ps ! home (dedupe_pages ?ps ! i))"
    if i: "i < length ?ps" "shared (dedupe_pages ?ps ! i)" "\<not> shared (?ps ! i)" for i
  proof -
    from i obtain j where j: "first_twin ?ps i = Some j" by auto
    then have "home (dedupe_page ?ps i) = j"
      using i assms(2) by (intro home_dedupe_page) (simp_all add: wf_pages_def)
    moreover have "\<not> shared (dedupe_page ?ps j)"
      using first_twin_unique [OF j] by (simp add: unique_page_def)
    ultimately show ?thesis using i first_twin_SomeD [OF j] by simp
  qed
  ultimately show ?thesis
    using homes_ok_dedupe_pages [OF assms(2,3)] by (auto simp: r)
qed

text \<open>Three pages, two of them equal: the region the witnesses scan.\<close>

definition demo_region :: MemoryRegion where
  "demo_region = \<lparr>rname = ''demo'', optIn = True,
     pages = map newPage [[1, 2, 3], [4, 5, 6], [1, 2, 3]]\<rparr>"

lemma wf_demo_region: "wf_pages (pages demo_region)"
  by (simp add: demo_region_def wf_pages_def wf_page_def newPage_def)

lemma homes_ok_demo_region: "homes_ok (pages demo_region)"
  by (auto simp: demo_region_def homes_ok_def newPage_def less_Suc_eq numeral_eq_Suc)

lemma scan_demo_region:
  "scanRegion initial_stats demo_region =
     Some (scan_stats (pages demo_region) 3 initial_stats,
           demo_region\<lparr>pages := dedupe_pages (pages demo_region)\<rparr>)"
  by (subst scanRegion_correct_lemma [OF wf_demo_region])
    (simp add: demo_region_def fingerprintable_def newPage_def numeral_3_eq_3)

lemma dedupe_demo_region:
  "dedupe_pages (pages demo_region) =
     [newPage [1, 2, 3], newPage [4, 5, 6], markShared 0 (newPage [1, 2, 3])]"
  by (simp add: demo_region_def dedupe_pages_def dedupe_page_def first_twin_def newPage_def
      upt_rec)

theorem scanRegion_sharing_sound_witness:
  "homes_ok (dedupe_pages (pages demo_region))"
  using scanRegion_sharing_sound [OF scan_demo_region wf_demo_region homes_ok_demo_region] by simp

lemma no_twin_after_scan:
  assumes "i < length ps"
  shows "first_twin (dedupe_pages ps) i = None"
proof (rule ccontr)
  assume "first_twin (dedupe_pages ps) i \<noteq> None"
  then obtain j where "first_twin (dedupe_pages ps) i = Some j" by auto
  from first_twin_SomeD [OF this] assms
  have j: "j < i" and eq: "pdata (ps ! j) = pdata (ps ! i)"
    and i: "\<not> shared (ps ! i)" "first_twin ps i = None" and nj: "\<not> shared (ps ! j)"
    by auto
  from i have "\<forall>k < i. \<not> (\<not> shared (ps ! k) \<and> pdata (ps ! k) = pdata (ps ! i))"
    by (simp add: first_twin_def find_upt_None_iff)
  with j eq nj show False by blast
qed

text \<open>
  C6: a scan of an opted-in region misses no duplicate: afterwards any two pages that are
  not shared differ in their bytes.
\<close>

theorem scanRegion_complete:
  assumes "scanRegion st region = Some (st', region')" and "wf_pages (pages region)"
    and "optIn region" and "i < j" and "j < length (pages region')"
    and "\<not> shared (pages region' ! i)" and "\<not> shared (pages region' ! j)"
  shows "pdata (pages region' ! i) \<noteq> pdata (pages region' ! j)"
proof -
  let ?qs = "pages region'"
  have r: "?qs = dedupe_pages (pages region)"
    using scanRegion_SomeD(2) [OF assms(1-3)] by simp
  have "first_twin ?qs j = None"
    using no_twin_after_scan assms(5) by (simp add: r)
  with assms(4,6,7) show ?thesis
    by (auto simp: first_twin_def find_upt_None_iff)
qed

theorem scanRegion_complete_witness:
  "pdata (pages (demo_region\<lparr>pages := dedupe_pages (pages demo_region)\<rparr>) ! 0)
   \<noteq> pdata (pages (demo_region\<lparr>pages := dedupe_pages (pages demo_region)\<rparr>) ! 1)"
  by (rule scanRegion_complete [OF scan_demo_region wf_demo_region])
    (simp_all add: dedupe_demo_region newPage_def, simp add: demo_region_def)

lemma count_below_eq_0: "(\<And>i. i < n \<Longrightarrow> \<not> P i) \<Longrightarrow> count_below P n = 0"
  by (simp add: count_below_def)

lemma dedupe_pages_idem: "dedupe_pages (dedupe_pages ps) = dedupe_pages ps"
  by (rule nth_equalityI) (auto simp: dedupe_page_def [of "dedupe_pages ps"] no_twin_after_scan)

text \<open>
  C18: scanning an opted-in region again right after a scan changes no page and claims no
  further duplicate and no further saving.
\<close>

theorem rescan_idempotent:
  assumes "scanRegion st region = Some (st', region')" and "wf_pages (pages region)"
    and "optIn region"
  shows "\<exists>st''. scanRegion st' region' = Some (st'', region') \<and>
    duplicatePages st'' = duplicatePages st' \<and> bytesSaved st'' = bytesSaved st'"
proof -
  let ?qs = "dedupe_pages (pages region)"
  note d = scanRegion_SomeD [OF assms]
  have none: "count_below (\<lambda>i. first_twin ?qs i \<noteq> None) (length ?qs) = 0"
    by (rule count_below_eq_0) (simp add: no_twin_after_scan)
  have "scanRegion st' region' = Some (scan_stats ?qs (length ?qs) st', region')"
    using scanRegion_correct_lemma [of region' st'] d assms(3) wf_dedupe_pages [OF assms(2)]
      fingerprintable_dedupe
    by (simp add: dedupe_pages_idem)
  moreover have "duplicatePages (scan_stats ?qs (length ?qs) st') = duplicatePages st'"
    and "bytesSaved (scan_stats ?qs (length ?qs) st') = bytesSaved st'"
    using none unfolding scan_stats_def by simp_all
  ultimately show ?thesis by blast
qed

theorem rescan_idempotent_witness:
  "\<exists>st''. scanRegion (scan_stats (pages demo_region) 3 initial_stats)
            (demo_region\<lparr>pages := dedupe_pages (pages demo_region)\<rparr>)
          = Some (st'', demo_region\<lparr>pages := dedupe_pages (pages demo_region)\<rparr>)"
  using rescan_idempotent [OF scan_demo_region wf_demo_region]
  by (auto simp: demo_region_def)

section \<open>Writes\<close>

definition written_data :: "Page \<Rightarrow> u8 \<Rightarrow> u8 list" where
  "written_data page v = (if pdata page = [] then replicate PageSize 0 else pdata page)[0 := v]"

lemma writeToPage_eq:
  assumes "i < length (pages region)" and "wf_page (pages region ! i)"
  shows "writeToPage st region i v =
    (st\<lparr>writesEmulated := writesEmulated st + 1,
        writeCowEvents := writeCowEvents st + (if shared (pages region ! i) then 1 else 0)\<rparr>,
     region\<lparr>pages := (pages region)[i := newPage (written_data (pages region ! i) v)]\<rparr>)"
proof -
  have "p\<lparr>pdata := d\<rparr> = newPage d" if "wf_page p" "\<not> shared p" for p :: Page and d
    using that by (cases p) (simp add: wf_page_def newPage_def)
  then show ?thesis
    using assms
    by (simp add: writeToPage_def clonePageForWrite_def isShared_def Let_def written_data_def
        newPage_def)
qed

text \<open>
  C20: a write to an existing page replaces it by a private page whose first byte is the
  written value (an empty page is first grown to 4096 zero bytes), counts the write, counts
  a copy-on-write event exactly when the page was shared, and leaves every other page alone;
  a write past the last page does nothing at all.
\<close>

theorem writeToPage_functional:
  assumes "wf_pages (pages region)"
  shows "writeToPage st region i v =
    (if i < length (pages region)
     then (st\<lparr>writesEmulated := writesEmulated st + 1,
              writeCowEvents := writeCowEvents st + (if shared (pages region ! i) then 1 else 0)\<rparr>,
           region\<lparr>pages := (pages region)[i := newPage (written_data (pages region ! i) v)]\<rparr>)
     else (st, region))"
proof (cases "i < length (pages region)")
  case True
  with assms have "wf_page (pages region ! i)" by (simp add: wf_pages_def)
  with True show ?thesis by (simp add: writeToPage_eq)
qed (simp add: writeToPage_def)

theorem writeToPage_functional_witness:
  "snd (writeToPage initial_stats demo_region 1 9) =
     demo_region\<lparr>pages := map newPage [[1, 2, 3], [9, 5, 6], [1, 2, 3]]\<rparr>"
  using writeToPage_functional [OF wf_demo_region, of initial_stats 1 9]
  by (simp add: demo_region_def written_data_def newPage_def)

text \<open>
  C21: a write keeps the sharing invariant exactly when it does not change the bytes of the
  written page or no other shared page has that page as its home. The emulated
  copy-on-write protects a shared page from its own writes only: writing the representative
  of a group changes what its members are said to share.
\<close>

theorem write_keeps_homes_iff:
  assumes "wf_pages (pages region)" and "homes_ok (pages region)" and "i < length (pages region)"
  shows "homes_ok (pages (snd (writeToPage st region i v))) \<longleftrightarrow>
    written_data (pages region ! i) v = pdata (pages region ! i) \<or>
    (\<forall>k < length (pages region). k \<noteq> i \<and> shared (pages region ! k)
       \<longrightarrow> home (pages region ! k) \<noteq> i)"
proof -
  let ?ps = "pages region" and ?d = "written_data (pages region ! i) v"
  have "wf_page (?ps ! i)" using assms(1,3) by (simp add: wf_pages_def)
  then have w: "pages (snd (writeToPage st region i v)) = ?ps[i := newPage ?d]"
    using assms(3) by (simp add: writeToPage_eq)
  have "homes_ok (?ps[i := newPage ?d]) \<longleftrightarrow> (\<forall>k < length ?ps. k \<noteq> i \<and> shared (?ps ! k) \<longrightarrow>
      pdata (?ps[i := newPage ?d] ! home (?ps ! k)) = pdata (?ps ! k))"
    using assms(2,3) unfolding homes_ok_def
    by (auto simp: nth_list_update newPage_def)
  also have "\<dots> \<longleftrightarrow> (\<forall>k < length ?ps. k \<noteq> i \<and> shared (?ps ! k) \<longrightarrow>
      home (?ps ! k) = i \<longrightarrow> ?d = pdata (?ps ! i))"
    using assms(2,3) unfolding homes_ok_def
    by (auto simp: nth_list_update newPage_def)
  finally show ?thesis unfolding w by blast
qed

theorem write_keeps_homes_iff_witness:
  "homes_ok (pages (snd (writeToPage initial_stats demo_region 0 7)))"
  using write_keeps_homes_iff [OF wf_demo_region homes_ok_demo_region, of 0 initial_stats 7]
  by (simp add: demo_region_def newPage_def less_Suc_eq numeral_eq_Suc)

section \<open>Histories of one engine and one region\<close>

text \<open>The states an engine and a region reach from a fresh region by scans and writes.\<close>

inductive engine_run :: "Stats \<Rightarrow> MemoryRegion \<Rightarrow> bool" where
  create: "length contents < 2 ^ 64 \<Longrightarrow>
    engine_run initial_stats \<lparr>rname = name, optIn = opt, pages = map newPage contents\<rparr>"
| scan: "engine_run st region \<Longrightarrow> scanRegion st region = Some (st', region') \<Longrightarrow>
    engine_run st' region'"
| wr: "engine_run st region \<Longrightarrow> writeToPage st region i v = (st', region') \<Longrightarrow>
    engine_run st' region'"

inductive_cases engine_run_cases: "engine_run st region"

definition shared_count :: "Page list \<Rightarrow> nat" where
  "shared_count ps = length (filter shared ps)"

definition accounted :: "Stats \<Rightarrow> Page list \<Rightarrow> bool" where
  "accounted st ps \<longleftrightarrow>
     duplicatePages st = of_nat (shared_count ps) + writeCowEvents st \<and>
     bytesSaved st = of_nat PageSize * duplicatePages st \<and>
     pagesScanned st = uniquePages st + duplicatePages st"

lemma count_below_disjoint:
  assumes "\<And>i. i < n \<Longrightarrow> \<not> (P i \<and> Q i)"
  shows "count_below (\<lambda>i. P i \<or> Q i) n = count_below P n + count_below Q n"
  using assms by (induction n) auto

lemma count_below_cong:
  "(\<And>i. i < n \<Longrightarrow> P i = Q i) \<Longrightarrow> count_below P n = count_below Q n"
  by (induction n) auto

lemma shared_count_eq: "shared_count ps = count_below (\<lambda>i. shared (ps ! i)) (length ps)"
  by (simp add: shared_count_def count_below_def length_filter_nth [of shared])

lemma shared_count_dedupe:
  "shared_count (dedupe_pages ps) =
     shared_count ps + count_below (\<lambda>i. first_twin ps i \<noteq> None) (length ps)"
proof -
  have "shared_count (dedupe_pages ps) =
      count_below (\<lambda>i. shared (ps ! i) \<or> first_twin ps i \<noteq> None) (length ps)"
    unfolding shared_count_eq length_dedupe_pages by (rule count_below_cong) simp
  also have "\<dots> = count_below (\<lambda>i. shared (ps ! i)) (length ps)
      + count_below (\<lambda>i. first_twin ps i \<noteq> None) (length ps)"
    by (rule count_below_disjoint) (auto simp: first_twin_def)
  finally show ?thesis by (simp only: shared_count_eq)
qed

lemma unshared_count_split:
  "count_below (\<lambda>i. \<not> shared (ps ! i)) n =
     count_below (unique_page ps) n + count_below (\<lambda>i. first_twin ps i \<noteq> None) n"
proof -
  have "count_below (\<lambda>i. \<not> shared (ps ! i)) n
      = count_below (\<lambda>i. unique_page ps i \<or> first_twin ps i \<noteq> None) n"
    by (rule count_below_cong) (auto simp: unique_page_def dest: first_twin_SomeD)
  also have "\<dots> = count_below (unique_page ps) n + count_below (\<lambda>i. first_twin ps i \<noteq> None) n"
    by (rule count_below_disjoint) (auto simp: unique_page_def)
  finally show ?thesis .
qed

lemma accounted_scan:
  assumes "accounted st ps"
  shows "accounted (scan_stats ps (length ps) st) (dedupe_pages ps)"
  using assms unfolding accounted_def scan_stats_def shared_count_dedupe unshared_count_split
  by (simp add: algebra_simps)

lemma accounted_write:
  assumes "accounted st ps" and "i < length ps"
  shows "accounted (st\<lparr>writesEmulated := writesEmulated st + 1,
      writeCowEvents := writeCowEvents st + (if shared (ps ! i) then 1 else 0)\<rparr>)
      (ps[i := newPage d])"
proof -
  have h: "shared_count (ps[i := newPage d]) + (if shared (ps ! i) then 1 else 0) = shared_count ps"
    using length_filter_update [OF assms(2), of shared "newPage d"]
    by (simp add: shared_count_def newPage_def)
  have eq: "of_nat (shared_count ps) = of_nat (shared_count (ps[i := newPage d]))
      + (if shared (ps ! i) then 1 else 0 :: size_t)"
    unfolding h [symmetric] by (cases "shared (ps ! i)") simp_all
  have "duplicatePages st = of_nat (shared_count ps) + writeCowEvents st"
    using assms(1) by (simp add: accounted_def)
  also have "\<dots> = of_nat (shared_count (ps[i := newPage d]))
      + (writeCowEvents st + (if shared (ps ! i) then 1 else 0))"
    unfolding eq by (simp only: ac_simps)
  finally show ?thesis
    using assms(1) by (simp add: accounted_def)
qed

lemma wf_pages_update: "wf_pages ps \<Longrightarrow> wf_pages (ps[i := newPage d])"
  by (auto simp: wf_pages_def wf_page_def newPage_def dest!: set_update_subset_insert [THEN subsetD])

lemma engine_run_invariant:
  "engine_run st region \<Longrightarrow> wf_pages (pages region) \<and> accounted st (pages region)"
proof (induction rule: engine_run.induct)
  case (create contents name opt)
  then show ?case
    by (simp add: wf_pages_def wf_page_def newPage_def accounted_def initial_stats_def
        shared_count_def filter_map comp_def)
next
  case (scan st region st' region')
  show ?case
  proof (cases "optIn region")
    case True
    with scan show ?thesis
      using scanRegion_SomeD [OF scan.hyps(2)] by (simp add: wf_dedupe_pages accounted_scan)
  next
    case False
    with scan show ?thesis by (simp add: scanRegion_def)
  qed
next
  case (wr st region i v st' region')
  show ?case
  proof (cases "i < length (pages region)")
    case True
    with wr have "wf_page (pages region ! i)" by (simp add: wf_pages_def)
    from writeToPage_eq [OF True this, of st v] wr True show ?thesis
      by (auto simp: wf_pages_update accounted_write)
  next
    case False
    with wr show ?thesis by (simp add: writeToPage_def)
  qed
qed

text \<open>
  C19: the books of an engine that works on one region balance after any sequence of scans
  and writes: every duplicate ever found is either still a shared page or was split off by a
  copy-on-write event, the bytes saved are 4096 per duplicate ever found (they are not given
  back on a copy-on-write), and every scanned page was unique or a duplicate; all modulo
  \<open>2 ^ 64\<close>.
\<close>

theorem engine_accounting:
  assumes "engine_run st region"
  shows "duplicatePages st = of_nat (length (filter shared (pages region))) + writeCowEvents st \<and>
    bytesSaved st = 4096 * duplicatePages st \<and>
    pagesScanned st = uniquePages st + duplicatePages st"
  using engine_run_invariant [OF assms]
  by (simp add: accounted_def shared_count_def PageSize_def)

lemma engine_run_demo:
  "engine_run (scan_stats (pages demo_region) 3 initial_stats)
     (demo_region\<lparr>pages := dedupe_pages (pages demo_region)\<rparr>)"
proof -
  have "engine_run initial_stats demo_region"
    using engine_run.create [of "[[1, 2, 3], [4, 5, 6], [1, 2, 3]]" "''demo''" True]
    by (simp add: demo_region_def)
  then show ?thesis using scan_demo_region by (rule engine_run.scan)
qed

theorem engine_accounting_witness:
  "bytesSaved (scan_stats (pages demo_region) 3 initial_stats) =
   4096 * duplicatePages (scan_stats (pages demo_region) 3 initial_stats)"
  using engine_accounting [OF engine_run_demo] by simp

lemma written_data_unchanged:
  "written_data page v = pdata page \<longleftrightarrow> pdata page \<noteq> [] \<and> hd (pdata page) = v"
proof -
  have "0 < PageSize" by (simp add: PageSize_def)
  then show ?thesis by (cases "pdata page") (auto simp: written_data_def)
qed

text \<open>
  C22: the emulated copy-on-write does not guard the representative. Take any page that a
  scan merges, and write to its home. The page stays shared with that home and keeps its
  bytes, no copy-on-write event and no other change is counted, and the home gets the
  written byte: unless that byte was there already, the page is from then on recorded as
  sharing a home whose bytes differ from its own.
\<close>

theorem representative_write_breaks_sharing:
  assumes "scanRegion st region = Some (st', region')" and "wf_pages (pages region)"
    and "i < length (pages region)" and "\<not> shared (pages region ! i)"
    and "shared (pages region' ! i)"
    and "writeToPage st' region' (home (pages region' ! i)) v = (st'', region'')"
  shows "shared (pages region'' ! i) \<and> home (pages region'' ! i) = home (pages region' ! i) \<and>
    pdata (pages region'' ! i) = pdata (pages region ! i) \<and>
    \<not> shared (pages region'' ! home (pages region' ! i)) \<and>
    st'' = st'\<lparr>writesEmulated := writesEmulated st' + 1\<rparr> \<and>
    (pdata (pages region'' ! home (pages region' ! i)) = pdata (pages region'' ! i) \<longleftrightarrow>
     pdata (pages region ! i) \<noteq> [] \<and> hd (pdata (pages region ! i)) = v)"
proof -
  let ?ps = "pages region" and ?qs = "pages region'" and ?j = "home (pages region' ! i)"
  have optin: "optIn region"
    using assms(1,4,5) by (auto simp: scanRegion_def split: if_splits)
  have qs: "?qs = dedupe_pages ?ps"
    using scanRegion_SomeD(2) [OF assms(1,2) optin] by simp
  obtain j where j: "first_twin ?ps i = Some j"
    using assms(3-5) by (auto simp: qs)
  have "home (dedupe_page ?ps i) = j"
    using j assms(2,3) by (intro home_dedupe_page) (simp_all add: wf_pages_def)
  then have hj: "?j = j" using assms(3) by (simp add: qs)
  note tw = first_twin_SomeD [OF j]
  have jlt: "j < length ?qs" using tw(1) assms(3) by (simp add: qs)
  have priv: "\<not> shared (?qs ! j)"
    using first_twin_unique [OF j] jlt by (simp add: qs unique_page_def)
  have dj: "pdata (?qs ! j) = pdata (?ps ! i)" using tw jlt by (simp add: qs)
  have wf: "wf_page (?qs ! j)"
    using wf_dedupe_pages [OF assms(2)] nth_mem [OF jlt] unfolding qs wf_pages_def by blast
  have st: "st'' = st'\<lparr>writesEmulated := writesEmulated st' + 1\<rparr>"
    and w: "pages region'' = ?qs[j := newPage (written_data (?qs ! j) v)]"
    using writeToPage_eq [OF jlt wf, of st' v] assms(6) priv by (auto simp: hj)
  have i: "pages region'' ! i = ?qs ! i" and "pages region'' ! j = newPage (written_data (?qs ! j) v)"
    using tw(1) jlt by (simp_all add: w)
  moreover have "pdata (?qs ! i) = pdata (?ps ! i)" using assms(3) by (simp add: qs)
  moreover have "written_data (?qs ! j) v = pdata (?ps ! i) \<longleftrightarrow>
      pdata (?ps ! i) \<noteq> [] \<and> hd (pdata (?ps ! i)) = v"
    using written_data_unchanged [of "?qs ! j" v] dj by simp
  ultimately show ?thesis
    using assms(5) st by (simp add: hj) (simp add: newPage_def)
qed

theorem representative_write_breaks_sharing_witness:
  "\<exists>st'' region''. writeToPage (scan_stats (pages demo_region) 3 initial_stats)
       (demo_region\<lparr>pages := dedupe_pages (pages demo_region)\<rparr>) 0 7 = (st'', region'') \<and>
     shared (pages region'' ! 2) \<and> home (pages region'' ! 2) = 0 \<and>
     pdata (pages region'' ! 0) \<noteq> pdata (pages region'' ! 2)"
proof -
  let ?r = "demo_region\<lparr>pages := dedupe_pages (pages demo_region)\<rparr>"
  let ?st = "scan_stats (pages demo_region) 3 initial_stats"
  obtain st'' region'' where w: "writeToPage ?st ?r 0 7 = (st'', region'')" by fastforce
  have h: "home (pages ?r ! 2) = 0" "shared (pages ?r ! 2)"
    by (simp_all add: dedupe_demo_region markShared_def home_def newPage_def)
  have d: "2 < length (pages demo_region)" "\<not> shared (pages demo_region ! 2)"
    "pdata (pages demo_region ! 2) = [1, 2, 3]"
    by (simp_all add: demo_region_def newPage_def)
  from representative_write_breaks_sharing
      [OF scan_demo_region wf_demo_region d(1,2) h(2), of 7 st'' region''] w h(1) d(3)
  have "shared (pages region'' ! 2) \<and> home (pages region'' ! 2) = 0 \<and>
      pdata (pages region'' ! 0) \<noteq> pdata (pages region'' ! 2)"
    by auto
  with w show ?thesis by blast
qed

end
