(* ===== verification/Predictor.thy ===== *)
theory Predictor
  imports Complex_Main Prelude "HOL-Library.Sublist"
begin

text \<open>
  The heuristic predictor (user/ml_predictor.h, user/ml_predictor.cpp): scores and reasons
  for processes and regions from their names and page counts. A double is the rational
  number it denotes; every literal and every sum is rounded to the nearest double, ties to
  even, as IEEE binary64 does for the magnitudes that occur here.
\<close>

section \<open>Rounding\<close>

definition round_half_even :: "rat \<Rightarrow> int" where
  "round_half_even q =
     (let f = \<lfloor>q\<rfloor>; r = q - of_int f
      in if r < 1 / 2 then f else if 1 / 2 < r then f + 1 else if even f then f else f + 1)"

text \<open>The spacing of doubles around a positive \<open>x\<close> below two: with \<open>b = 2 ^ e\<close> the largest
  power of two up to \<open>x\<close>, it is \<open>b / 2 ^ 52\<close>, and below the normal range \<open>2 ^ - 1074\<close>.\<close>

fun spacing :: "nat \<Rightarrow> rat \<Rightarrow> rat \<Rightarrow> rat" where
  "spacing 0 b x = b / 2 ^ 52"
| "spacing (Suc n) b x = (if x < b then spacing n (b / 2) x else b / 2 ^ 52)"

definition double_of :: "rat \<Rightarrow> rat" where
  "double_of x =
     (if x = 0 then 0
      else let u = spacing 1022 1 \<bar>x\<bar>
           in (if x < 0 then - 1 else 1) * of_int (round_half_even (\<bar>x\<bar> / u)) * u)"

definition double_add :: "rat \<Rightarrow> rat \<Rightarrow> rat" where
  "double_add x y = double_of (x + y)"

definition double_sub :: "rat \<Rightarrow> rat \<Rightarrow> rat" where
  "double_sub x y = double_of (x - y)"

section \<open>The predictor\<close>

text \<open>\<open>std::tolower\<close> in the C locale, and \<open>std::string::find(...) != npos\<close>.\<close>

definition tolower_char :: "char \<Rightarrow> char" where
  "tolower_char c =
     (if 65 \<le> (of_char c :: nat) \<and> (of_char c :: nat) \<le> 90
      then char_of ((of_char c :: nat) + 32) else c)"

definition toLower :: "string \<Rightarrow> string" where
  "toLower input = map tolower_char input"

fun found_in :: "string \<Rightarrow> string \<Rightarrow> bool" where
  "found_in needle [] = (needle = [])"
| "found_in needle (c # cs) = (take (length needle) (c # cs) = needle \<or> found_in needle cs)"

definition clampScore :: "rat \<Rightarrow> rat" where
  "clampScore v = (if v < 0 then 0 else if 1 < v then 1 else v)"

record MLPrediction =
  score :: rat
  reason :: string

text \<open>The body of one \<open>if\<close>: adjust the score and append to the reason.\<close>

definition adjust_if :: "bool \<Rightarrow> (rat \<Rightarrow> rat) \<Rightarrow> string \<Rightarrow> MLPrediction \<Rightarrow> MLPrediction" where
  "adjust_if b f text p =
     (if b then \<lparr>score = f (score p), reason = reason p @ text\<rparr> else p)"

definition clamped :: "MLPrediction \<Rightarrow> MLPrediction" where
  "clamped p = p\<lparr>score := clampScore (score p)\<rparr>"

definition bump :: "rat \<Rightarrow> rat \<Rightarrow> rat" where "bump literal s = double_add s (double_of literal)"
definition cut :: "rat \<Rightarrow> rat \<Rightarrow> rat" where "cut literal s = double_sub s (double_of literal)"

definition predictProcess :: "string \<Rightarrow> size_t \<Rightarrow> MLPrediction" where
  "predictProcess processName pageCount =
     (let normalized = toLower processName in
      clamped
        (adjust_if (pageCount < 16) (cut (5 / 100)) ''small working set ''
          (adjust_if (64 < pageCount) (bump (15 / 100)) ''large working set ''
            (adjust_if (found_in ''vm'' normalized \<or> found_in ''virtual'' normalized)
                       (bump (25 / 100)) ''virtual-machine workload ''
              (adjust_if (found_in ''electron'' normalized)
                         (bump (30 / 100)) ''electron-like workload ''
                (adjust_if (found_in ''browser'' normalized)
                           (bump (35 / 100)) ''browser-like workload ''
                  \<lparr>score = double_of (1 / 10), reason = []\<rparr>))))))"

definition predictRegion :: "string \<Rightarrow> size_t \<Rightarrow> MLPrediction" where
  "predictRegion regionName pageCount =
     (let normalized = toLower regionName in
      clamped
        (adjust_if (pageCount < 8) (cut (5 / 100)) ''tiny region ''
          (adjust_if (32 < pageCount) (bump (10 / 100)) ''moderate region size ''
            (adjust_if (found_in ''cache'' normalized)
                       (bump (30 / 100)) ''cache region likely repeated data ''
              (adjust_if (found_in ''tab'' normalized)
                         (bump (40 / 100)) ''tabbed content likely duplicates ''
                \<lparr>score = double_of (5 / 100), reason = []\<rparr>)))))"

section \<open>Rounding errors\<close>

lemma round_half_even_error: "\<bar>of_int (round_half_even q) - q\<bar> \<le> 1 / 2"
proof -
  have "of_int \<lfloor>q\<rfloor> \<le> q" "q < of_int \<lfloor>q\<rfloor> + 1" by linarith+
  then show ?thesis by (auto simp: round_half_even_def Let_def abs_le_iff)
qed

lemma spacing_bounds: "0 < b \<Longrightarrow> 0 < spacing n b x \<and> spacing n b x \<le> b / 2 ^ 52"
proof (induction n arbitrary: b)
  case (Suc n)
  have "0 < spacing n (b / 2) x \<and> spacing n (b / 2) x \<le> b / 2 / 2 ^ 52"
    using Suc.IH [of "b / 2"] Suc.prems by simp
  moreover have "b / 2 / 2 ^ 52 \<le> b / 2 ^ 52" using Suc.prems by (simp add: field_simps)
  ultimately show ?case using Suc.prems by auto
qed simp

definition eps :: rat where "eps = 1 / 2 ^ 53"

lemma double_error: "\<bar>double_of x - x\<bar> \<le> eps"
proof (cases "x = 0")
  case True
  then show ?thesis by (simp add: double_of_def eps_def)
next
  case False
  define u where "u = spacing 1022 1 \<bar>x\<bar>"
  have u: "0 < u" "u \<le> 1 / 2 ^ 52" using spacing_bounds [of 1 1022 "\<bar>x\<bar>"] by (simp_all add: u_def)
  define n where "n = (of_int (round_half_even (\<bar>x\<bar> / u)) :: rat)"
  have "\<bar>n - \<bar>x\<bar> / u\<bar> * u \<le> 1 / 2 * u"
    using round_half_even_error [of "\<bar>x\<bar> / u"] u(1) by (intro mult_right_mono) (auto simp: n_def)
  moreover have "\<bar>n - \<bar>x\<bar> / u\<bar> * u = \<bar>n * u - \<bar>x\<bar>\<bar>"
  proof -
    have "\<bar>n - \<bar>x\<bar> / u\<bar> * u = \<bar>(n - \<bar>x\<bar> / u) * u\<bar>"
      by (simp only: abs_mult abs_of_pos [OF u(1)])
    also have "(n - \<bar>x\<bar> / u) * u = n * u - \<bar>x\<bar>"
      using u(1) by (simp add: left_diff_distrib)
    finally show ?thesis .
  qed
  ultimately have "\<bar>n * u - \<bar>x\<bar>\<bar> \<le> eps" using u(2) by (simp add: eps_def)
  moreover have "double_of x = (if x < 0 then - 1 else 1) * n * u"
    using False by (simp add: double_of_def n_def u_def Let_def)
  ultimately show ?thesis by (cases "x < 0") (auto simp: abs_le_iff)
qed

text \<open>Every magnitude is covered by the bound; the spacing is that of doubles below two.\<close>

lemma bump_error: "\<bar>s - e\<bar> \<le> d \<Longrightarrow> \<bar>bump l s - (e + l)\<bar> \<le> d + 2 * eps"
  using double_error [of l] double_error [of "s + double_of l"]
  by (auto simp: bump_def double_add_def abs_le_iff)

lemma cut_error: "\<bar>s - e\<bar> \<le> d \<Longrightarrow> \<bar>cut l s - (e - l)\<bar> \<le> d + 2 * eps"
  using double_error [of l] double_error [of "s - double_of l"]
  by (auto simp: cut_def double_sub_def abs_le_iff)

lemma eps_nonneg: "0 \<le> eps"
  by (simp add: eps_def)

lemma adjust_bump:
  "\<bar>score p - e\<bar> \<le> d \<Longrightarrow>
     \<bar>score (adjust_if b (bump l) t p) - (e + (if b then l else 0))\<bar> \<le> d + 2 * eps"
  using bump_error [of "score p" e d l] eps_nonneg by (auto simp: adjust_if_def)

lemma adjust_cut:
  "\<bar>score p - e\<bar> \<le> d \<Longrightarrow>
     \<bar>score (adjust_if b (cut l) t p) - (e + (if b then - l else 0))\<bar> \<le> d + 2 * eps"
  using cut_error [of "score p" e d l] eps_nonneg by (auto simp: adjust_if_def)

lemma clamp_error: "\<bar>x - y\<bar> \<le> d \<Longrightarrow> \<bar>clampScore x - clampScore y\<bar> \<le> d"
  by (auto simp: clampScore_def abs_le_iff)

lemma clamp_range: "0 \<le> clampScore x \<and> clampScore x \<le> 1"
  by (simp add: clampScore_def)

section \<open>What the scores mean\<close>

text \<open>The score in exact decimal arithmetic.\<close>

definition process_weight :: "string \<Rightarrow> size_t \<Rightarrow> rat" where
  "process_weight name n =
     clampScore (1 / 10
       + (if found_in ''browser'' (toLower name) then 35 / 100 else 0)
       + (if found_in ''electron'' (toLower name) then 30 / 100 else 0)
       + (if found_in ''vm'' (toLower name) \<or> found_in ''virtual'' (toLower name)
          then 25 / 100 else 0)
       + (if 64 < n then 15 / 100 else 0)
       + (if n < 16 then - (5 / 100) else 0))"

definition region_weight :: "string \<Rightarrow> size_t \<Rightarrow> rat" where
  "region_weight name n =
     clampScore (5 / 100
       + (if found_in ''tab'' (toLower name) then 40 / 100 else 0)
       + (if found_in ''cache'' (toLower name) then 30 / 100 else 0)
       + (if 32 < n then 10 / 100 else 0)
       + (if n < 8 then - (5 / 100) else 0))"

lemma score_clamped: "score (clamped p) = clampScore (score p)"
  by (simp add: clamped_def)

lemma initial_error: "\<bar>score \<lparr>score = double_of l, reason = r\<rparr> - l\<bar> \<le> eps"
  using double_error by simp

lemma predictProcess_error: "\<bar>score (predictProcess name n) - process_weight name n\<bar> \<le> 11 * eps"
proof -
  note chain = adjust_cut [OF adjust_bump [OF adjust_bump [OF adjust_bump [OF adjust_bump
    [OF initial_error]]]]]
  show ?thesis
    unfolding predictProcess_def process_weight_def Let_def score_clamped
    by (rule order_trans [OF clamp_error [OF chain]]) simp
qed

lemma predictRegion_error: "\<bar>score (predictRegion name n) - region_weight name n\<bar> \<le> 9 * eps"
proof -
  note chain = adjust_cut [OF adjust_bump [OF adjust_bump [OF adjust_bump [OF initial_error]]]]
  show ?thesis
    unfolding predictRegion_def region_weight_def Let_def score_clamped
    by (rule order_trans [OF clamp_error [OF chain]]) simp
qed

text \<open>
  C29: the scores lie between zero and one and are, up to the accumulated rounding of at most
  eleven half units of the last place, the clamped decimal sums of the weights of the
  features found.
\<close>

theorem predictor_scores:
  "0 \<le> score (predictProcess name n) \<and> score (predictProcess name n) \<le> 1 \<and>
   0 \<le> score (predictRegion rname m) \<and> score (predictRegion rname m) \<le> 1 \<and>
   \<bar>score (predictProcess name n) - process_weight name n\<bar> \<le> 11 / 2 ^ 53 \<and>
   \<bar>score (predictRegion rname m) - region_weight rname m\<bar> \<le> 9 / 2 ^ 53"
  using predictProcess_error [of name n] predictRegion_error [of rname m] clamp_range
  by (simp add: eps_def predictProcess_def predictRegion_def Let_def score_clamped)

text \<open>The weights lie on a grid of twentieths, far coarser than the rounding.\<close>

definition on_grid :: "rat \<Rightarrow> bool" where
  "on_grid w \<longleftrightarrow> (\<exists>k. w = of_int k / 20)"

lemma on_grid_add: "on_grid a \<Longrightarrow> on_grid b \<Longrightarrow> on_grid (a + b)"
  unfolding on_grid_def by (metis add_divide_distrib of_int_add)

lemma on_grid_literal: "20 * l = of_int k \<Longrightarrow> on_grid l"
  unfolding on_grid_def by (intro exI [of _ k]) (simp add: field_simps)

lemma on_grid_clamp: "on_grid x \<Longrightarrow> on_grid (clampScore x)"
  using on_grid_literal [of 0 0] on_grid_literal [of 1 20] by (simp add: clampScore_def)

lemma on_grid_if: "on_grid a \<Longrightarrow> on_grid b \<Longrightarrow> on_grid (if c then a else b)"
  by simp

lemmas grid_literals =
  on_grid_literal [of 0 0, simplified] on_grid_literal [of "1 / 10" 2, simplified]
  on_grid_literal [of "35 / 100" 7, simplified] on_grid_literal [of "30 / 100" 6, simplified]
  on_grid_literal [of "25 / 100" 5, simplified] on_grid_literal [of "15 / 100" 3, simplified]
  on_grid_literal [of "- (5 / 100)" "- 1", simplified] on_grid_literal [of "5 / 100" 1, simplified]
  on_grid_literal [of "40 / 100" 8, simplified] on_grid_literal [of "10 / 100" 2, simplified]

lemma on_grid_weights: "on_grid (process_weight name n)" "on_grid (region_weight name m)"
  unfolding process_weight_def region_weight_def
  by (intro on_grid_clamp on_grid_add on_grid_if; simp add: grid_literals)+

lemma grid_gap:
  assumes "on_grid a" and "on_grid b" and "a < b"
  shows "a + 1 / 20 \<le> b"
proof -
  from assms obtain j k where "a = of_int j / 20" "b = of_int k / 20" by (auto simp: on_grid_def)
  moreover from this assms(3) have "j + 1 \<le> k" by simp
  then have "of_int j + 1 \<le> (of_int k :: rat)" by (metis of_int_1 of_int_add of_int_le_iff)
  ultimately show ?thesis by (simp add: field_simps)
qed

lemma rounding_keeps_order:
  assumes "on_grid a" and "on_grid b" and "a < b" and "\<bar>x - a\<bar> \<le> 11 * eps" and "\<bar>y - b\<bar> \<le> 11 * eps"
  shows "x < y"
proof -
  have "22 * eps < 1 / 20" by (simp add: eps_def)
  with grid_gap [OF assms(1-3)] assms(4,5) show ?thesis by (auto simp: abs_le_iff)
qed

text \<open>
  C28: rounding never reverses a preference: of two processes, or two regions, the one whose
  features weigh more in decimal arithmetic gets the strictly larger double.
\<close>

theorem predictor_order:
  "\<not> (process_weight a n < process_weight b m \<and>
      score (predictProcess b m) \<le> score (predictProcess a n)) \<and>
   \<not> (region_weight c k < region_weight d l \<and>
      score (predictRegion d l) \<le> score (predictRegion c k))"
proof -
  have r: "\<bar>score (predictRegion name i) - region_weight name i\<bar> \<le> 11 * eps" for name i
    using predictRegion_error [of name i] eps_nonneg by linarith
  show ?thesis
    using rounding_keeps_order [OF on_grid_weights(1) on_grid_weights(1)
        _ predictProcess_error predictProcess_error]
      rounding_keeps_order [OF on_grid_weights(2) on_grid_weights(2) _ r r]
    by (meson leD)
qed

end
