(* ===== verification/Outcome.thy ===== *)
theory Outcome
  imports Prelude
begin

text \<open>
  Outcomes of kernel code. A routine that takes the global driver state either returns a
  value and the new state, or never returns (it waits for a mutex that nobody will release,
  or repeats a step that changes nothing for ever) and leaves the state that the other
  threads see, or spends the fuel of a loop whose bound the code does not give.
\<close>

datatype ('s, 'a) outcome = Ret 'a 's | Hang 's | Spent

definition retO :: "'a \<Rightarrow> 's \<Rightarrow> ('s, 'a) outcome" where
  [outcome_simps]: "retO a s = Ret a s"

definition getO :: "('s \<Rightarrow> 'a) \<Rightarrow> 's \<Rightarrow> ('s, 'a) outcome" where
  [outcome_simps]: "getO f s = Ret (f s) s"

definition modO :: "('s \<Rightarrow> 's) \<Rightarrow> 's \<Rightarrow> ('s, unit) outcome" where
  [outcome_simps]: "modO f s = Ret () (f s)"

definition bindO ::
  "('s \<Rightarrow> ('s, 'a) outcome) \<Rightarrow> ('a \<Rightarrow> 's \<Rightarrow> ('s, 'b) outcome) \<Rightarrow> 's \<Rightarrow> ('s, 'b) outcome" where
  "bindO m f s = (case m s of Ret a s' \<Rightarrow> f a s' | Hang s' \<Rightarrow> Hang s' | Spent \<Rightarrow> Spent)"

definition seqO ::
  "('s \<Rightarrow> ('s, 'a) outcome) \<Rightarrow> ('s \<Rightarrow> ('s, 'b) outcome) \<Rightarrow> 's \<Rightarrow> ('s, 'b) outcome" where
  "seqO m n = bindO m (\<lambda>_. n)"

lemma bindO_Ret [outcome_simps]: "m s = Ret a s' \<Longrightarrow> bindO m f s = f a s'"
  by (simp add: bindO_def)

lemma bindO_Hang [outcome_simps]: "m s = Hang s' \<Longrightarrow> bindO m f s = Hang s'"
  by (simp add: bindO_def)

lemma seqO_Ret [outcome_simps]: "m s = Ret a s' \<Longrightarrow> seqO m n s = n s'"
  by (simp add: seqO_def bindO_def)

lemma seqO_Hang [outcome_simps]: "m s = Hang s' \<Longrightarrow> seqO m n s = Hang s'"
  by (simp add: seqO_def bindO_def)

text \<open>Run a routine for every element of a list, for its effect.\<close>

fun forO :: "('a \<Rightarrow> 's \<Rightarrow> ('s, 'b) outcome) \<Rightarrow> 'a list \<Rightarrow> 's \<Rightarrow> ('s, unit) outcome" where
  "forO f [] = retO ()"
| "forO f (x # xs) = seqO (f x) (forO f xs)"

lemma seqO_assoc: "seqO (seqO m n) r = seqO m (seqO n r)"
  by (rule ext) (simp add: seqO_def bindO_def split: outcome.splits)

lemma seqO_retO_unit [simp]: "seqO (retO a) m = m"
  by (rule ext) (simp add: seqO_def bindO_def retO_def)

lemma seqO_unit_right [simp]: "seqO m (retO ()) = m"
  by (rule ext) (simp add: seqO_def bindO_def retO_def split: outcome.splits)

lemma forO_append: "forO f (xs @ ys) = seqO (forO f xs) (forO f ys)"
  by (induction xs) (simp_all add: seqO_assoc)

section \<open>State predicates that a routine preserves\<close>

text \<open>\<open>final_state\<close> is the state other threads see when the routine has returned or is
  stuck.\<close>

fun final_state :: "('s, 'a) outcome \<Rightarrow> 's option" where
  "final_state (Ret a s) = Some s"
| "final_state (Hang s) = Some s"
| "final_state Spent = None"

definition preserves :: "('s \<Rightarrow> bool) \<Rightarrow> ('s \<Rightarrow> ('s, 'a) outcome) \<Rightarrow> bool" where
  "preserves P m \<longleftrightarrow> (\<forall>s s'. P s \<longrightarrow> final_state (m s) = Some s' \<longrightarrow> P s')"

named_theorems preserves_intros \<open>rules that split a preservation goal along the code\<close>

lemma preservesI:
  "(\<And>s s'. P s \<Longrightarrow> final_state (m s) = Some s' \<Longrightarrow> P s') \<Longrightarrow> preserves P m"
  by (simp add: preserves_def)

lemma preservesD: "preserves P m \<Longrightarrow> P s \<Longrightarrow> final_state (m s) = Some s' \<Longrightarrow> P s'"
  by (simp add: preserves_def)

lemma preserves_retO [preserves_intros]: "preserves P (retO a)"
  by (simp add: preserves_def retO_def)

lemma preserves_getO [preserves_intros]: "preserves P (getO f)"
  by (simp add: preserves_def getO_def)

lemma preserves_bindO [preserves_intros]:
  "preserves P m \<Longrightarrow> (\<And>a. preserves P (f a)) \<Longrightarrow> preserves P (bindO m f)"
proof (rule preservesI)
  fix s s' assume m: "preserves P m" and f: "\<And>a. preserves P (f a)"
    and s: "P s" and fin: "final_state (bindO m f s) = Some s'"
  show "P s'"
  proof (cases "m s")
    case (Ret a t)
    with preservesD [OF m s, of t] have t: "P t" by simp
    show ?thesis using preservesD [OF f t, of a s'] fin Ret by (simp add: bindO_def)
  next
    case (Hang t)
    with preservesD [OF m s, of t] fin show ?thesis by (simp add: bindO_def)
  qed (use fin in \<open>simp add: bindO_def\<close>)
qed

lemma preserves_seqO [preserves_intros]:
  "preserves P m \<Longrightarrow> preserves P n \<Longrightarrow> preserves P (seqO m n)"
  by (simp add: seqO_def preserves_bindO)

lemma preserves_if [preserves_intros]:
  "(b \<Longrightarrow> preserves P m) \<Longrightarrow> (\<not> b \<Longrightarrow> preserves P n) \<Longrightarrow> preserves P (if b then m else n)"
  by simp

lemma preserves_forO [preserves_intros]:
  "(\<And>x. x \<in> set xs \<Longrightarrow> preserves P (f x)) \<Longrightarrow> preserves P (forO f xs)"
  by (induction xs) (auto intro: preserves_intros)

lemma preserves_option [preserves_intros]:
  "(x = None \<Longrightarrow> preserves P m) \<Longrightarrow> (\<And>a. x = Some a \<Longrightarrow> preserves P (f a)) \<Longrightarrow>
     preserves P (case x of None \<Rightarrow> m | Some a \<Rightarrow> f a)"
  by (cases x) auto

lemma preserves_prod [preserves_intros]:
  "(\<And>a b. x = (a, b) \<Longrightarrow> preserves P (f a b)) \<Longrightarrow>
     preserves P (case x of (a, b) \<Rightarrow> f a b)"
  by (cases x) auto

end
