(* ===== verification/Scheduler.thy ===== *)
theory Scheduler
  imports Engine Predictor Outcome
begin

text \<open>
  The scan scheduler (user/process_state.h, user/scan_scheduler.h, user/scan_scheduler.cpp):
  the process list behind a mutex, the worker thread that wakes up and scans the best
  candidate, and the calls of the owner. The mutex names the thread that owns it. A thread
  that locks a mutex another thread owns waits; for the owner itself to lock a
  \<open>std::mutex\<close> again is undefined behaviour (the C++ standard requires that the calling
  thread does not own the mutex; an implementation may throw or deadlock). Undefined behaviour,
  there and in the engine, is the result None.
\<close>

section \<open>State\<close>

record ProcessState =
  pid :: u64
  process_name :: string
  process_optIn :: bool
  regions :: "MemoryRegion list"

text \<open>The threads: the owner of the scheduler, which calls its public functions, and the
  worker.\<close>

datatype thread = Owner | Worker

text \<open>The worker thread: not started, waiting on the condition variable, or ended and not
  joined.\<close>

datatype worker = NoWorker | Sleeping | Finished

record ScanScheduler =
  engine :: Stats
  mutex :: "thread option"
  processes :: "ProcessState list"
  running :: bool
  scanRequested :: bool
  worker_thread :: worker
  scoreDetail :: string

definition new_scheduler :: "Stats \<Rightarrow> ScanScheduler" where
  "new_scheduler st = \<lparr>engine = st, mutex = None, processes = [], running = False,
     scanRequested = False, worker_thread = NoWorker, scoreDetail = []\<rparr>"

definition lock :: "thread \<Rightarrow> ScanScheduler \<Rightarrow> (ScanScheduler, unit option) outcome" where
  "lock t s =
     (case mutex s of
        None \<Rightarrow> Ret (Some ()) (s\<lparr>mutex := Some t\<rparr>)
      | Some t' \<Rightarrow> if t' = t then Ret None s else Hang s)"

definition unlock :: "ScanScheduler \<Rightarrow> (ScanScheduler, unit) outcome" where
  "unlock = modO (\<lambda>s. s\<lparr>mutex := None\<rparr>)"

text \<open>Go on unless the behaviour is undefined.\<close>

definition andThen ::
  "('s \<Rightarrow> ('s, unit option) outcome) \<Rightarrow> ('s \<Rightarrow> ('s, 'b option) outcome) \<Rightarrow> 's \<Rightarrow> ('s, 'b option) outcome" where
  "andThen m n = bindO m (\<lambda>r. case r of None \<Rightarrow> retO None | Some _ \<Rightarrow> n)"

section \<open>The next candidate\<close>

record candidate =
  bestScore :: rat
  bestProcessIndex :: size_t
  bestRegionIndex :: size_t
  bestDetail :: string

definition no_candidate :: candidate where
  "no_candidate = \<lparr>bestScore = - 1, bestProcessIndex = SIZE_MAX, bestRegionIndex = SIZE_MAX,
                   bestDetail = []\<rparr>"

definition double_half :: "rat \<Rightarrow> rat" where
  "double_half x = double_of (x / 2)"

definition region_score :: "MLPrediction \<Rightarrow> MemoryRegion \<Rightarrow> rat" where
  "region_score processPrediction region =
     double_half (double_add (score processPrediction)
       (score (predictRegion (rname region) (of_nat (length (pages region))))))"

definition consider_region ::
  "MLPrediction \<Rightarrow> nat \<Rightarrow> nat \<times> MemoryRegion \<Rightarrow> candidate \<Rightarrow> candidate" where
  "consider_region processPrediction processIndex = (\<lambda>(regionIndex, region) best.
     if bestScore best < region_score processPrediction region
     then \<lparr>bestScore = region_score processPrediction region,
           bestProcessIndex = of_nat processIndex, bestRegionIndex = of_nat regionIndex,
           bestDetail = reason processPrediction
             @ reason (predictRegion (rname region) (of_nat (length (pages region))))\<rparr>
     else best)"

text \<open>The prediction for a process is made from its name and the number of its regions.\<close>

definition process_prediction :: "ProcessState \<Rightarrow> MLPrediction" where
  "process_prediction p = predictProcess (process_name p) (of_nat (length (regions p)))"

definition consider_process :: "nat \<times> ProcessState \<Rightarrow> candidate \<Rightarrow> candidate" where
  "consider_process = (\<lambda>(processIndex, process) best.
     if \<not> process_optIn process then best
     else fold (consider_region (process_prediction process) processIndex)
            (enumerate 0 (regions process)) best)"

definition best_candidate :: "ProcessState list \<Rightarrow> candidate" where
  "best_candidate ps = fold consider_process (enumerate 0 ps) no_candidate"

definition put_region :: "nat \<Rightarrow> nat \<Rightarrow> MemoryRegion \<Rightarrow> ProcessState list \<Rightarrow> ProcessState list" where
  "put_region i j region ps =
     ps[i := (ps ! i)\<lparr>regions := (regions (ps ! i))[j := region]\<rparr>]"

definition scanNextCandidate :: "thread \<Rightarrow> ScanScheduler \<Rightarrow> (ScanScheduler, unit option) outcome" where
  "scanNextCandidate t =
     andThen (lock t) (bindO (getO (\<lambda>s. best_candidate (processes s))) (\<lambda>best.
       seqO unlock
         (if bestProcessIndex best = SIZE_MAX \<or> bestRegionIndex best = SIZE_MAX
          then retO (Some ())
          else
            let i = unat (bestProcessIndex best); j = unat (bestRegionIndex best) in
            andThen (lock t) (bindO (getO (\<lambda>s. regions (processes s ! i) ! j)) (\<lambda>targetRegion.
              seqO unlock
                (bindO (getO (\<lambda>s. scanRegion (engine s) targetRegion)) (\<lambda>scanned.
                   case scanned of
                     None \<Rightarrow> retO None
                   | Some (st, region) \<Rightarrow>
                       seqO (modO (\<lambda>s. s\<lparr>engine := st\<rparr>))
                         (andThen (lock t)
                           (seqO (modO (\<lambda>s. s\<lparr>processes := put_region i j region (processes s)\<rparr>))
                             (seqO unlock
                               (seqO (modO (\<lambda>s. s\<lparr>scoreDetail := bestDetail best\<rparr>))
                                 (retO (Some ())))))))))))))"

section \<open>The worker\<close>

text \<open>One round of \<open>workerLoop\<close>, from the return of \<open>wait_for\<close>, which locks the mutex
  again, to the next wait or the end of the loop: Some True if the loop goes on. The wait
  ends by a notification or a timeout; in both cases the same code follows.\<close>

definition worker_round :: "ScanScheduler \<Rightarrow> (ScanScheduler, bool option) outcome" where
  "worker_round =
     andThen (lock Worker) (bindO (getO running) (\<lambda>r.
       if \<not> r then seqO unlock (retO (Some False))
       else seqO (modO (\<lambda>s. s\<lparr>scanRequested := False\<rparr>))
         (bindO (getO processes) (\<lambda>ps.
            if ps = [] then seqO unlock (bindO (getO running) (\<lambda>r. retO (Some r)))
            else andThen (scanNextCandidate Worker)
              (seqO unlock (bindO (getO running) (\<lambda>r. retO (Some r))))))))"

text \<open>The worker thread takes a round, or goes on waiting for the mutex.\<close>

definition worker_step :: "ScanScheduler \<Rightarrow> (ScanScheduler, unit option) outcome" where
  "worker_step = bindO worker_round (\<lambda>r.
     case r of
       None \<Rightarrow> retO None
     | Some goes_on \<Rightarrow>
         seqO (modO (\<lambda>s. if goes_on then s else s\<lparr>worker_thread := Finished\<rparr>)) (retO (Some ())))"

section \<open>Calls of the owner\<close>

definition addProcess :: "ProcessState \<Rightarrow> ScanScheduler \<Rightarrow> (ScanScheduler, unit option) outcome" where
  "addProcess p = andThen (lock Owner)
     (seqO (modO (\<lambda>s. s\<lparr>processes := processes s @ [p]\<rparr>)) (seqO unlock (retO (Some ()))))"

definition snapshotProcesses :: "ScanScheduler \<Rightarrow> (ScanScheduler, ProcessState list option) outcome" where
  "snapshotProcesses =
     andThen (lock Owner) (bindO (getO processes) (\<lambda>ps. seqO unlock (retO (Some ps))))"

text \<open>The new thread tests \<open>running\<close>, which is true, and goes to wait. Assigning to a thread
  object that still has a thread terminates the program, the result None.\<close>

definition start :: "ScanScheduler \<Rightarrow> (ScanScheduler, unit option) outcome" where
  "start s =
     (let s1 = s\<lparr>running := True\<rparr> in
      if running s then Ret (Some ()) s1
      else if worker_thread s \<noteq> NoWorker then Ret None s1
      else Ret (Some ()) (s1\<lparr>worker_thread := Sleeping\<rparr>))"

definition requestScan :: "ScanScheduler \<Rightarrow> (ScanScheduler, unit) outcome" where
  "requestScan = modO (\<lambda>s. s\<lparr>scanRequested := True\<rparr>)"

text \<open>\<open>join\<close>: a worker that sleeps is woken and takes its last round; the owner waits for
  ever for a worker that goes on.\<close>

definition join_worker :: "ScanScheduler \<Rightarrow> (ScanScheduler, unit option) outcome" where
  "join_worker s =
     (case worker_thread s of
        NoWorker \<Rightarrow> Ret (Some ()) s
      | Finished \<Rightarrow> Ret (Some ()) (s\<lparr>worker_thread := NoWorker\<rparr>)
      | Sleeping \<Rightarrow>
          (case worker_step s of
             Ret None s' \<Rightarrow> Ret None s'
           | Ret (Some _) s' \<Rightarrow>
               (if worker_thread s' = Finished
                then Ret (Some ()) (s'\<lparr>worker_thread := NoWorker\<rparr>) else Hang s')
           | Hang s' \<Rightarrow> Hang s'
           | Spent \<Rightarrow> Spent))"

definition stop :: "ScanScheduler \<Rightarrow> (ScanScheduler, unit option) outcome" where
  "stop = bindO (getO running) (\<lambda>r.
     seqO (modO (\<lambda>s. s\<lparr>running := False\<rparr>))
       (if \<not> r then retO (Some ())
        else seqO (modO (\<lambda>s. s\<lparr>scanRequested := True\<rparr>)) join_worker))"

section \<open>The candidate is the first best one\<close>

type_synonym rated = "rat \<times> nat \<times> nat"

definition rated_regions :: "ProcessState list \<Rightarrow> rated list" where
  "rated_regions ps = concat (map (\<lambda>(i, p).
     if process_optIn p
     then map (\<lambda>(j, r). (region_score (process_prediction p) r, i, j)) (enumerate 0 (regions p))
     else []) (enumerate 0 ps))"

text \<open>The best rated region, ignoring the text that explains it.\<close>

definition better_of :: "rated \<Rightarrow> rat \<times> size_t \<times> size_t \<Rightarrow> rat \<times> size_t \<times> size_t" where
  "better_of = (\<lambda>(x, i, j) best. if fst best < x then (x, of_nat i, of_nat j) else best)"

definition verdict :: "candidate \<Rightarrow> rat \<times> size_t \<times> size_t" where
  "verdict c = (bestScore c, bestProcessIndex c, bestRegionIndex c)"

lemma consider_process_pair:
  "consider_process (i, p) best =
     (if \<not> process_optIn p then best
      else fold (consider_region (process_prediction p) i) (enumerate 0 (regions p)) best)"
  by (simp add: consider_process_def)

lemma better_of_triple:
  "better_of (x, i, j) best = (if fst best < x then (x, of_nat i, of_nat j) else best)"
  by (simp add: better_of_def)

lemma verdict_regions:
  "verdict (fold (consider_region pp i) rs best) =
     fold better_of (map (\<lambda>(j, r). (region_score pp r, i, j)) rs) (verdict best)"
  by (induction rs arbitrary: best)
    (auto simp: consider_region_def better_of_def verdict_def split: prod.splits)

lemma verdict_processes:
  "verdict (fold consider_process ips best) =
     fold better_of (concat (map (\<lambda>(i, p).
       if process_optIn p
       then map (\<lambda>(j, r). (region_score (process_prediction p) r, i, j)) (enumerate 0 (regions p))
       else []) ips)) (verdict best)"
proof (induction ips arbitrary: best)
  case (Cons ip ips)
  obtain i p where ip: "ip = (i, p)" by fastforce
  show ?case
    by (simp add: Cons.IH ip consider_process_pair verdict_regions)
qed simp

lemma verdict_best_candidate:
  "verdict (best_candidate ps) = fold better_of (rated_regions ps) (- 1, SIZE_MAX, SIZE_MAX)"
  by (simp add: best_candidate_def verdict_processes rated_regions_def)
    (simp add: verdict_def no_candidate_def)

lemma fold_better_keep:
  "\<forall>c \<in> set cs. fst c \<le> fst best \<Longrightarrow> fold better_of cs best = best"
  by (induction cs) (auto simp: better_of_def)

lemma fold_better_first_max:
  assumes "cs = ys @ c # zs" and "\<forall>y \<in> set ys. fst y < fst c" and "\<forall>z \<in> set zs. fst z \<le> fst c"
    and "fst best < fst c"
  shows "fold better_of cs best = (fst c, of_nat (fst (snd c)), of_nat (snd (snd c)))"
proof -
  have "fst (fold better_of ys best) < fst c"
    using assms(2,4) by (induction ys arbitrary: best) (auto simp: better_of_def)
  then show ?thesis
    using assms(1,3) by (cases c) (simp add: fold_better_keep better_of_triple)
qed

lemma first_max_exists:
  fixes cs :: "rated list"
  assumes "cs \<noteq> []"
  shows "\<exists>ys c zs. cs = ys @ c # zs \<and> (\<forall>y \<in> set ys. fst y < fst c) \<and> (\<forall>z \<in> set zs. fst z \<le> fst c)"
  using assms
proof (induction cs rule: rev_induct)
  case (snoc d cs)
  show ?case
  proof (cases "cs = []")
    case True
    then show ?thesis by (intro exI [of _ "[]"] exI [of _ d]) simp
  next
    case False
    with snoc.IH obtain ys c zs where IH: "cs = ys @ c # zs" "\<forall>y \<in> set ys. fst y < fst c"
      "\<forall>z \<in> set zs. fst z \<le> fst c" by blast
    show ?thesis
    proof (cases "fst c < fst d")
      case True
      with IH show ?thesis
        by (intro exI [of _ "ys @ c # zs"] exI [of _ d] exI [of _ "[]"]) fastforce
    next
      case False
      with IH show ?thesis
        by (intro exI [of _ ys] exI [of _ c] exI [of _ "zs @ [d]"]) auto
    qed
  qed
qed simp

lemma double_of_nonneg: "0 \<le> x \<Longrightarrow> 0 \<le> double_of x"
proof -
  assume x: "0 \<le> x"
  have u: "0 < spacing 1022 1 \<bar>x\<bar>" using spacing_bounds [of 1] by simp
  have "0 \<le> round_half_even q" if "0 \<le> q" for q
    using that by (auto simp: round_half_even_def Let_def)
  then have "0 \<le> round_half_even (\<bar>x\<bar> / spacing 1022 1 \<bar>x\<bar>)"
    using u by (metis abs_ge_zero divide_nonneg_pos)
  with x u show ?thesis by (simp add: double_of_def Let_def)
qed

lemma region_score_nonneg: "0 \<le> region_score (process_prediction p) r"
  by (auto simp: region_score_def double_half_def double_add_def process_prediction_def
      predictProcess_def predictRegion_def Let_def score_clamped clamp_range
      intro!: double_of_nonneg add_nonneg_nonneg divide_nonneg_pos)

lemma rated_regions_member:
  "(x, i, j) \<in> set (rated_regions ps) \<longleftrightarrow>
     i < length ps \<and> process_optIn (ps ! i) \<and> j < length (regions (ps ! i)) \<and>
     x = region_score (process_prediction (ps ! i)) (regions (ps ! i) ! j)"
  by (auto simp: rated_regions_def in_set_enumerate_eq image_iff Bex_def split: if_splits)

definition small_lists :: "ProcessState list \<Rightarrow> bool" where
  "small_lists ps \<longleftrightarrow> length ps < 2 ^ 64 - 1 \<and>
     list_all (\<lambda>p. length (regions p) < 2 ^ 64 - 1) ps"

text \<open>The index pair of the first best rated region.\<close>

definition first_best :: "rated list \<Rightarrow> nat \<times> nat \<Rightarrow> bool" where
  "first_best cs ij \<longleftrightarrow> (\<exists>ys x zs. cs = ys @ (x, ij) # zs \<and>
     list_all (\<lambda>y. fst y < x) ys \<and> list_all (\<lambda>z. fst z \<le> x) zs)"

lemma best_candidate_none:
  "rated_regions ps = [] \<Longrightarrow> bestProcessIndex (best_candidate ps) = SIZE_MAX"
  using verdict_best_candidate [of ps] by (simp add: verdict_def)

lemma best_candidate_some:
  assumes "first_best (rated_regions ps) (i, j)"
  shows "bestProcessIndex (best_candidate ps) = of_nat i"
    and "bestRegionIndex (best_candidate ps) = of_nat j"
proof -
  from assms obtain ys x zs where c: "rated_regions ps = ys @ (x, i, j) # zs"
    "\<forall>y \<in> set ys. fst y < fst (x, i, j)" "\<forall>z \<in> set zs. fst z \<le> fst (x, i, j)"
    by (auto simp: first_best_def list_all_iff)
  have "(x, i, j) \<in> set (rated_regions ps)" using c(1) by simp
  then have "0 \<le> x" using region_score_nonneg by (auto simp: rated_regions_member)
  then have "verdict (best_candidate ps) = (x, of_nat i, of_nat j)"
    using fold_better_first_max [OF c, of "(- 1, SIZE_MAX, SIZE_MAX)"]
    by (simp add: verdict_best_candidate)
  then show "bestProcessIndex (best_candidate ps) = of_nat i"
    "bestRegionIndex (best_candidate ps) = of_nat j"
    by (simp_all add: verdict_def)
qed

lemma first_best_exists:
  assumes "rated_regions ps \<noteq> []"
  shows "\<exists>i j. first_best (rated_regions ps) (i, j)"
proof -
  from first_max_exists [OF assms] obtain ys c zs where c: "rated_regions ps = ys @ c # zs"
    "\<forall>y \<in> set ys. fst y < fst c" "\<forall>z \<in> set zs. fst z \<le> fst c" by blast
  then have "first_best (rated_regions ps) (fst (snd c), snd (snd c))"
    unfolding first_best_def
    by (intro exI [of _ ys], intro exI [of _ "fst c"], intro exI [of _ zs]) (simp add: list_all_iff)
  then show ?thesis by blast
qed

lemma first_best_valid:
  assumes "first_best (rated_regions ps) (i, j)"
  shows "i < length ps" and "process_optIn (ps ! i)" and "j < length (regions (ps ! i))"
proof -
  from assms obtain ys x zs where "rated_regions ps = ys @ (x, i, j) # zs"
    by (auto simp: first_best_def)
  then have "(x, i, j) \<in> set (rated_regions ps)" by simp
  then show "i < length ps" "process_optIn (ps ! i)" "j < length (regions (ps ! i))"
    by (simp_all add: rated_regions_member)
qed

lemma seqO_modO: "seqO (modO f) m s = m (f s)"
  by (simp add: seqO_def bindO_def modO_def)

lemma andThen_Ret [outcome_simps]:
  "m s = Ret (Some x) s' \<Longrightarrow> andThen m n s = n s'"
  "m s = Ret None s' \<Longrightarrow> andThen m n s = Ret None s'"
  by (simp_all add: andThen_def bindO_def retO_def)

lemma run_scheduler [outcome_simps]:
  "mutex s = None \<Longrightarrow> andThen (lock t) m s = m (s\<lparr>mutex := Some t\<rparr>)"
  "mutex s = Some t \<Longrightarrow> andThen (lock t) m s = Ret None s"
  "mutex s = Some t' \<Longrightarrow> t' \<noteq> t \<Longrightarrow> andThen (lock t) m s = Hang s"
  "seqO unlock m s = m (s\<lparr>mutex := None\<rparr>)"
  "bindO (getO f) g s = g (f s) s"
  by (simp_all add: lock_def unlock_def andThen_def seqO_def bindO_def modO_def getO_def retO_def)

lemma mutex_unlocked [simp]: "mutex s = None \<Longrightarrow> s\<lparr>mutex := None\<rparr> = s"
  by (cases s) simp

lemma scanNextCandidate_none:
  assumes "mutex s = None" and "rated_regions (processes s) = []"
  shows "scanNextCandidate t s = Ret (Some ()) s"
  using assms best_candidate_none
  by (simp add: scanNextCandidate_def outcome_simps retO_def)

lemma scanNextCandidate_some:
  assumes "mutex s = None" and "small_lists (processes s)"
    and best: "first_best (rated_regions (processes s)) (i, j)"
  shows "scanNextCandidate t s =
    (case scanRegion (engine s) (regions (processes s ! i) ! j) of
       None \<Rightarrow> Ret None s
     | Some (st, region) \<Rightarrow>
         Ret (Some ()) (s\<lparr>engine := st, processes := put_region i j region (processes s),
                          scoreDetail := bestDetail (best_candidate (processes s))\<rparr>))"
proof -
  have "length (regions (processes s ! i)) < 2 ^ 64 - 1" "length (processes s) < 2 ^ 64 - 1"
    using assms(2) nth_mem [OF first_best_valid(1) [OF best]]
    by (auto simp: small_lists_def list_all_iff)
  then have "i < 2 ^ 64 - 1" "j < 2 ^ 64 - 1"
    using first_best_valid(1,3) [OF best] by (auto intro: order_less_trans)
  then have ij: "of_nat i \<noteq> SIZE_MAX" "of_nat j \<noteq> SIZE_MAX"
    "unat (of_nat i :: size_t) = i" "unat (of_nat j :: size_t) = j"
    using of_nat_neq_SIZE_MAX by (auto simp: unat_of_nat_small)
  show ?thesis
    using assms(1) best_candidate_some [OF best] ij
    by (cases s) (simp add: scanNextCandidate_def outcome_simps seqO_modO retO_def Let_def
        split: option.splits prod.splits)
qed

text \<open>
  C7: called by a thread that finds the mutex free, \<open>scanNextCandidate\<close> returns with it free. With no region in
  an opted-in process it does nothing. Otherwise it scans exactly one region, the first of
  those with the highest score, stores the scanned region in its place, updates the engine's
  statistics and the explanation, and touches nothing else; it is undefined exactly when the
  scan of that region is.
\<close>

theorem scanNextCandidate_functional:
  assumes "mutex s = None" and "small_lists (processes s)"
  shows "(rated_regions (processes s) = [] \<and> scanNextCandidate t s = Ret (Some ()) s) \<or>
    (\<exists>i j. first_best (rated_regions (processes s)) (i, j) \<and>
       i < length (processes s) \<and> process_optIn (processes s ! i) \<and>
       j < length (regions (processes s ! i)) \<and>
       scanNextCandidate t s =
         (case scanRegion (engine s) (regions (processes s ! i) ! j) of
            None \<Rightarrow> Ret None s
          | Some (st, region) \<Rightarrow>
              Ret (Some ()) (s\<lparr>engine := st, processes := put_region i j region (processes s),
                               scoreDetail := bestDetail (best_candidate (processes s))\<rparr>)))"
proof (cases "rated_regions (processes s) = []")
  case True
  with scanNextCandidate_none [OF assms(1)] show ?thesis by blast
next
  case False
  from first_best_exists [OF this] obtain i j
    where b: "first_best (rated_regions (processes s)) (i, j)" by blast
  from scanNextCandidate_some [OF assms b] first_best_valid [OF b] b show ?thesis by blast
qed

section \<open>The scheduler keeps choosing the same region\<close>

text \<open>What the choice depends on.\<close>

definition shape :: "ProcessState list \<Rightarrow> (string \<times> bool \<times> (string \<times> nat) list) list" where
  "shape ps = map (\<lambda>p. (process_name p, process_optIn p,
                        map (\<lambda>r. (rname r, length (pages r))) (regions p))) ps"

lemma region_score_cong:
  "rname r = rname r' \<Longrightarrow> length (pages r) = length (pages r') \<Longrightarrow>
     region_score pp r = region_score pp r'"
  by (simp add: region_score_def)

lemma rated_one_cong:
  assumes "map (\<lambda>r. (rname r, length (pages r))) rs = map (\<lambda>r. (rname r, length (pages r))) rs'"
  shows "map (\<lambda>(j, r). (region_score pp r, i, j)) (enumerate n rs) =
         map (\<lambda>(j, r). (region_score pp r, i, j)) (enumerate n rs')"
  using assms
proof (induction rs arbitrary: rs' n)
  case (Cons r rs)
  then obtain q qs where q: "rs' = q # qs" "rname r = rname q" "length (pages r) = length (pages q)"
    "map (\<lambda>r. (rname r, length (pages r))) rs = map (\<lambda>r. (rname r, length (pages r))) qs"
    by (cases rs') auto
  have "region_score pp r = region_score pp q" using q(2,3) by (rule region_score_cong)
  with Cons.IH [OF q(4)] q(1) show ?case by simp
qed simp

lemma rated_regions_shape:
  assumes "shape ps = shape qs"
  shows "rated_regions ps = rated_regions qs"
proof -
  let ?f = "\<lambda>(i, p). if process_optIn p
     then map (\<lambda>(j, r). (region_score (process_prediction p) r, i, j)) (enumerate 0 (regions p))
     else []"
  have "map ?f (enumerate n ps) = map ?f (enumerate n qs)" for n
    using assms
  proof (induction ps arbitrary: qs n)
    case (Cons p ps)
    then obtain q qs' where q: "qs = q # qs'" "shape ps = shape qs'"
      "process_name p = process_name q" "process_optIn p = process_optIn q"
      and rs: "map (\<lambda>r. (rname r, length (pages r))) (regions p) =
               map (\<lambda>r. (rname r, length (pages r))) (regions q)"
      by (cases qs) (auto simp: shape_def)
    have "length (regions p) = length (regions q)" using rs by (rule map_eq_imp_length_eq)
    then have "process_prediction p = process_prediction q"
      using q(3) by (simp add: process_prediction_def)
    with q Cons.IH [OF q(2)] rated_one_cong [OF rs, of "process_prediction q" n 0]
    show ?case by simp
  qed (simp add: shape_def)
  then show ?thesis by (simp add: rated_regions_def)
qed

lemma shape_put_region:
  assumes "i < length ps" and "j < length (regions (ps ! i))"
    and "rname r = rname (regions (ps ! i) ! j)"
    and "length (pages r) = length (pages (regions (ps ! i) ! j))"
  shows "shape (put_region i j r ps) = shape ps"
proof (rule nth_equalityI)
  show "length (shape (put_region i j r ps)) = length (shape ps)"
    by (simp add: shape_def put_region_def)
  fix l assume "l < length (shape (put_region i j r ps))"
  then have l: "l < length ps" by (simp add: shape_def put_region_def)
  have "map (\<lambda>r. (rname r, length (pages r))) ((regions (ps ! i))[j := r]) =
        map (\<lambda>r. (rname r, length (pages r))) (regions (ps ! i))"
    using assms(2-4) by (simp add: map_update list_update_same_conv)
  then show "shape (put_region i j r ps) ! l = shape ps ! l"
    using l assms(1) by (cases "l = i") (simp_all add: shape_def put_region_def)
qed

lemma put_region_idem:
  assumes "i < length ps" and "j < length (regions (ps ! i))"
  shows "regions (put_region i j r ps ! i) ! j = r"
    and "put_region i j r (put_region i j r ps) = put_region i j r ps"
  using assms by (simp_all add: put_region_def)

text \<open>Regions whose pages are well formed.\<close>

definition wf_processes :: "ProcessState list \<Rightarrow> bool" where
  "wf_processes ps \<longleftrightarrow> list_all (\<lambda>p. list_all (\<lambda>r. wf_pages (pages r)) (regions p)) ps"

lemma wf_processesD:
  "wf_processes ps \<Longrightarrow> i < length ps \<Longrightarrow> j < length (regions (ps ! i)) \<Longrightarrow>
     wf_pages (pages (regions (ps ! i) ! j))"
  by (simp add: wf_processes_def list_all_length)

text \<open>A region that has been scanned is left as it is by the next scan.\<close>

lemma scanRegion_again:
  assumes "scanRegion st region = Some (st', region')" and "wf_pages (pages region)"
  shows "rname region' = rname region" and "length (pages region') = length (pages region)"
    and "\<exists>st''. scanRegion st0 region' = Some (st'', region')"
proof -
  show "rname region' = rname region" "length (pages region') = length (pages region)"
    using assms scanRegion_correct_lemma [OF assms(2), of st] by (auto split: if_splits)
  show "\<exists>st''. scanRegion st0 region' = Some (st'', region')"
  proof (cases "optIn region")
    case True
    note d = scanRegion_SomeD [OF assms True]
    show ?thesis
      using scanRegion_correct_lemma [of region' st0] d True wf_dedupe_pages [OF assms(2)]
        fingerprintable_dedupe
      by (simp add: dedupe_pages_idem)
  next
    case False
    then show ?thesis using assms(1) by (auto simp: scanRegion_def)
  qed
qed

lemma small_lists_put_region:
  "i < length ps \<Longrightarrow> small_lists ps \<Longrightarrow> small_lists (put_region i j r ps)"
  by (auto simp: small_lists_def put_region_def list_all_length nth_list_update)

text \<open>
  C23: the scheduler never gets past its first choice. Once \<open>scanNextCandidate\<close> has scanned a
  region, every later call, whatever the statistics are by then and as long as nobody else
  has changed the processes, chooses the same region again (the scores depend only on names
  and sizes, which scanning does not change), scans the region as the first scan left it, and
  leaves it and all other processes exactly as they are; only the statistics move.
\<close>

theorem scanNextCandidate_repeats:
  assumes "mutex s = None" and "small_lists (processes s)" and "wf_processes (processes s)"
    and "rated_regions (processes s) \<noteq> []" and "scanNextCandidate t s = Ret (Some ()) s1"
    and "mutex s2 = None" and "processes s2 = processes s1"
  shows "\<exists>i j st. first_best (rated_regions (processes s)) (i, j) \<and>
    first_best (rated_regions (processes s2)) (i, j) \<and>
    scanRegion (engine s) (regions (processes s ! i) ! j) =
      Some (engine s1, regions (processes s2 ! i) ! j) \<and>
    scanRegion (engine s2) (regions (processes s2 ! i) ! j) =
      Some (st, regions (processes s2 ! i) ! j) \<and>
    scanNextCandidate t' s2 = Ret (Some ())
      (s2\<lparr>engine := st, scoreDetail := bestDetail (best_candidate (processes s2))\<rparr>)"
proof -
  from first_best_exists [OF assms(4)] obtain i j
    where b: "first_best (rated_regions (processes s)) (i, j)" by blast
  let ?ps = "processes s" and ?r = "regions (processes s ! i) ! j"
  note ij = first_best_valid [OF b]
  from scanNextCandidate_some [OF assms(1,2) b] assms(5) obtain region
    where sc: "scanRegion (engine s) ?r = Some (engine s1, region)"
      and s1: "processes s1 = put_region i j region ?ps"
    by (auto split: option.splits)
  note again = scanRegion_again [OF sc wf_processesD [OF assms(3) ij(1,3)]]
  have shape: "shape (processes s2) = shape ?ps"
    using shape_put_region [OF ij(1,3) again(1,2)] assms(7) s1 by simp
  have b2: "first_best (rated_regions (processes s2)) (i, j)"
    using b rated_regions_shape [OF shape] by simp
  have small: "small_lists (processes s2)"
    using small_lists_put_region [OF ij(1) assms(2)] assms(7) s1 by simp
  have reg: "regions (processes s2 ! i) ! j = region"
    using assms(7) s1 put_region_idem(1) [OF ij(1,3)] by simp
  from again(3) obtain st2 where st2: "scanRegion (engine s2) region = Some (st2, region)"
    by blast
  have keep: "put_region i j region (processes s2) = processes s2"
    using assms(7) s1 put_region_idem(2) [OF ij(1,3)] by simp
  have same: "s2\<lparr>engine := x, processes := processes s2, scoreDetail := d\<rparr> =
      s2\<lparr>engine := x, scoreDetail := d\<rparr>" for x d
    by (cases s2) simp
  have "scanNextCandidate t' s2 = Ret (Some ())
      (s2\<lparr>engine := st2, scoreDetail := bestDetail (best_candidate (processes s2))\<rparr>)"
    using scanNextCandidate_some [OF assms(6) small b2, of t'] st2 same by (simp add: reg keep)
  with b b2 sc st2 reg show ?thesis
    by - (rule exI [of _ i], rule exI [of _ j], rule exI [of _ st2], simp)
qed

text \<open>A scheduler with one opted-in process of one region, for the witnesses.\<close>

definition demo_scheduler :: ScanScheduler where
  "demo_scheduler = (new_scheduler initial_stats)
     \<lparr>processes := [\<lparr>pid = 1, process_name = ''app'', process_optIn = True,
                     regions = [demo_region]\<rparr>]\<rparr>"

lemma demo_scheduler_simps [simp]:
  "mutex demo_scheduler = None" "small_lists (processes demo_scheduler)"
  "processes demo_scheduler = [\<lparr>pid = 1, process_name = ''app'', process_optIn = True,
     regions = [demo_region]\<rparr>]" "engine demo_scheduler = initial_stats"
  by (simp_all add: demo_scheduler_def new_scheduler_def small_lists_def)

lemma small_lists_demo [simp]:
  "small_lists [\<lparr>pid = 1, process_name = ''app'', process_optIn = True, regions = [demo_region]\<rparr>]"
  by (simp add: small_lists_def)

lemma demo_first_best: "first_best (rated_regions (processes demo_scheduler)) (i, j) \<longleftrightarrow> i = 0 \<and> j = 0"
  by (auto simp: first_best_def rated_regions_def Cons_eq_append_conv)

theorem scanNextCandidate_functional_witness:
  "\<exists>s'. scanNextCandidate Worker demo_scheduler = Ret (Some ()) s'"
  using scanNextCandidate_functional [of demo_scheduler Worker] scan_demo_region
  by (auto simp: demo_first_best rated_regions_def split: option.splits)

lemma demo_scan:
  "\<exists>s1. scanNextCandidate t demo_scheduler = Ret (Some ()) s1 \<and> mutex s1 = None"
  using scanNextCandidate_some [of demo_scheduler 0 0 t] scan_demo_region demo_first_best
  by (auto split: option.splits)

theorem scanNextCandidate_repeats_witness:
  "\<exists>s1 st. scanNextCandidate Worker demo_scheduler = Ret (Some ()) s1 \<and>
     scanNextCandidate Worker s1 = Ret (Some ())
       (s1\<lparr>engine := st, scoreDetail := bestDetail (best_candidate (processes s1))\<rparr>)"
proof -
  from demo_scan obtain s1
    where s1: "scanNextCandidate Worker demo_scheduler = Ret (Some ()) s1" "mutex s1 = None"
    by blast
  have wf: "wf_processes (processes demo_scheduler)"
    using wf_demo_region by (simp add: wf_processes_def)
  have rated: "rated_regions (processes demo_scheduler) \<noteq> []"
    by (simp add: rated_regions_def)
  from scanNextCandidate_repeats [OF _ _ wf rated s1(1,2) refl, of Worker] s1(1) show ?thesis
    by auto
qed

section \<open>The worker never scans\<close>

lemma worker_round_eq:
  assumes "mutex s = None"
  shows "worker_round s =
     (if \<not> running s then Ret (Some False) s
      else if processes s = [] then Ret (Some True) (s\<lparr>scanRequested := False\<rparr>)
      else Ret None (s\<lparr>mutex := Some Worker, scanRequested := False\<rparr>))"
  using assms
  by (cases s) (simp add: worker_round_def scanNextCandidate_def outcome_simps seqO_modO retO_def)

lemma worker_step_eq:
  assumes "mutex s = None"
  shows "worker_step s =
     (if \<not> running s then Ret (Some ()) (s\<lparr>worker_thread := Finished\<rparr>)
      else if processes s = [] then Ret (Some ()) (s\<lparr>scanRequested := False\<rparr>)
      else Ret None (s\<lparr>mutex := Some Worker, scanRequested := False\<rparr>))"
  using assms
  by (simp add: worker_step_def worker_round_eq bindO_def seqO_def modO_def retO_def)

section \<open>Every run of a scheduler\<close>

text \<open>A call with defined behaviour leaves the state it returns with or is stuck in.\<close>

fun leaves :: "('s, 'a option) outcome \<Rightarrow> 's \<Rightarrow> bool" where
  "leaves (Ret (Some _) s) s' = (s' = s)"
| "leaves (Ret None _) _ = False"
| "leaves (Hang s) s' = (s' = s)"
| "leaves Spent _ = False"

text \<open>The owner's calls and the worker's rounds, in any order, up to the first undefined
  behaviour.\<close>

inductive scheduler_run :: "Stats \<Rightarrow> ScanScheduler \<Rightarrow> bool" for st :: Stats where
  created: "scheduler_run st (new_scheduler st)"
| added: "scheduler_run st s \<Longrightarrow> leaves (addProcess p s) s' \<Longrightarrow> scheduler_run st s'"
| snapshot: "scheduler_run st s \<Longrightarrow> leaves (snapshotProcesses s) s' \<Longrightarrow> scheduler_run st s'"
| requested: "scheduler_run st s \<Longrightarrow> final_state (requestScan s) = Some s' \<Longrightarrow> scheduler_run st s'"
| started: "scheduler_run st s \<Longrightarrow> leaves (start s) s' \<Longrightarrow> scheduler_run st s'"
| stopped: "scheduler_run st s \<Longrightarrow> leaves (stop s) s' \<Longrightarrow> scheduler_run st s'"
| worked: "scheduler_run st s \<Longrightarrow> worker_thread s = Sleeping \<Longrightarrow>
    leaves (worker_step s) s' \<Longrightarrow> scheduler_run st s'"

inductive_cases scheduler_run_cases: "scheduler_run st s"

text \<open>The mutex is free between the calls and the engine is as it was given.\<close>

definition idle :: "Stats \<Rightarrow> ScanScheduler \<Rightarrow> bool" where
  "idle st s \<longleftrightarrow> engine s = st \<and> scoreDetail s = [] \<and> mutex s = None"

lemma idle_worker_step: "idle st s \<Longrightarrow> leaves (worker_step s) s' \<Longrightarrow> idle st s'"
  by (auto simp: worker_step_eq idle_def split: if_splits)

lemma idle_start: "idle st s \<Longrightarrow> leaves (start s) s' \<Longrightarrow> idle st s'"
  by (auto simp: start_def Let_def idle_def split: if_splits)

lemma idle_stop: "idle st s \<Longrightarrow> leaves (stop s) s' \<Longrightarrow> idle st s'"
  by (auto simp: stop_def idle_def outcome_simps seqO_modO retO_def join_worker_def worker_step_eq
      split: worker.splits if_splits)

lemma idle_locked_calls:
  "idle st s \<Longrightarrow> leaves (addProcess p s) s' \<Longrightarrow> idle st s'"
  "idle st s \<Longrightarrow> leaves (snapshotProcesses s) s' \<Longrightarrow> idle st s'"
  "idle st s \<Longrightarrow> final_state (requestScan s) = Some s' \<Longrightarrow> idle st s'"
  by (auto simp: addProcess_def snapshotProcesses_def requestScan_def idle_def
      outcome_simps seqO_modO modO_def retO_def)

lemma scheduler_run_idle: "scheduler_run st s \<Longrightarrow> idle st s"
proof (induction rule: scheduler_run.induct)
  case created
  show ?case by (simp add: idle_def new_scheduler_def)
qed (blast intro: idle_locked_calls idle_start idle_stop idle_worker_step)+

text \<open>
  C4: the scheduler never scans a region. In every run, whatever the owner calls and however
  often the worker wakes up, the engine's statistics are those it was created with, no
  candidate is ever explained and the mutex is free between the calls. The next round of the
  worker ends the loop when the scheduler is stopped and goes back to waiting when there is
  no process; as soon as there is a process, the round is undefined behaviour: the worker
  calls \<open>scanNextCandidate\<close> with the mutex in its hands, which locks it again.
\<close>

theorem scheduler_never_scans:
  assumes "scheduler_run st s"
  shows "engine s = st \<and> scoreDetail s = [] \<and> mutex s = None \<and>
    worker_round s =
      (if \<not> running s then Ret (Some False) s
       else if processes s = [] then Ret (Some True) (s\<lparr>scanRequested := False\<rparr>)
       else Ret None (s\<lparr>mutex := Some Worker, scanRequested := False\<rparr>))"
  using scheduler_run_idle [OF assms] by (simp add: idle_def worker_round_eq)

text \<open>A run in which a process is added and the worker started.\<close>

definition demo_process :: ProcessState where
  "demo_process = \<lparr>pid = 1, process_name = ''app'', process_optIn = True, regions = [demo_region]\<rparr>"

lemma scheduler_run_demo:
  "\<exists>s. scheduler_run initial_stats s \<and> worker_thread s = Sleeping \<and> running s \<and> processes s \<noteq> []"
proof -
  let ?s0 = "new_scheduler initial_stats"
  let ?s1 = "?s0\<lparr>processes := [demo_process]\<rparr>"
  let ?s2 = "?s1\<lparr>running := True, worker_thread := Sleeping\<rparr>"
  have "scheduler_run initial_stats ?s1"
    by (rule scheduler_run.added [OF scheduler_run.created, where p = demo_process])
      (simp add: addProcess_def outcome_simps seqO_modO retO_def new_scheduler_def)
  then have "scheduler_run initial_stats ?s2"
    by (rule scheduler_run.started) (simp add: start_def new_scheduler_def)
  then show ?thesis by (intro exI [of _ ?s2]) simp
qed

theorem scheduler_never_scans_witness:
  "\<exists>s s'. scheduler_run initial_stats s \<and> engine s = initial_stats \<and> worker_round s = Ret None s'"
  using scheduler_run_demo scheduler_never_scans by fastforce

text \<open>The owner can always stop a scheduler that has not run into the undefined behaviour,
  and so destroy it.\<close>

lemma stop_returns:
  assumes "scheduler_run st s"
  shows "\<exists>s'. stop s = Ret (Some ()) s' \<and> engine s' = st \<and> \<not> running s'"
  using scheduler_run_idle [OF assms]
  by (auto simp: stop_def idle_def outcome_simps seqO_modO retO_def join_worker_def worker_step_eq
      split: worker.splits)

end
