(* ===== verification/EngineClients.thy ===== *)
theory EngineClients
  imports Scheduler
begin

text \<open>
  The programs that use the engine: its tests (user/test_engine.cpp), the synthetic
  benchmark (user/benchmark.cpp) and the simulator with the scheduler
  (user/dedupe_simulator.cpp). The outputs of \<open>std::mt19937_64\<close> are a parameter: \<open>rng seed i\<close>
  is the output number \<open>i\<close> of a generator seeded with \<open>seed\<close>. None is undefined behaviour.
\<close>

section \<open>The engine tests\<close>

definition makeConstantPage :: "u8 \<Rightarrow> u8 list" where
  "makeConstantPage v = replicate PageSize v"

definition test_region :: "string \<Rightarrow> bool \<Rightarrow> u8 list \<Rightarrow> MemoryRegion" where
  "test_region name optin vs =
     \<lparr>rname = name, optIn = optin, pages = map (\<lambda>v. newPage (makeConstantPage v)) vs\<rparr>"

definition testSimpleDedup :: "bool option" where
  "testSimpleDedup =
     (case scanRegion initial_stats (test_region ''TestDuplicate'' True [0x10, 0x10, 0x20]) of
        None \<Rightarrow> None
      | Some (stats, region) \<Rightarrow>
          Some (pagesScanned stats = 3 \<and> duplicatePages stats = 1 \<and> uniquePages stats = 2 \<and>
                length (filter isShared (pages region)) = 1))"

definition testCowOnWrite :: "bool option" where
  "testCowOnWrite =
     (case scanRegion initial_stats (test_region ''TestCow'' True [0x30, 0x30]) of
        None \<Rightarrow> None
      | Some (st, region0) \<Rightarrow>
          let (stats, region) = writeToPage st region0 1 0x55 in
          Some (duplicatePages stats = 1 \<and> writeCowEvents stats = 1 \<and>
                \<not> isShared (pages region ! 1)))"

definition testOptOutRegion :: "bool option" where
  "testOptOutRegion =
     (case scanRegion initial_stats (test_region ''TestOptOut'' False [0x40, 0x40]) of
        None \<Rightarrow> None
      | Some (stats, region) \<Rightarrow> Some (pagesScanned stats = 0 \<and> duplicatePages stats = 0))"

definition test_engine :: "nat option" where
  "test_engine =
     (case (testSimpleDedup, testCowOnWrite, testOptOutRegion) of
        (Some a, Some b, Some c) \<Rightarrow> Some (if a \<and> b \<and> c then 0 else 1)
      | _ \<Rightarrow> None)"

section \<open>The benchmark\<close>

type_synonym mt19937_64 = "u64 \<Rightarrow> nat \<Rightarrow> u64"

definition makePage :: "mt19937_64 \<Rightarrow> u8 \<Rightarrow> u64 \<Rightarrow> u8 list" where
  "makePage rng baseValue seed =
     map (\<lambda>i. ucast (ucast baseValue + (rng seed i AND 0xFF) :: u64)) [0..<PageSize]"

definition bench_samples :: "mt19937_64 \<Rightarrow> u8 \<Rightarrow> u8 list list" where
  "bench_samples rng contentSeed =
     map (\<lambda>j. makePage rng (contentSeed + of_nat j * 8) (ucast contentSeed + 17 + of_nat j * 11))
       [0..<4]"

definition bench_page :: "mt19937_64 \<Rightarrow> bool \<Rightarrow> u8 \<Rightarrow> nat \<Rightarrow> u8 list" where
  "bench_page rng optin contentSeed i =
     (if optin \<and> i mod 4 \<noteq> 3 then bench_samples rng contentSeed ! (i mod 4)
      else makePage rng (contentSeed + 3) (ucast contentSeed + 90 + of_nat i))"

definition bench_region :: "mt19937_64 \<Rightarrow> string \<Rightarrow> bool \<Rightarrow> nat \<Rightarrow> u8 \<Rightarrow> MemoryRegion" where
  "bench_region rng name optin n contentSeed =
     \<lparr>rname = name, optIn = optin, pages = map (\<lambda>i. newPage (bench_page rng optin contentSeed i)) [0..<n]\<rparr>"

definition scan_all :: "MemoryRegion list \<Rightarrow> Stats \<Rightarrow> Stats option" where
  "scan_all = ofold (\<lambda>region st. map_option fst (scanRegion st region))"

definition benchmark :: "mt19937_64 \<Rightarrow> Stats option" where
  "benchmark rng =
     scan_all [bench_region rng ''BrowserTabs'' True 120 0x10, bench_region rng ''ElectronApp'' True 72 0x40,
               bench_region rng ''ServiceCache'' True 48 0x70, bench_region rng ''KernelMemory'' False 32 0xA0]
       initial_stats"

section \<open>The simulator\<close>

definition sim_samples :: "mt19937_64 \<Rightarrow> u8 \<Rightarrow> u8 list list" where
  "sim_samples rng contentSeed =
     map (\<lambda>j. makePage rng (contentSeed + of_nat j * 3) (ucast contentSeed + 17 + of_nat j * 11))
       [0..<8]"

definition sim_page :: "mt19937_64 \<Rightarrow> bool \<Rightarrow> u8 \<Rightarrow> nat \<Rightarrow> u8 list" where
  "sim_page rng optin contentSeed i =
     (let samplePages = sim_samples rng contentSeed in
      if \<not> optin then makePage rng (contentSeed + 4) (ucast contentSeed + 90 + of_nat i)
      else if i mod 5 = 0 then samplePages ! 0
      else if i mod 5 = 1 then samplePages ! 1
      else if i mod 5 = 2 then samplePages ! ((i div 5) mod length samplePages)
      else if i mod 5 = 3 then samplePages ! ((i div 3) mod length samplePages)
      else makePage rng (contentSeed + 2) (ucast contentSeed + 50 + of_nat i))"

definition sim_region :: "mt19937_64 \<Rightarrow> string \<Rightarrow> bool \<Rightarrow> nat \<Rightarrow> u8 \<Rightarrow> MemoryRegion" where
  "sim_region rng name optin n contentSeed =
     \<lparr>rname = name, optIn = optin, pages = map (\<lambda>i. newPage (sim_page rng optin contentSeed i)) [0..<n]\<rparr>"

definition countSharedPages :: "MemoryRegion \<Rightarrow> nat" where
  "countSharedPages region = length (filter isShared (pages region))"

definition sim_processes :: "mt19937_64 \<Rightarrow> ProcessState list" where
  "sim_processes rng =
     [\<lparr>pid = 101, process_name = ''BrowserRenderer'', process_optIn = True,
       regions = [sim_region rng ''BrowserTabs'' True 120 0x20,
                  sim_region rng ''BrowserCache'' True 32 0x21]\<rparr>,
      \<lparr>pid = 202, process_name = ''ElectronApp'', process_optIn = True,
       regions = [sim_region rng ''ElectronMain'' True 60 0x80,
                  sim_region rng ''ElectronCache'' True 24 0x83]\<rparr>,
      \<lparr>pid = 1, process_name = ''SystemKernel'', process_optIn = False,
       regions = [sim_region rng ''KernelPrivate'' False 40 0xC0]\<rparr>]"

text \<open>While the main thread sleeps, the worker wakes up some number of times; a worker that has
  ended takes no further round.\<close>

fun worker_rounds :: "nat \<Rightarrow> ScanScheduler \<Rightarrow> (ScanScheduler, unit option) outcome" where
  "worker_rounds 0 = retO (Some ())"
| "worker_rounds (Suc n) =
     (\<lambda>s. if worker_thread s = Sleeping then andThen worker_step (worker_rounds n) s
          else Ret (Some ()) s)"

fun add_processes :: "ProcessState list \<Rightarrow> ScanScheduler \<Rightarrow> (ScanScheduler, unit option) outcome" where
  "add_processes [] = retO (Some ())"
| "add_processes (p # ps) = andThen (addProcess p) (add_processes ps)"

text \<open>\<open>main\<close>: what it prints is computed from the snapshot and the statistics. None is
  undefined behaviour.\<close>

definition simulator ::
  "mt19937_64 \<Rightarrow> nat \<Rightarrow> nat \<Rightarrow> ScanScheduler \<Rightarrow> (ScanScheduler, ((string \<times> nat list) list \<times> Stats) option) outcome" where
  "simulator rng wakeups1 wakeups2 =
     andThen (add_processes (sim_processes rng))
       (andThen start
         (seqO requestScan (andThen (worker_rounds wakeups1)
           (seqO requestScan (andThen (worker_rounds wakeups2)
             (andThen stop
               (bindO snapshotProcesses (\<lambda>r.
                  case r of
                    None \<Rightarrow> retO None
                  | Some snapshot \<Rightarrow> bindO (getO engine) (\<lambda>stats.
                      retO (Some (map (\<lambda>p. (process_name p, map countSharedPages (regions p))) snapshot,
                                  stats)))))))))))"

section \<open>The engine tests pass\<close>

lemma makeConstantPage_eq [simp]: "makeConstantPage v = makeConstantPage w \<longleftrightarrow> v = w"
  by (simp add: makeConstantPage_def PageSize_def)

lemma length_makeConstantPage [simp]: "length (makeConstantPage v) = 4096"
  by (simp only: makeConstantPage_def length_replicate PageSize_def)

lemma makeConstantPage_nonempty [simp]: "makeConstantPage v \<noteq> []"
  using length_makeConstantPage [of v] by (metis list.size(3) zero_neq_numeral)

lemma scan_test_region:
  assumes "length vs < 2 ^ 64"
  shows "scanRegion st (test_region name optin vs) =
    (let ps = map (\<lambda>v. newPage (makeConstantPage v)) vs in
     if optin then Some (scan_stats ps (length vs) st, (test_region name optin vs)\<lparr>pages := dedupe_pages ps\<rparr>)
     else Some (st, test_region name optin vs))"
proof -
  have wf: "wf_pages (pages (test_region name optin vs))"
    using assms by (auto simp: test_region_def wf_pages_def wf_page_def newPage_def)
  have "\<forall>p \<in> set (pages (test_region name optin vs)). fingerprintable p"
    by (auto simp: test_region_def fingerprintable_def newPage_def)
  then show ?thesis
    using scanRegion_correct_lemma [OF wf, of st] by (simp add: Let_def test_region_def)
qed

lemma newPage_simps [simp]:
  "pdata (newPage d) = d" "\<not> shared (newPage d)" "homeIndex (newPage d) = SIZE_MAX"
  by (simp_all add: newPage_def)

lemmas scan_eval = scan_stats_def count_below_def unique_page_def first_twin_def dedupe_pages_def
  dedupe_page_def markShared_def isShared_def upt_rec

text \<open>
  The engine's test program succeeds: a scan of three constant pages of which two are
  equal finds one duplicate, a write to a shared page takes it out of sharing and counts one
  copy-on-write event, and a region that is not opted in is not scanned.
\<close>

lemma test_engine_passes: "test_engine = Some 0"
proof -
  have 1: "testSimpleDedup = Some True"
    unfolding testSimpleDedup_def
    by (subst scan_test_region) (simp_all add: Let_def scan_eval initial_stats_def)
  have 2: "testCowOnWrite = Some True"
    unfolding testCowOnWrite_def
    by (subst scan_test_region)
      (simp_all add: Let_def scan_eval initial_stats_def writeToPage_def clonePageForWrite_def)
  have 3: "testOptOutRegion = Some True"
    unfolding testOptOutRegion_def
    by (subst scan_test_region) (simp_all add: Let_def initial_stats_def)
  show ?thesis by (simp add: test_engine_def 1 2 3)
qed

section \<open>What the benchmark reports\<close>

lemma length_makePage [simp]: "length (makePage rng b seed) = 4096"
  by (simp add: makePage_def PageSize_def)

lemma length_bench_page [simp]: "length (bench_page rng optin c i) = 4096"
  by (simp add: bench_page_def bench_samples_def)

lemma bench_page_nonempty [simp]: "bench_page rng optin c i \<noteq> []"
  using length_bench_page [of rng optin c i] by (metis list.size(3) zero_neq_numeral)

lemma count_below_mono:
  "(\<And>i. i < n \<Longrightarrow> P i \<Longrightarrow> Q i) \<Longrightarrow> count_below P n \<le> count_below Q n"
  by (induction n) auto

lemma pages_bench_region:
  "pages (bench_region rng name optin n c) = map (\<lambda>i. newPage (bench_page rng optin c i)) [0..<n]"
  "optIn (bench_region rng name optin n c) = optin"
  by (simp_all add: bench_region_def)

lemma bench_repeats: "4 \<le> i \<Longrightarrow> i mod 4 \<noteq> 3 \<Longrightarrow> bench_page rng True c (i - 4) = bench_page rng True c i"
  using le_mod_geq [of 4 i] by (simp add: bench_page_def)

text \<open>A lower bound for the duplicates of an opted-in region of \<open>n\<close> pages.\<close>

definition repeats_in :: "nat \<Rightarrow> nat" where
  "repeats_in n = count_below (\<lambda>i. 4 \<le> i \<and> i mod 4 \<noteq> 3) n"

definition duplicates_in :: "MemoryRegion \<Rightarrow> nat" where
  "duplicates_in r = count_below (\<lambda>i. first_twin (pages r) i \<noteq> None) (length (pages r))"

lemma bench_duplicates: "repeats_in n \<le> duplicates_in (bench_region rng name True n c)"
proof -
  have "first_twin (pages (bench_region rng name True n c)) i \<noteq> None"
    if "i < n" "4 \<le> i" "i mod 4 \<noteq> 3" for i
  proof -
    have "i - 4 < i" using that by simp
    then show ?thesis
      using that bench_repeats [OF that(2,3)]
      by (auto simp: first_twin_def find_upt_None_iff pages_bench_region
          intro!: exI [of _ "i - 4"])
  qed
  then show ?thesis
    unfolding repeats_in_def duplicates_in_def pages_bench_region length_map length_upt minus_nat.diff_0
    by (intro count_below_mono) (auto simp: pages_bench_region)
qed

lemma count_below_le: "count_below P n \<le> n"
  by (induction n) auto

lemma scan_bench_region:
  assumes "n < 2 ^ 64"
  shows "scanRegion st (bench_region rng name optin n c) =
    Some (if optin then scan_stats (pages (bench_region rng name optin n c)) n st else st,
          if optin then (bench_region rng name optin n c)
            \<lparr>pages := dedupe_pages (pages (bench_region rng name optin n c))\<rparr>
          else bench_region rng name optin n c)"
proof -
  let ?r = "bench_region rng name optin n c"
  have wf: "wf_pages (pages ?r)"
    using assms by (auto simp: pages_bench_region wf_pages_def wf_page_def)
  have ok: "(\<forall>p \<in> set (pages ?r). fingerprintable p) = True"
    by (auto simp: pages_bench_region fingerprintable_def)
  show ?thesis
    unfolding scanRegion_correct_lemma [OF wf] ok by (simp add: pages_bench_region)
qed

text \<open>The counters after a scan of a region none of whose pages is shared.\<close>

lemma bench_stats:
  fixes rng :: mt19937_64 and name :: string and n :: nat and c :: u8 and r :: MemoryRegion
  assumes r_def: "r = bench_region rng name True n c"
  shows "pagesScanned (scan_stats (pages r) n st) = pagesScanned st + of_nat n"
    and "duplicatePages (scan_stats (pages r) n st) = duplicatePages st + of_nat (duplicates_in r)"
    and "uniquePages (scan_stats (pages r) n st) = uniquePages st + of_nat (n - duplicates_in r)"
    and "bytesSaved (scan_stats (pages r) n st) = bytesSaved st + 4096 * of_nat (duplicates_in r)"
    and "writeCowEvents (scan_stats (pages r) n st) = writeCowEvents st"
    and "duplicates_in r \<le> n"
proof -
  have all: "count_below (\<lambda>i. \<not> shared (pages r ! i)) n = n"
    using count_below_cong [of n "\<lambda>i. \<not> shared (pages r ! i)" "\<lambda>_. True"]
    by (simp add: r_def pages_bench_region count_below_def)
  have d: "duplicates_in r = count_below (\<lambda>i. first_twin (pages r) i \<noteq> None) n"
    by (simp add: duplicates_in_def r_def pages_bench_region)
  have u: "count_below (unique_page (pages r)) n = n - duplicates_in r"
    using unshared_count_split [of "pages r" n] unfolding all d by simp
  show "pagesScanned (scan_stats (pages r) n st) = pagesScanned st + of_nat n"
    "duplicatePages (scan_stats (pages r) n st) = duplicatePages st + of_nat (duplicates_in r)"
    "uniquePages (scan_stats (pages r) n st) = uniquePages st + of_nat (n - duplicates_in r)"
    "bytesSaved (scan_stats (pages r) n st) = bytesSaved st + 4096 * of_nat (duplicates_in r)"
    "writeCowEvents (scan_stats (pages r) n st) = writeCowEvents st"
    unfolding scan_stats_def all u d [symmetric] by (simp_all add: PageSize_def)
  show "duplicates_in r \<le> n" unfolding d by (rule count_below_le)
qed

lemma repeats_values: "repeats_in 120 = 87" "repeats_in 72 = 51" "repeats_in 48 = 33"
  by (simp_all add: repeats_in_def count_below_def upt_rec)

text \<open>
  C25: the synthetic benchmark, for every random generator: all 240 pages of the three
  opted-in regions are scanned and the kernel region is not, each page is counted as unique
  or as a duplicate, at least 171 are duplicates, four kilobytes are claimed for each, and
  nothing is copied on write.
\<close>

theorem benchmark_reports:
  "\<exists>st. benchmark rng = Some st \<and> pagesScanned st = 240 \<and> 171 \<le> unat (duplicatePages st) \<and>
     unat (duplicatePages st) + unat (uniquePages st) = 240 \<and>
     bytesSaved st = 4096 * duplicatePages st \<and> writeCowEvents st = 0"
proof -
  define r1 where "r1 = bench_region rng ''BrowserTabs'' True 120 0x10"
  define r2 where "r2 = bench_region rng ''ElectronApp'' True 72 0x40"
  define r3 where "r3 = bench_region rng ''ServiceCache'' True 48 0x70"
  define st where "st = scan_stats (pages r3) 48 (scan_stats (pages r2) 72
    (scan_stats (pages r1) 120 initial_stats))"
  have run: "benchmark rng = Some st"
    by (simp add: benchmark_def scan_all_def scan_bench_region st_def r1_def r2_def r3_def)
  let ?d = "duplicates_in r1 + duplicates_in r2 + duplicates_in r3"
  have le: "duplicates_in r1 \<le> 120" "duplicates_in r2 \<le> 72" "duplicates_in r3 \<le> 48"
    by (rule bench_stats(6) [OF r1_def] bench_stats(6) [OF r2_def] bench_stats(6) [OF r3_def])+
  have ge: "87 \<le> duplicates_in r1" "51 \<le> duplicates_in r2" "33 \<le> duplicates_in r3"
    using bench_duplicates [of 120] bench_duplicates [of 72] bench_duplicates [of 48]
    unfolding repeats_values r1_def r2_def r3_def by blast+
  have s: "pagesScanned st = 240" "writeCowEvents st = 0"
    "duplicatePages st = of_nat ?d" "uniquePages st = of_nat (240 - ?d)"
    "bytesSaved st = 4096 * duplicatePages st"
    using le unfolding st_def bench_stats [OF r1_def] bench_stats [OF r2_def] bench_stats [OF r3_def]
    by (simp_all add: initial_stats_def algebra_simps of_nat_diff)
  have "unat (duplicatePages st) = ?d" "unat (uniquePages st) = 240 - ?d"
    unfolding s using le by (simp_all add: unat_of_nat_small del: of_nat_add of_nat_diff)
  with run s le ge show ?thesis by (intro exI [of _ st]) simp
qed

section \<open>What the simulator does\<close>

lemma sim_processes_nonempty [simp]: "sim_processes rng \<noteq> []"
  by (simp add: sim_processes_def)

lemma addProcess_free:
  "mutex s = None \<Longrightarrow> addProcess p s = Ret (Some ()) (s\<lparr>processes := processes s @ [p]\<rparr>)"
  by (cases s) (simp add: addProcess_def outcome_simps seqO_modO retO_def)

lemma add_all:
  "mutex s = None \<Longrightarrow> add_processes ps s = Ret (Some ()) (s\<lparr>processes := processes s @ ps\<rparr>)"
proof (induction ps arbitrary: s)
  case Nil
  then show ?case by (cases s) (simp add: retO_def)
next
  case (Cons p ps)
  then show ?case by (simp add: andThen_Ret addProcess_free)
qed

lemma new_scheduler_simps [simp]:
  "mutex (new_scheduler st) = None" "processes (new_scheduler st) = []" "\<not> running (new_scheduler st)"
  "worker_thread (new_scheduler st) = NoWorker" "engine (new_scheduler st) = st"
  by (simp_all add: new_scheduler_def)

text \<open>The simulator's scheduler when the worker has been started.\<close>

definition started :: "mt19937_64 \<Rightarrow> ScanScheduler" where
  "started rng = (new_scheduler initial_stats)
     \<lparr>processes := sim_processes rng, running := True, worker_thread := Sleeping,
      scanRequested := True\<rparr>"

lemma started_simps [simp]:
  "mutex (started rng) = None" "processes (started rng) = sim_processes rng" "running (started rng)"
  "worker_thread (started rng) = Sleeping" "engine (started rng) = initial_stats"
  "(started rng)\<lparr>scanRequested := True\<rparr> = started rng"
  by (simp_all add: started_def)

lemma simulator_eq:
  "simulator rng n1 n2 (new_scheduler initial_stats) =
     andThen (worker_rounds n1) (seqO requestScan (andThen (worker_rounds n2)
       (andThen stop (bindO snapshotProcesses (\<lambda>r.
          case r of
            None \<Rightarrow> retO None
          | Some snapshot \<Rightarrow> bindO (getO engine) (\<lambda>stats.
              retO (Some (map (\<lambda>p. (process_name p, map countSharedPages (regions p))) snapshot,
                          stats)))))))) (started rng)"
proof -
  have add: "add_processes (sim_processes rng) (new_scheduler initial_stats) =
      Ret (Some ()) ((new_scheduler initial_stats)\<lparr>processes := sim_processes rng\<rparr>)"
    by (subst add_all) simp_all
  have start: "start ((new_scheduler initial_stats)\<lparr>processes := sim_processes rng\<rparr>) =
      Ret (Some ()) ((new_scheduler initial_stats)\<lparr>processes := sim_processes rng, running := True,
        worker_thread := Sleeping\<rparr>)"
    by (simp add: start_def)
  show ?thesis
    unfolding simulator_def
    by (simp add: andThen_Ret add start requestScan_def seqO_modO started_def)
qed

text \<open>Any number of rounds of a worker with processes there.\<close>

lemma worker_rounds_started:
  assumes "mutex s = None" and "running s" and "processes s \<noteq> []" and "worker_thread s = Sleeping"
  shows "worker_rounds n s = (if n = 0 then Ret (Some ()) s
    else Ret None (s\<lparr>mutex := Some Worker, scanRequested := False\<rparr>))"
  using assms by (cases n) (simp_all add: retO_def andThen_Ret(2) worker_step_eq)

lemma stop_sleeping:
  "running s \<Longrightarrow> worker_thread s = Sleeping \<Longrightarrow> mutex s = None \<Longrightarrow>
     stop s = Ret (Some ()) (s\<lparr>running := False, scanRequested := True, worker_thread := NoWorker\<rparr>)"
  by (simp add: stop_def outcome_simps seqO_modO join_worker_def worker_step_eq)

text \<open>
  C24: the simulator. If the worker wakes up even once while the main thread sleeps, the
  behaviour of the program is undefined: the worker locks the mutex it owns. If it never
  wakes up before \<open>stop\<close>, the program ends and reports what it started with: no shared page
  in any region and all counters zero. There is no schedule in which it reports a scan.
\<close>

theorem simulator_outcome:
  "if 0 < n1 + n2
   then \<exists>s'. simulator rng n1 n2 (new_scheduler initial_stats) = Ret None s'
   else \<exists>s'. simulator rng n1 n2 (new_scheduler initial_stats) =
      Ret (Some ([(''BrowserRenderer'', [0, 0]), (''ElectronApp'', [0, 0]),
                  (''SystemKernel'', [0])], initial_stats)) s'"
proof (cases "0 < n1 + n2")
  case True
  then show ?thesis
    by (cases "n1 = 0")
      (simp_all add: simulator_eq outcome_simps worker_rounds_started requestScan_def seqO_modO)
next
  case False
  have shared: "countSharedPages (sim_region rng name optin n c) = 0" for name optin n c
    by (simp add: countSharedPages_def sim_region_def isShared_def filter_empty_conv)
  from False have n: "n1 = 0" "n2 = 0" by simp_all
  show ?thesis
    unfolding n
    by (simp add: simulator_eq retO_def andThen_def bindO_def requestScan_def seqO_modO shared
        stop_sleeping snapshotProcesses_def lock_def unlock_def getO_def sim_processes_def)
qed

end
