(* ===== verification/GenericTable.thy ===== *)
theory GenericTable
  imports Outcome
begin

text \<open>
  The kernel's \<open>RTL_GENERIC_TABLE\<close> as the driver uses it. The table is the list of its
  elements in enumeration order; where an element is found or would go is decided by the
  run-time library from the driver's compare routine, and is the parameter \<open>srch\<close> of every
  operation (\<open>Inl i\<close>: element \<open>i\<close> matches; \<open>Inr i\<close>: no element matches, a new one goes
  before element \<open>i\<close>). The kernel documents that a compare routine answers
  \<open>GenericLessThan\<close>, \<open>GenericGreaterThan\<close> or \<open>GenericEqual\<close>, which are 0, 1 and 2. The
  driver's routines answer -1, 1 and 0 for less, greater and equal. What the library makes
  of that is left open: the general contract only says that positions are positions, and
  the documented one that an answer \<open>GenericLessThan\<close> or \<open>GenericGreaterThan\<close> is no match.
\<close>

type_synonym 'e compare = "'e \<Rightarrow> 'e \<Rightarrow> int"
type_synonym 'e searcher = "'e compare \<Rightarrow> 'e list \<Rightarrow> 'e \<Rightarrow> nat + nat"

section \<open>Operations\<close>

text \<open>\<open>RtlInsertElementGenericTable\<close>: the element that matches or is new, with the
  \<open>NewElement\<close> flag; None where the allocation failed (a null pointer).\<close>

definition rtl_insert ::
  "'e searcher \<Rightarrow> 'e compare \<Rightarrow> bool \<Rightarrow> 'e \<Rightarrow> 'e list \<Rightarrow> 'e list \<times> (nat \<times> bool) option" where
  "rtl_insert srch cmp alloc e t =
     (case srch cmp t e of
        Inl i \<Rightarrow> (t, Some (i, False))
      | Inr i \<Rightarrow> if alloc then (take i t @ e # drop i t, Some (i, True)) else (t, None))"

definition rtl_lookup :: "'e searcher \<Rightarrow> 'e compare \<Rightarrow> 'e \<Rightarrow> 'e list \<Rightarrow> nat option" where
  "rtl_lookup srch cmp e t = (case srch cmp t e of Inl i \<Rightarrow> Some i | Inr _ \<Rightarrow> None)"

definition rtl_delete :: "'e searcher \<Rightarrow> 'e compare \<Rightarrow> 'e \<Rightarrow> 'e list \<Rightarrow> 'e list \<times> bool" where
  "rtl_delete srch cmp e t =
     (case srch cmp t e of
        Inl i \<Rightarrow> (take i t @ drop (Suc i) t, True)
      | Inr _ \<Rightarrow> (t, False))"

text \<open>Two searches by position, in enumeration order. The first reads the driver's answers
  the way the driver means them, the second the way the kernel documents them.\<close>

definition linear_search :: "'e searcher" where
  "linear_search cmp t e =
     (case List.find (\<lambda>i. cmp e (t ! i) = 0) [0..<length t] of
        Some i \<Rightarrow> Inl i
      | None \<Rightarrow> Inr (length (takeWhile (\<lambda>x. cmp x e < 0) t)))"

definition GenericLessThan :: int where "GenericLessThan = 0"
definition GenericGreaterThan :: int where "GenericGreaterThan = 1"
definition GenericEqual :: int where "GenericEqual = 2"

definition documented_search :: "'e searcher" where
  "documented_search cmp t e =
     (case List.find (\<lambda>i. cmp e (t ! i) = GenericEqual) [0..<length t] of
        Some i \<Rightarrow> Inl i
      | None \<Rightarrow> Inr (length (takeWhile (\<lambda>x. cmp e x = GenericGreaterThan) t)))"

section \<open>Contracts\<close>

text \<open>What every search satisfies, however it reads the answers of the compare routine.\<close>

locale rtl_search =
  fixes srch :: "'e searcher" and cmp :: "'e compare"
  assumes found_position: "srch cmp t e = Inl i \<Longrightarrow> i < length t"
    and new_position: "srch cmp t e = Inr i \<Longrightarrow> i \<le> length t"
begin

lemma lookup_position: "rtl_lookup srch cmp e t = Some i \<Longrightarrow> i < length t"
  using found_position [of t e i] by (auto simp: rtl_lookup_def split: sum.splits)

lemma lookup_empty: "rtl_lookup srch cmp e [] = None"
proof (cases "rtl_lookup srch cmp e []")
  case (Some i)
  from lookup_position [OF this] show ?thesis by simp
qed

lemma insert_list_all:
  assumes "rtl_insert srch cmp alloc e t = (t', r)" and "list_all Q t" and "Q e"
  shows "list_all Q t'" and "r = Some (i, new) \<Longrightarrow> i < length t'"
proof -
  have "list_all Q (take j t)" "list_all Q (drop j t)" for j
    using assms(2) by (auto simp: list_all_iff dest: in_set_takeD in_set_dropD)
  with assms show "list_all Q t'"
    by (auto simp: rtl_insert_def split: sum.splits if_splits)
  show "i < length t'" if "r = Some (i, new)"
  proof (cases "srch cmp t e")
    case (Inl j)
    with assms(1) that found_position [OF Inl] show ?thesis by (auto simp: rtl_insert_def)
  next
    case (Inr j)
    with assms(1) that new_position [OF Inr] show ?thesis
      by (auto simp: rtl_insert_def split: if_splits)
  qed
qed

end

text \<open>The documented library: an element for which the compare routine answered less or
  greater is not the one that was searched for.\<close>

locale rtl_documented = rtl_search srch cmp for srch :: "'e searcher" and cmp :: "'e compare" +
  assumes no_match: "srch cmp t e = Inl i \<Longrightarrow> cmp e (t ! i) \<notin> {GenericLessThan, GenericGreaterThan}"
begin

lemma lookup_unmatched:
  assumes "\<And>x. x \<in> set t \<Longrightarrow> cmp e x \<in> {GenericLessThan, GenericGreaterThan}"
  shows "rtl_lookup srch cmp e t = None"
proof (cases "srch cmp t e")
  case (Inl i)
  with found_position [OF Inl] no_match [OF Inl] assms [of "t ! i"] show ?thesis by simp
qed (simp add: rtl_lookup_def)

lemma insert_unmatched:
  assumes "\<And>x. x \<in> set t \<Longrightarrow> cmp e x \<in> {GenericLessThan, GenericGreaterThan}"
  shows "\<exists>i \<le> length t. rtl_insert srch cmp True e t = (take i t @ e # drop i t, Some (i, True))"
proof (cases "srch cmp t e")
  case (Inl i)
  with found_position [OF Inl] no_match [OF Inl] assms [of "t ! i"] show ?thesis by simp
next
  case (Inr i)
  with new_position [OF Inr] show ?thesis by (auto simp: rtl_insert_def)
qed

end

text \<open>A compare routine that answers zero for an element and itself, which the documented
  library reads as less: the element that an enumeration yields first can never be deleted
  by passing it to the deletion.\<close>

locale self_less = rtl_documented srch cmp for srch :: "'e searcher" and cmp :: "'e compare" +
  assumes self: "cmp e e = 0"
begin

lemma delete_first:
  "rtl_delete srch cmp e (e # t) = (e # t, False) \<or>
   (\<exists>t'. rtl_delete srch cmp e (e # t) = (e # t', True) \<and> length t = Suc (length t') \<and>
         set t' \<subseteq> set t)"
proof (cases "srch cmp (e # t) e")
  case (Inl i)
  from found_position [OF Inl] have i: "i < Suc (length t)" by simp
  have "i \<noteq> 0"
    using no_match [OF Inl] self [of e] by (cases i) (auto simp: GenericLessThan_def)
  then obtain m where m: "i = Suc m" by (cases i) auto
  let ?t = "take m t @ drop (Suc m) t"
  have "rtl_delete srch cmp e (e # t) = (e # ?t, True)" using Inl m by (simp add: rtl_delete_def)
  moreover have "length t = Suc (length ?t)" using i m by simp
  moreover have "set ?t \<subseteq> set t" by (auto dest: in_set_takeD in_set_dropD)
  ultimately show ?thesis by blast
qed (simp add: rtl_delete_def)

end

section \<open>The searches by position meet the contracts\<close>

lemma rtl_search_linear: "rtl_search linear_search cmp"
proof
  show "i < length t" if "linear_search cmp t e = Inl i" for t e i
    using that by (auto simp: linear_search_def find_upt_Some_iff split: option.splits)
  show "i \<le> length t" if "linear_search cmp t e = Inr i" for t e i
    using that by (auto simp: linear_search_def length_takeWhile_le split: option.splits)
qed

lemma rtl_documented_search: "rtl_documented documented_search cmp"
proof
  show "i < length t" "cmp e (t ! i) \<notin> {GenericLessThan, GenericGreaterThan}"
    if "documented_search cmp t e = Inl i" for t e i
    using that
    by (auto simp: documented_search_def find_upt_Some_iff GenericLessThan_def
        GenericGreaterThan_def GenericEqual_def split: option.splits)
  show "i \<le> length t" if "documented_search cmp t e = Inr i" for t e i
    using that by (auto simp: documented_search_def length_takeWhile_le split: option.splits)
qed

end
