(* ===== verification/DriverTypes.thy ===== *)
theory DriverTypes
  imports GenericTable "HOL-Library.Product_Lexorder"
begin

text \<open>
  The data of the kernel driver (driver/deduper.h) and the routines of driver/deduper.cpp
  that need no global state: the process policy, the compare routines of the generic
  tables, the physical page comparison, the page signature, and the pool allocation of
  table entries. What the Windows kernel answers is the record \<open>kenv\<close>, a parameter of the
  routines.
\<close>

section \<open>NTSTATUS values\<close>

type_synonym NTSTATUS = u32
type_synonym HANDLE = u64
type_synonym PVOID = u64
type_synonym PFN_NUMBER = u64
type_synonym ULONG = u32

definition STATUS_SUCCESS :: NTSTATUS where "STATUS_SUCCESS = 0"
definition STATUS_OBJECT_NAME_EXISTS :: NTSTATUS where "STATUS_OBJECT_NAME_EXISTS = 0x40000000"
definition STATUS_BUFFER_OVERFLOW :: NTSTATUS where "STATUS_BUFFER_OVERFLOW = 0x80000005"
definition STATUS_UNSUCCESSFUL :: NTSTATUS where "STATUS_UNSUCCESSFUL = 0xC0000001"
definition STATUS_INVALID_PARAMETER :: NTSTATUS where "STATUS_INVALID_PARAMETER = 0xC000000D"
definition STATUS_INVALID_DEVICE_REQUEST :: NTSTATUS where
  "STATUS_INVALID_DEVICE_REQUEST = 0xC0000010"
definition STATUS_BUFFER_TOO_SMALL :: NTSTATUS where "STATUS_BUFFER_TOO_SMALL = 0xC0000023"
definition STATUS_OBJECT_NAME_COLLISION :: NTSTATUS where
  "STATUS_OBJECT_NAME_COLLISION = 0xC0000035"
definition STATUS_INSUFFICIENT_RESOURCES :: NTSTATUS where
  "STATUS_INSUFFICIENT_RESOURCES = 0xC000009A"
definition STATUS_NOT_SUPPORTED :: NTSTATUS where "STATUS_NOT_SUPPORTED = 0xC00000BB"
definition STATUS_NOT_FOUND :: NTSTATUS where "STATUS_NOT_FOUND = 0xC0000225"

lemmas status_defs =
  STATUS_SUCCESS_def STATUS_OBJECT_NAME_EXISTS_def STATUS_BUFFER_OVERFLOW_def
  STATUS_UNSUCCESSFUL_def STATUS_INVALID_PARAMETER_def STATUS_INVALID_DEVICE_REQUEST_def
  STATUS_BUFFER_TOO_SMALL_def STATUS_OBJECT_NAME_COLLISION_def
  STATUS_INSUFFICIENT_RESOURCES_def STATUS_NOT_SUPPORTED_def STATUS_NOT_FOUND_def

text \<open>\<open>NT_SUCCESS\<close>: the severity bits read as a signed number are not negative.\<close>

definition NT_SUCCESS :: "NTSTATUS \<Rightarrow> bool" where
  "NT_SUCCESS status \<longleftrightarrow> 0 \<le> sint status"

section \<open>Structures\<close>

record DriverPageSignature =
  Hash :: u64
  Fingerprint :: u32

record ProcessOptInEntry =
  ProcessId :: HANDLE

record CowProtectedPage =
  ProtectedPfn :: PFN_NUMBER

record CowPrivatePage =
  PrivatePfn :: PFN_NUMBER
  PrivatePageAddress :: PVOID

text \<open>\<open>PageEntry\<close> begins with the fields of \<open>SharedPageGroup\<close> in the same order, which is
  what lets the driver hand both to \<open>ComparePageEntries\<close>; here it extends the record.\<close>

record SharedPageGroup =
  Signature :: DriverPageSignature
  ReferenceCount :: ULONG
  PageFrameCount :: ULONG
  PageFrameNumbers :: "PFN_NUMBER list"

record PageEntry = SharedPageGroup +
  Shared :: bool

definition PfnTableSize :: nat where
  "PfnTableSize = 64"

text \<open>Signatures are ordered as the compare routine orders them: by hash, then by
  fingerprint.\<close>

instantiation DriverPageSignature_ext :: (linorder) linorder
begin

definition less_eq_DriverPageSignature_ext ::
  "'a DriverPageSignature_scheme \<Rightarrow> 'a DriverPageSignature_scheme \<Rightarrow> bool" where
  "less_eq_DriverPageSignature_ext a b \<longleftrightarrow>
     (Hash a, Fingerprint a, DriverPageSignature.more a)
     \<le> (Hash b, Fingerprint b, DriverPageSignature.more b)"

definition less_DriverPageSignature_ext ::
  "'a DriverPageSignature_scheme \<Rightarrow> 'a DriverPageSignature_scheme \<Rightarrow> bool" where
  "less_DriverPageSignature_ext a b \<longleftrightarrow>
     (Hash a, Fingerprint a, DriverPageSignature.more a)
     < (Hash b, Fingerprint b, DriverPageSignature.more b)"

instance
proof
  fix x y z :: "'a DriverPageSignature_scheme"
  show "(x < y) = (x \<le> y \<and> \<not> y \<le> x)"
    unfolding less_DriverPageSignature_ext_def less_eq_DriverPageSignature_ext_def
    by (rule less_le_not_le)
  show "x \<le> x" by (simp add: less_eq_DriverPageSignature_ext_def)
  show "x \<le> z" if "x \<le> y" "y \<le> z"
    using that unfolding less_eq_DriverPageSignature_ext_def by (rule order_trans)
  show "x = y" if "x \<le> y" "y \<le> x"
    using antisym [OF that [unfolded less_eq_DriverPageSignature_ext_def]] by simp
  show "x \<le> y \<or> y \<le> x"
    unfolding less_eq_DriverPageSignature_ext_def by (rule linear)
qed

end

lemma less_signature:
  "(a :: DriverPageSignature) < b \<longleftrightarrow>
     Hash a < Hash b \<or> Hash a = Hash b \<and> Fingerprint a < Fingerprint b"
  by (auto simp: less_DriverPageSignature_ext_def)

section \<open>Global state and the kernel around it\<close>

record DedupeContext =
  ProcessTable :: "ProcessOptInEntry list"
  PageTable :: "PageEntry list"
  SharedGroupTable :: "SharedPageGroup list"
  CowProtectedTable :: "CowProtectedPage list"
  CowPrivateTable :: "CowPrivatePage list"

text \<open>The globals of driver/deduper.cpp. A pointer that is only tested against null is the
  flag that it is not null; \<open>gDedupeMutex\<close> is the flag that some thread owns the fast
  mutex.\<close>

record driver =
  gDeviceObject :: bool
  gShutdownEvent :: bool
  gScanThread :: bool
  gDedupeContext :: DedupeContext
  gDedupeMutex :: bool
  gCowInterceptionActive :: bool
  gCowFaultCallbackHandle :: PVOID
  gCowFaultCallbackRegistered :: bool

definition empty_context :: DedupeContext where
  "empty_context = \<lparr>ProcessTable = [], PageTable = [], SharedGroupTable = [],
                     CowProtectedTable = [], CowPrivateTable = []\<rparr>"

text \<open>The globals before \<open>DriverEntry\<close> runs.\<close>

definition static_driver :: driver where
  "static_driver = \<lparr>gDeviceObject = False, gShutdownEvent = False, gScanThread = False,
     gDedupeContext = empty_context, gDedupeMutex = False, gCowInterceptionActive = False,
     gCowFaultCallbackHandle = 0, gCowFaultCallbackRegistered = False\<rparr>"

record MEMORY_BASIC_INFORMATION =
  BaseAddress :: PVOID
  RegionSize :: u64
  State :: u32
  Protect :: u32

text \<open>
  What the kernel answers. A process is named by its \<open>PEPROCESS\<close>; \<open>UserPage process va\<close>
  is the 512 words read at \<open>va\<close> while attached to \<open>process\<close>, or None where the read
  faults, and \<open>MmGetPhysicalAddress\<close> is None where it raises. \<open>MmMapIoSpace\<close> gives the
  bytes of a mapped physical page, or None for a null mapping. The last two fields stand
  for routines that driver/deduper.cpp declares and never defines.
\<close>

record kenv =
  CurrentProcess :: u64
  MM_LOWEST_USER_ADDRESS :: PVOID
  MM_HIGHEST_USER_ADDRESS :: PVOID
  MmMapIoSpace :: "u64 \<Rightarrow> u8 list option"
  MmGetPhysicalAddress :: "u64 \<Rightarrow> PVOID \<Rightarrow> u64 option"
  UserPage :: "u64 \<Rightarrow> PVOID \<Rightarrow> u64 list option"
  ExAllocatePoolWithTag :: "nat \<Rightarrow> bool"
  PsLookupProcessByProcessId :: "HANDLE \<Rightarrow> NTSTATUS \<times> u64"
  PsIsSystemProcess :: "u64 \<Rightarrow> bool"
  PsGetProcessImageFileName :: "u64 \<Rightarrow> string option"
  ObOpenObjectByPointer :: "u64 \<Rightarrow> NTSTATUS \<times> HANDLE"
  ZwQueryVirtualMemory :: "HANDLE \<Rightarrow> PVOID \<Rightarrow> NTSTATUS \<times> MEMORY_BASIC_INFORMATION"
  search_process :: "ProcessOptInEntry searcher"
  search_page :: "PageEntry searcher"
  search_group :: "SharedPageGroup searcher"
  search_cow_protected :: "CowProtectedPage searcher"
  search_cow_private :: "CowPrivatePage searcher"
  CompareCowPrivatePages :: "CowPrivatePage compare"
  AllocatePrivateCopyForCowFault :: "PVOID \<Rightarrow> PFN_NUMBER \<Rightarrow> driver \<Rightarrow> NTSTATUS \<times> driver"

section \<open>Process policy\<close>

definition ascii_lower :: "char \<Rightarrow> char" where
  "ascii_lower c =
     (if 65 \<le> (of_char c :: nat) \<and> (of_char c :: nat) \<le> 90
      then char_of ((of_char c :: nat) + (97 - 65)) else c)"

text \<open>A C string is the list of its characters before the terminating NUL.\<close>

fun IsAsciiStringEqualIgnoreCase :: "string \<Rightarrow> string \<Rightarrow> bool" where
  "IsAsciiStringEqualIgnoreCase (a # left) (b # right) =
     (if ascii_lower a \<noteq> ascii_lower b then False
      else IsAsciiStringEqualIgnoreCase left right)"
| "IsAsciiStringEqualIgnoreCase left right = (left = [] \<and> right = [])"

definition blacklisted :: "string list" where
  "blacklisted = [''System'', ''smss.exe'', ''csrss.exe'', ''wininit.exe'', ''services.exe'',
                  ''lsass.exe'', ''winlogon.exe'', ''spoolsv.exe'', ''svchost.exe'']"

definition IsProcessPolicyAllowed :: "kenv \<Rightarrow> u64 \<Rightarrow> bool" where
  "IsProcessPolicyAllowed k process =
     (case PsGetProcessImageFileName k process of
        None \<Rightarrow> False
      | Some imageName \<Rightarrow>
          \<not> list_ex (\<lambda>name. IsAsciiStringEqualIgnoreCase imageName name) blacklisted)"

section \<open>Compare routines\<close>

definition PAGE_SHIFT :: nat where "PAGE_SHIFT = 12"
definition PAGE_SIZE :: u64 where "PAGE_SIZE = 4096"

definition CompareProcessEntries :: "ProcessOptInEntry compare" where
  "CompareProcessEntries left right =
     (if ProcessId left < ProcessId right then - 1
      else if ProcessId right < ProcessId left then 1 else 0)"

definition CompareCowProtectedPages :: "CowProtectedPage compare" where
  "CompareCowProtectedPages left right =
     (if ProtectedPfn left < ProtectedPfn right then - 1
      else if ProtectedPfn right < ProtectedPfn left then 1 else 0)"

definition ArePhysicalPagesIdentical :: "kenv \<Rightarrow> PFN_NUMBER \<Rightarrow> PFN_NUMBER \<Rightarrow> bool" where
  "ArePhysicalPagesIdentical k l r =
     (if l = r then True
      else case MmMapIoSpace k (push_bit PAGE_SHIFT l) of
             None \<Rightarrow> False
           | Some leftVa \<Rightarrow>
               (case MmMapIoSpace k (push_bit PAGE_SHIFT r) of
                  None \<Rightarrow> False
                | Some rightVa \<Rightarrow> leftVa = rightVa))"

definition first_pfn :: "'a SharedPageGroup_scheme \<Rightarrow> PFN_NUMBER" where
  "first_pfn e = PageFrameNumbers e ! 0"

definition ComparePageEntries :: "kenv \<Rightarrow> 'a SharedPageGroup_scheme compare" where
  "ComparePageEntries k left right =
     (if Hash (Signature left) < Hash (Signature right) then - 1
      else if Hash (Signature right) < Hash (Signature left) then 1
      else if Fingerprint (Signature left) < Fingerprint (Signature right) then - 1
      else if Fingerprint (Signature right) < Fingerprint (Signature left) then 1
      else if ArePhysicalPagesIdentical k (first_pfn left) (first_pfn right) then 0
      else if first_pfn left < first_pfn right then - 1
      else 1)"

section \<open>Page signatures\<close>

definition driver_hash_step :: "u64 \<Rightarrow> u64 \<Rightarrow> u64" where
  "driver_hash_step hash w = (hash XOR w) * 1099511628211"

text \<open>The loop over the \<open>PAGE_SIZE / 8\<close> words of the page: the list holds exactly the words
  that are read, 512 in the only call (\<open>UserPage\<close>).\<close>

definition MakePageSignatureFromUserPage :: "u64 list \<Rightarrow> DriverPageSignature" where
  "MakePageSignatureFromUserPage words =
     (let hash = foldl driver_hash_step 1469598103934665603 words
      in \<lparr>Hash = hash, Fingerprint = ucast (drop_bit 32 hash XOR hash)\<rparr>)"

section \<open>Pool allocation of table entries\<close>

definition AllocateGenericTableEntry :: "kenv \<Rightarrow> nat \<Rightarrow> bool" where
  "AllocateGenericTableEntry k byteSize = ExAllocatePoolWithTag k byteSize"

text \<open>The x64 sizes of the structures.\<close>

definition sizeof_ProcessOptInEntry :: nat where "sizeof_ProcessOptInEntry = 8"
definition sizeof_CowProtectedPage :: nat where "sizeof_CowProtectedPage = 8"
definition sizeof_SharedPageGroup :: nat where "sizeof_SharedPageGroup = 16 + 4 + 4 + 8 * 64"
definition sizeof_PageEntry :: nat where "sizeof_PageEntry = 16 + 4 + 4 + 8 * 64 + 8"

section \<open>Properties of the policy\<close>

lemma IsAsciiStringEqualIgnoreCase_iff:
  "IsAsciiStringEqualIgnoreCase l r \<longleftrightarrow> map ascii_lower l = map ascii_lower r"
  by (induction l r rule: IsAsciiStringEqualIgnoreCase.induct) auto

text \<open>The opt-in policy admits a process exactly when the kernel reports an image name that
  differs, ignoring the case of ASCII letters, from all nine protected names.\<close>

lemma IsProcessPolicyAllowed_iff:
  "IsProcessPolicyAllowed k process \<longleftrightarrow>
     (\<exists>image. PsGetProcessImageFileName k process = Some image \<and>
        map ascii_lower image \<notin> map ascii_lower ` set blacklisted)"
  by (auto simp: IsProcessPolicyAllowed_def IsAsciiStringEqualIgnoreCase_iff list_ex_iff
      split: option.splits)

section \<open>Properties of the compare routines\<close>

lemma ArePhysicalPagesIdentical_refl [simp]: "ArePhysicalPagesIdentical k p p"
  by (simp add: ArePhysicalPagesIdentical_def)

lemma ArePhysicalPagesIdentical_sym:
  "ArePhysicalPagesIdentical k p q = ArePhysicalPagesIdentical k q p"
  by (auto simp: ArePhysicalPagesIdentical_def split: option.splits)

lemma ArePhysicalPagesIdentical_trans:
  "ArePhysicalPagesIdentical k p q \<Longrightarrow> ArePhysicalPagesIdentical k q r \<Longrightarrow>
     ArePhysicalPagesIdentical k p r"
  by (auto simp: ArePhysicalPagesIdentical_def split: option.splits if_splits)

lemma ComparePageEntries_zero_iff:
  "ComparePageEntries k a b = 0 \<longleftrightarrow>
     Signature a = Signature b \<and> ArePhysicalPagesIdentical k (first_pfn a) (first_pfn b)"
  by (auto simp: ComparePageEntries_def DriverPageSignature.equality)

lemma ComparePageEntries_refl [simp]: "ComparePageEntries k a a = 0"
  by (simp add: ComparePageEntries_zero_iff)

interpretation proc_less: self_less documented_search CompareProcessEntries
  using rtl_documented_search by (intro self_less.intro self_less_axioms.intro)
    (simp_all add: CompareProcessEntries_def)

interpretation cow_less: self_less documented_search CompareCowProtectedPages
  using rtl_documented_search by (intro self_less.intro self_less_axioms.intro)
    (simp_all add: CompareCowProtectedPages_def)

interpretation page_less: self_less documented_search "ComparePageEntries k" for k
  using rtl_documented_search by (intro self_less.intro self_less_axioms.intro) simp_all

text \<open>For any documented library, not only the search by position.\<close>

lemma self_less_driver:
  "rtl_documented srch CompareProcessEntries \<Longrightarrow> self_less srch CompareProcessEntries"
  "rtl_documented srch' CompareCowProtectedPages \<Longrightarrow> self_less srch' CompareCowProtectedPages"
  "rtl_documented srch'' (ComparePageEntries k) \<Longrightarrow> self_less srch'' (ComparePageEntries k)"
  by (simp_all add: self_less_def self_less_axioms_def CompareProcessEntries_def
      CompareCowProtectedPages_def)

lemma ComparePageEntries_antisym: "ComparePageEntries k b a = - ComparePageEntries k a b"
  using ArePhysicalPagesIdentical_sym [of k "first_pfn a" "first_pfn b"]
  by (cases "first_pfn a = first_pfn b") (auto simp: ComparePageEntries_def)

text \<open>Two page entries compare equal exactly when their signatures agree and their first
  frames are the same frame or map to the same bytes; that relation is symmetric and
  transitive, and swapping the arguments of the compare routine negates its result.\<close>

lemma ComparePageEntries_equivalence:
  fixes a b c :: "'a SharedPageGroup_scheme"
  shows "(ComparePageEntries k a b = 0 \<longleftrightarrow>
           Signature a = Signature b \<and> ArePhysicalPagesIdentical k (first_pfn a) (first_pfn b)) \<and>
         ComparePageEntries k b a = - ComparePageEntries k a b \<and>
         \<not> (ComparePageEntries k a b = 0 \<and> ComparePageEntries k b c = 0 \<and>
            ComparePageEntries k a c \<noteq> 0)"
proof -
  have "ComparePageEntries k a c = 0"
    if "ComparePageEntries k a b = 0" "ComparePageEntries k b c = 0"
    using that ArePhysicalPagesIdentical_trans by (auto simp: ComparePageEntries_zero_iff)
  then show ?thesis
    using ComparePageEntries_zero_iff ComparePageEntries_antisym by blast
qed

text \<open>Signatures tell page contents apart on a set of frames.\<close>

definition collision_free :: "kenv \<Rightarrow> 'a SharedPageGroup_scheme set \<Rightarrow> bool" where
  "collision_free k es \<longleftrightarrow> (\<forall>a \<in> es. \<forall>b \<in> es. Signature a = Signature b \<longrightarrow>
     ArePhysicalPagesIdentical k (first_pfn a) (first_pfn b))"

lemma ComparePageEntries_by_signature:
  assumes "collision_free k es" and "a \<in> es" and "b \<in> es"
  shows "ComparePageEntries k a b =
    (if Signature a < Signature b then - 1 else if Signature b < Signature a then 1 else 0)"
proof (cases "Signature a = Signature b")
  case True
  with assms have "ArePhysicalPagesIdentical k (first_pfn a) (first_pfn b)"
    by (simp add: collision_free_def)
  with True show ?thesis by (simp add: ComparePageEntries_def)
next
  case False
  then have "Hash (Signature a) \<noteq> Hash (Signature b) \<or>
      Fingerprint (Signature a) \<noteq> Fingerprint (Signature b)"
    by (metis DriverPageSignature.equality old.unit.exhaust)
  then show ?thesis
    by (auto simp: ComparePageEntries_def less_signature)
qed

text \<open>
  C35: as long as signatures do not collide, \<open>ComparePageEntries\<close> is the three-way
  comparison of a linear order on signatures, so a generic table can be searched with it.
\<close>

theorem ComparePageEntries_linear:
  assumes "collision_free k es" and "a \<in> es" and "b \<in> es"
  shows "ComparePageEntries k a b =
    (if Signature a < Signature b then - 1 else if Signature b < Signature a then 1 else 0)"
  using assms by (rule ComparePageEntries_by_signature)

text \<open>A concrete kernel for the witnesses: every process exists and is called app.exe,
  process 4 is the system process, memory is one region of three pages at 0x10000, frame 5
  holds ones and every other frame zeros, and allocations succeed.\<close>

definition demo_kenv :: kenv where
  "demo_kenv = \<lparr>CurrentProcess = 1,
     MM_LOWEST_USER_ADDRESS = 0x10000, MM_HIGHEST_USER_ADDRESS = 0x7FFFFFFEFFFF,
     MmMapIoSpace = (\<lambda>pa. Some (replicate 4096 (if pa = 5 * 4096 then 1 else 0))),
     MmGetPhysicalAddress = (\<lambda>_ va. Some va),
     UserPage = (\<lambda>_ va. Some (replicate 512 0)),
     ExAllocatePoolWithTag = (\<lambda>_. True),
     PsLookupProcessByProcessId = (\<lambda>h. (STATUS_SUCCESS, h)),
     PsIsSystemProcess = (\<lambda>p. p = 4),
     PsGetProcessImageFileName = (\<lambda>_. Some ''app.exe''),
     ObOpenObjectByPointer = (\<lambda>p. (STATUS_SUCCESS, p)),
     ZwQueryVirtualMemory = (\<lambda>_ va.
       if 0x10000 \<le> va \<and> va < 0x13000
       then (STATUS_SUCCESS, \<lparr>BaseAddress = va AND 0xFFFFFFFFFFFFF000,
         RegionSize = 0x13000 - (va AND 0xFFFFFFFFFFFFF000), State = 0x1000, Protect = 4\<rparr>)
       else (STATUS_INVALID_PARAMETER, \<lparr>BaseAddress = 0, RegionSize = 0, State = 0, Protect = 0\<rparr>)),
     search_process = linear_search, search_page = linear_search, search_group = linear_search,
     search_cow_protected = linear_search, search_cow_private = linear_search,
     CompareCowPrivatePages = (\<lambda>a b. if PrivatePfn a < PrivatePfn b then - 1
       else if PrivatePfn b < PrivatePfn a then 1 else 0),
     AllocatePrivateCopyForCowFault = (\<lambda>_ _ s. (STATUS_SUCCESS, s))\<rparr>"

definition demo_entry :: "u64 \<Rightarrow> PFN_NUMBER \<Rightarrow> PageEntry" where
  "demo_entry h pfn =
     \<lparr>Signature = \<lparr>Hash = h, Fingerprint = 0\<rparr>, ReferenceCount = 1, PageFrameCount = 1,
      PageFrameNumbers = pfn # replicate 63 0, Shared = False\<rparr>"

theorem ComparePageEntries_linear_witness:
  "ComparePageEntries demo_kenv (demo_entry 1 8) (demo_entry 2 9) = - 1"
proof -
  have "collision_free demo_kenv {demo_entry 1 8, demo_entry 2 9}"
    by (auto simp: collision_free_def demo_entry_def first_pfn_def)
  from ComparePageEntries_linear [OF this, of "demo_entry 1 8" "demo_entry 2 9"]
  show ?thesis by (simp add: less_signature demo_entry_def)
qed

text \<open>
  C36: when signatures do collide, \<open>ComparePageEntries\<close> is not an ordering: there are
  three entries with one signature where the first two compare equal but the third is less
  than the first and greater than the second, so the place a search ends at depends on
  which entries it meets on the way.
\<close>

theorem ComparePageEntries_not_an_order:
  "\<exists>k a b (c :: PageEntry). ComparePageEntries k a b = 0 \<and>
     ComparePageEntries k a c > 0 \<and> ComparePageEntries k b c < 0"
proof (intro exI conjI)
  show "ComparePageEntries demo_kenv (demo_entry 1 7) (demo_entry 1 3) = 0"
    by (simp add: ComparePageEntries_zero_iff demo_entry_def first_pfn_def
        ArePhysicalPagesIdentical_def demo_kenv_def PAGE_SHIFT_def)
  show "ComparePageEntries demo_kenv (demo_entry 1 7) (demo_entry 1 5) > 0"
    by (simp add: ComparePageEntries_def demo_entry_def first_pfn_def
        ArePhysicalPagesIdentical_def demo_kenv_def PAGE_SHIFT_def)
  show "ComparePageEntries demo_kenv (demo_entry 1 3) (demo_entry 1 5) < 0"
    by (simp add: ComparePageEntries_def demo_entry_def first_pfn_def
        ArePhysicalPagesIdentical_def demo_kenv_def PAGE_SHIFT_def)
qed

section \<open>Properties of the page signature\<close>

interpretation driver_hash: injective_mixer driver_hash_step
proof
  have inj: "(x * 1099511628211 = y * 1099511628211) = (x = y)" for x y :: u64
    by (rule mult_right_injective [where n = 14886173955864302971]) simp
  show "s = t" if "driver_hash_step s b = driver_hash_step t b" for s t b
    using that by (simp add: driver_hash_step_def inj)
  show "b = c" if "driver_hash_step s b = driver_hash_step s c" for s b c
    using that by (simp add: driver_hash_step_def inj)
qed

text \<open>
  C40: two pages that differ in exactly one 64-bit word get different signatures: the hash of
  the driver loses no such change.
\<close>

theorem MakePageSignature_single_word:
  assumes "i < length page"
  shows "MakePageSignatureFromUserPage (page[i := w]) = MakePageSignatureFromUserPage page
          \<longleftrightarrow> w = page ! i"
  using driver_hash.foldl_mix_update [OF assms]
  by (auto simp: MakePageSignatureFromUserPage_def Let_def)

theorem MakePageSignature_single_word_witness:
  "MakePageSignatureFromUserPage ([1, 2][1 := 7]) \<noteq> MakePageSignatureFromUserPage [1, 2]"
  using MakePageSignature_single_word [of 1 "[1, 2]" 7] by simp

end
