(* ===== verification/DriverState.thy ===== *)
theory DriverState
  imports DriverTypes
begin

text \<open>
  The routines of driver/deduper.cpp that work on the global tables under the fast mutex:
  the opt-in registry, the registry of copy-on-write protected frames, the shared page
  groups, \<open>AddPageEntry\<close>, \<open>DrainDedupeState\<close> and the write-fault callback. A routine maps
  the global state to an outcome; acquiring the mutex while it is owned never returns, as
  no other thread can own it without having left one of these routines without releasing it.
\<close>

section \<open>The mutex and the tables\<close>

definition ExAcquireFastMutex :: "driver \<Rightarrow> (driver, unit) outcome" where
  "ExAcquireFastMutex s = (if gDedupeMutex s then Hang s else Ret () (s\<lparr>gDedupeMutex := True\<rparr>))"

definition ExReleaseFastMutex :: "driver \<Rightarrow> (driver, unit) outcome" where
  "ExReleaseFastMutex = modO (\<lambda>s. s\<lparr>gDedupeMutex := False\<rparr>)"

text \<open>Run a table operation on one table of the global context.\<close>

definition on_table ::
  "(DedupeContext \<Rightarrow> 't) \<Rightarrow> (('t \<Rightarrow> 't) \<Rightarrow> DedupeContext \<Rightarrow> DedupeContext) \<Rightarrow>
   ('t \<Rightarrow> 't \<times> 'r) \<Rightarrow> driver \<Rightarrow> (driver, 'r) outcome" where
  "on_table get upd op s =
     (let (t, r) = op (get (gDedupeContext s))
      in Ret r (s\<lparr>gDedupeContext := upd (\<lambda>_. t) (gDedupeContext s)\<rparr>))"

abbreviation process_table :: "driver \<Rightarrow> ProcessOptInEntry list" where
  "process_table s \<equiv> ProcessTable (gDedupeContext s)"
abbreviation page_table :: "driver \<Rightarrow> PageEntry list" where
  "page_table s \<equiv> PageTable (gDedupeContext s)"
abbreviation group_table :: "driver \<Rightarrow> SharedPageGroup list" where
  "group_table s \<equiv> SharedGroupTable (gDedupeContext s)"
abbreviation cow_table :: "driver \<Rightarrow> CowProtectedPage list" where
  "cow_table s \<equiv> CowProtectedTable (gDedupeContext s)"

section \<open>The opt-in registry\<close>

definition INVALID_HANDLE_VALUE :: HANDLE where
  "INVALID_HANDLE_VALUE = - 1"

definition RegisterOptInProcess :: "kenv \<Rightarrow> HANDLE \<Rightarrow> driver \<Rightarrow> (driver, NTSTATUS) outcome" where
  "RegisterOptInProcess k pid =
     (if pid = 0 \<or> pid = INVALID_HANDLE_VALUE then retO STATUS_INVALID_PARAMETER
      else case PsLookupProcessByProcessId k pid of (status, process) \<Rightarrow>
        if \<not> NT_SUCCESS status then retO status
        else if PsIsSystemProcess k process \<or> \<not> IsProcessPolicyAllowed k process
        then retO STATUS_INVALID_PARAMETER
        else seqO ExAcquireFastMutex
          (bindO (on_table ProcessTable ProcessTable_update
                    (rtl_insert (search_process k) CompareProcessEntries
                       (AllocateGenericTableEntry k sizeof_ProcessOptInEntry)
                       \<lparr>ProcessId = pid\<rparr>))
             (\<lambda>inserted. case inserted of
                None \<Rightarrow> seqO ExReleaseFastMutex (retO STATUS_INSUFFICIENT_RESOURCES)
              | Some _ \<Rightarrow> seqO ExReleaseFastMutex (retO STATUS_SUCCESS))))"

definition IsProcessOptedIn :: "kenv \<Rightarrow> HANDLE \<Rightarrow> driver \<Rightarrow> (driver, bool) outcome" where
  "IsProcessOptedIn k pid =
     seqO ExAcquireFastMutex
       (bindO (getO (\<lambda>s. rtl_lookup (search_process k) CompareProcessEntries
                           \<lparr>ProcessId = pid\<rparr> (process_table s)))
          (\<lambda>found. seqO ExReleaseFastMutex (retO (found \<noteq> None))))"

definition UnregisterOptInProcess :: "kenv \<Rightarrow> HANDLE \<Rightarrow> driver \<Rightarrow> (driver, NTSTATUS) outcome" where
  "UnregisterOptInProcess k pid =
     (if pid = 0 \<or> pid = INVALID_HANDLE_VALUE then retO STATUS_INVALID_PARAMETER
      else seqO ExAcquireFastMutex
        (bindO (getO (\<lambda>s. map_option ((!) (process_table s))
                   (rtl_lookup (search_process k) CompareProcessEntries
                      \<lparr>ProcessId = pid\<rparr> (process_table s))))
           (\<lambda>found. case found of
              None \<Rightarrow> seqO ExReleaseFastMutex (retO STATUS_NOT_FOUND)
            | Some entry \<Rightarrow>
                bindO (on_table ProcessTable ProcessTable_update
                         (rtl_delete (search_process k) CompareProcessEntries entry))
                  (\<lambda>removed. seqO ExReleaseFastMutex
                     (retO (if removed then STATUS_SUCCESS else STATUS_UNSUCCESSFUL))))))"

section \<open>The registry of copy-on-write protected frames\<close>

definition RegisterCowProtectedPage ::
  "kenv \<Rightarrow> PFN_NUMBER \<Rightarrow> driver \<Rightarrow> (driver, NTSTATUS) outcome" where
  "RegisterCowProtectedPage k pfn =
     seqO ExAcquireFastMutex
       (bindO (on_table CowProtectedTable CowProtectedTable_update
                 (rtl_insert (search_cow_protected k) CompareCowProtectedPages
                    (AllocateGenericTableEntry k sizeof_CowProtectedPage)
                    \<lparr>ProtectedPfn = pfn\<rparr>))
          (\<lambda>inserted. case inserted of
             None \<Rightarrow> seqO ExReleaseFastMutex (retO STATUS_INSUFFICIENT_RESOURCES)
           | Some _ \<Rightarrow> seqO ExReleaseFastMutex (retO STATUS_SUCCESS)))"

definition UnregisterCowProtectedPage ::
  "kenv \<Rightarrow> PFN_NUMBER \<Rightarrow> driver \<Rightarrow> (driver, NTSTATUS) outcome" where
  "UnregisterCowProtectedPage k pfn =
     seqO ExAcquireFastMutex
       (bindO (getO (\<lambda>s. map_option ((!) (cow_table s))
                  (rtl_lookup (search_cow_protected k) CompareCowProtectedPages
                     \<lparr>ProtectedPfn = pfn\<rparr> (cow_table s))))
          (\<lambda>found. case found of
             None \<Rightarrow> seqO ExReleaseFastMutex (retO STATUS_NOT_FOUND)
           | Some entry \<Rightarrow>
               bindO (on_table CowProtectedTable CowProtectedTable_update
                        (rtl_delete (search_cow_protected k) CompareCowProtectedPages entry))
                 (\<lambda>removed. seqO ExReleaseFastMutex
                    (retO (if removed then STATUS_SUCCESS else STATUS_UNSUCCESSFUL)))))"

definition IsCowProtectedPfn :: "kenv \<Rightarrow> PFN_NUMBER \<Rightarrow> driver \<Rightarrow> (driver, bool) outcome" where
  "IsCowProtectedPfn k pfn =
     seqO ExAcquireFastMutex
       (bindO (getO (\<lambda>s. rtl_lookup (search_cow_protected k) CompareCowProtectedPages
                           \<lparr>ProtectedPfn = pfn\<rparr> (cow_table s)))
          (\<lambda>found. seqO ExReleaseFastMutex (retO (found \<noteq> None))))"

definition IsCowProtectionActive :: "driver \<Rightarrow> (driver, bool) outcome" where
  "IsCowProtectionActive =
     seqO ExAcquireFastMutex
       (bindO (getO (\<lambda>s. 0 < length (cow_table s)))
          (\<lambda>active. seqO ExReleaseFastMutex (retO active)))"

section \<open>Frames of an entry\<close>

text \<open>The search of the frame array for a frame number.\<close>

definition frames_of :: "'a SharedPageGroup_scheme \<Rightarrow> PFN_NUMBER list" where
  "frames_of e = take (unat (PageFrameCount e)) (PageFrameNumbers e)"

text \<open>What both \<open>AddPageEntry\<close> and \<open>PromoteSharedPageGroup\<close> do to an element that was
  already in the table: append the frame unless it is present or the array is full, and
  count a reference unless it is present.\<close>

definition record_frame ::
  "PFN_NUMBER \<Rightarrow> 'a SharedPageGroup_scheme \<Rightarrow> 'a SharedPageGroup_scheme" where
  "record_frame pfn e =
     (if pfn \<in> set (frames_of e) then e
      else
        let e1 = (if unat (PageFrameCount e) < PfnTableSize
                  then e\<lparr>PageFrameNumbers :=
                           (PageFrameNumbers e)[unat (PageFrameCount e) := pfn],
                         PageFrameCount := PageFrameCount e + 1\<rparr>
                  else e)
        in e1\<lparr>ReferenceCount := ReferenceCount e1 + 1\<rparr>)"

text \<open>The inner loop of \<open>DemoteSharedPageGroup\<close>: close the gap at \<open>index\<close>.\<close>

definition close_gap :: "nat \<Rightarrow> nat \<Rightarrow> PFN_NUMBER list \<Rightarrow> PFN_NUMBER list" where
  "close_gap index count pfns = fold (\<lambda>m ps. ps[m := ps ! Suc m]) [index..<count - 1] pfns"

text \<open>The frame search and removal of \<open>DemoteSharedPageGroup\<close>; None if not found.\<close>

definition remove_frame :: "PFN_NUMBER \<Rightarrow> SharedPageGroup \<Rightarrow> SharedPageGroup option" where
  "remove_frame pfn g =
     (case List.find (\<lambda>i. PageFrameNumbers g ! i = pfn) [0..<unat (PageFrameCount g)] of
        None \<Rightarrow> None
      | Some index \<Rightarrow>
          let g1 = g\<lparr>PageFrameNumbers :=
                       close_gap index (unat (PageFrameCount g)) (PageFrameNumbers g),
                     PageFrameCount := PageFrameCount g - 1\<rparr>
          in Some (if 0 < ReferenceCount g1
                   then g1\<lparr>ReferenceCount := ReferenceCount g1 - 1\<rparr> else g1))"

section \<open>Shared page groups\<close>

definition new_group :: "PFN_NUMBER \<Rightarrow> DriverPageSignature \<Rightarrow> SharedPageGroup" where
  "new_group pfn sig =
     \<lparr>Signature = sig, ReferenceCount = 1, PageFrameCount = 1,
      PageFrameNumbers = pfn # replicate (PfnTableSize - 1) 0\<rparr>"

text \<open>The zero-initialised lookup record of \<open>DemoteSharedPageGroup\<close>.\<close>

definition lookup_group :: "DriverPageSignature \<Rightarrow> SharedPageGroup" where
  "lookup_group sig =
     \<lparr>Signature = sig, ReferenceCount = 0, PageFrameCount = 0,
      PageFrameNumbers = replicate PfnTableSize 0\<rparr>"

definition update_group :: "nat \<Rightarrow> SharedPageGroup \<Rightarrow> driver \<Rightarrow> (driver, unit) outcome" where
  "update_group i g = on_table SharedGroupTable SharedGroupTable_update (\<lambda>t. (t[i := g], ()))"

text \<open>The success path returns with the mutex still owned, as the source does.\<close>

definition PromoteSharedPageGroup ::
  "kenv \<Rightarrow> PFN_NUMBER \<Rightarrow> DriverPageSignature \<Rightarrow> driver \<Rightarrow> (driver, NTSTATUS) outcome" where
  "PromoteSharedPageGroup k pfn sig =
     seqO ExAcquireFastMutex
       (bindO (on_table SharedGroupTable SharedGroupTable_update
                 (rtl_insert (search_group k) (ComparePageEntries k)
                    (AllocateGenericTableEntry k sizeof_SharedPageGroup) (new_group pfn sig)))
          (\<lambda>inserted. case inserted of
             None \<Rightarrow> seqO ExReleaseFastMutex (retO STATUS_INSUFFICIENT_RESOURCES)
           | Some (i, newElement) \<Rightarrow>
               if newElement then retO STATUS_SUCCESS
               else bindO (getO (\<lambda>s. group_table s ! i))
                      (\<lambda>g. seqO (update_group i (record_frame pfn g)) (retO STATUS_SUCCESS))))"

text \<open>The first not-found path returns with the mutex still owned, as the source does.\<close>

definition DemoteSharedPageGroup ::
  "kenv \<Rightarrow> PFN_NUMBER \<Rightarrow> DriverPageSignature \<Rightarrow> driver \<Rightarrow> (driver, NTSTATUS) outcome" where
  "DemoteSharedPageGroup k pfn sig =
     seqO ExAcquireFastMutex
       (bindO (getO (\<lambda>s. rtl_lookup (search_group k) (ComparePageEntries k)
                           (lookup_group sig) (group_table s)))
          (\<lambda>group. case group of
             None \<Rightarrow> retO STATUS_NOT_FOUND
           | Some i \<Rightarrow> bindO (getO (\<lambda>s. group_table s ! i)) (\<lambda>g.
               case remove_frame pfn g of
                 None \<Rightarrow> seqO ExReleaseFastMutex (retO STATUS_NOT_FOUND)
               | Some g' \<Rightarrow>
                   seqO (update_group i g')
                     (seqO (if PageFrameCount g' = 0 \<or> ReferenceCount g' = 0
                            then bindO (on_table SharedGroupTable SharedGroupTable_update
                                   (rtl_delete (search_group k) (ComparePageEntries k) g'))
                                   (\<lambda>_. retO ())
                            else retO ())
                        (seqO ExReleaseFastMutex (retO STATUS_SUCCESS))))))"

definition MarkPageShared ::
  "kenv \<Rightarrow> PFN_NUMBER \<Rightarrow> DriverPageSignature \<Rightarrow> driver \<Rightarrow> (driver, NTSTATUS) outcome" where
  "MarkPageShared k pfn sig =
     bindO (PromoteSharedPageGroup k pfn sig) (\<lambda>status.
       if \<not> NT_SUCCESS status then retO status
       else bindO (RegisterCowProtectedPage k pfn) (\<lambda>status.
         if \<not> NT_SUCCESS status then retO status else retO STATUS_SUCCESS))"

definition UnmarkPageShared ::
  "kenv \<Rightarrow> PFN_NUMBER \<Rightarrow> DriverPageSignature \<Rightarrow> driver \<Rightarrow> (driver, NTSTATUS) outcome" where
  "UnmarkPageShared k pfn sig =
     bindO (DemoteSharedPageGroup k pfn sig) (\<lambda>status.
       if \<not> NT_SUCCESS status then retO status
       else bindO (UnregisterCowProtectedPage k pfn) (\<lambda>status.
         if \<not> NT_SUCCESS status then retO status else retO STATUS_SUCCESS))"

section \<open>AddPageEntry\<close>

definition new_page_entry :: "PFN_NUMBER \<Rightarrow> DriverPageSignature \<Rightarrow> PageEntry" where
  "new_page_entry pfn sig =
     \<lparr>Signature = sig, ReferenceCount = 1, PageFrameCount = 1,
      PageFrameNumbers = pfn # replicate (PfnTableSize - 1) 0, Shared = False\<rparr>"

definition update_page :: "nat \<Rightarrow> PageEntry \<Rightarrow> driver \<Rightarrow> (driver, unit) outcome" where
  "update_page i e = on_table PageTable PageTable_update (\<lambda>t. (t[i := e], ()))"

text \<open>The update of an entry that was already there, with the decision to promote it.\<close>

definition note_duplicate :: "PFN_NUMBER \<Rightarrow> PageEntry \<Rightarrow> PageEntry \<times> bool" where
  "note_duplicate pfn e =
     (let e1 = record_frame pfn e
      in if 2 \<le> ReferenceCount e1 \<and> \<not> Shared e1 then (e1\<lparr>Shared := True\<rparr>, True)
         else (e1, False))"

definition AddPageEntry ::
  "kenv \<Rightarrow> PFN_NUMBER \<Rightarrow> DriverPageSignature \<Rightarrow> driver \<Rightarrow> (driver, NTSTATUS) outcome" where
  "AddPageEntry k pfn sig =
     seqO ExAcquireFastMutex
       (bindO (on_table PageTable PageTable_update
                 (rtl_insert (search_page k) (ComparePageEntries k)
                    (AllocateGenericTableEntry k sizeof_PageEntry) (new_page_entry pfn sig)))
          (\<lambda>inserted. case inserted of
             None \<Rightarrow> seqO ExReleaseFastMutex (retO STATUS_INSUFFICIENT_RESOURCES)
           | Some (i, newElement) \<Rightarrow>
               if newElement then seqO ExReleaseFastMutex (retO STATUS_SUCCESS)
               else bindO (getO (\<lambda>s. page_table s ! i)) (\<lambda>e.
                 case note_duplicate pfn e of (e', promoteShared) \<Rightarrow>
                   seqO (update_page i e')
                     (seqO ExReleaseFastMutex
                       (if promoteShared
                        then bindO (MarkPageShared k (first_pfn e) (Signature e))
                               (\<lambda>_. retO STATUS_SUCCESS)
                        else retO STATUS_SUCCESS)))))"

section \<open>DrainDedupeState\<close>

text \<open>A deletion that finds nothing leaves the loop to repeat itself for ever: the next round
  meets the same first entry. In the states that the driver can be in, such a round changes
  nothing any more, or waits for the mutex that the first one has left owned.\<close>

definition hangO :: "driver \<Rightarrow> (driver, 'a) outcome" where
  "hangO s = Hang s"

text \<open>The loop of \<open>DrainDedupeState\<close>. Every completed round deletes one element, so a fuel
  of the table's size is enough.\<close>

fun drain_loop :: "kenv \<Rightarrow> nat \<Rightarrow> driver \<Rightarrow> (driver, unit) outcome" where
  "drain_loop k fuel s =
     (case page_table s of
        [] \<Rightarrow> Ret () s
      | entry # _ \<Rightarrow>
          (case fuel of
             0 \<Rightarrow> Spent
           | Suc n \<Rightarrow>
               seqO (if Shared entry
                     then forO (\<lambda>pfn. UnmarkPageShared k pfn (Signature entry)) (frames_of entry)
                     else retO ())
                 (bindO (on_table PageTable PageTable_update
                           (rtl_delete (search_page k) (ComparePageEntries k) entry))
                    (\<lambda>removed. if removed then drain_loop k n else hangO)) s))"

definition DrainDedupeState :: "kenv \<Rightarrow> driver \<Rightarrow> (driver, NTSTATUS) outcome" where
  "DrainDedupeState k s = seqO (drain_loop k (length (page_table s))) (retO STATUS_SUCCESS) s"

section \<open>The write-fault callback\<close>

text \<open>\<open>AllocatePrivateCopyForCowFault\<close> is declared and never defined: it is a parameter.\<close>

definition allocate_private_copy ::
  "kenv \<Rightarrow> PVOID \<Rightarrow> PFN_NUMBER \<Rightarrow> driver \<Rightarrow> (driver, NTSTATUS) outcome" where
  "allocate_private_copy k va pfn s =
     (case AllocatePrivateCopyForCowFault k va pfn s of (status, s') \<Rightarrow> Ret status s')"

definition frame_of_physical :: "u64 \<Rightarrow> PFN_NUMBER" where
  "frame_of_physical physical = signed_drop_bit PAGE_SHIFT physical"

definition CowFaultCallback ::
  "kenv \<Rightarrow> PVOID \<Rightarrow> bool \<Rightarrow> driver \<Rightarrow> (driver, NTSTATUS) outcome" where
  "CowFaultCallback k va writeAccess =
     (if va = 0 then retO STATUS_INVALID_PARAMETER
      else case MmGetPhysicalAddress k (CurrentProcess k) va of
        None \<Rightarrow> retO STATUS_INVALID_PARAMETER
      | Some physical \<Rightarrow>
          let pageFrameNumber = frame_of_physical physical in
          bindO (IsCowProtectedPfn k pageFrameNumber) (\<lambda>tracked.
            if \<not> tracked then retO STATUS_NOT_SUPPORTED
            else if \<not> writeAccess then retO STATUS_NOT_SUPPORTED
            else bindO (allocate_private_copy k va pageFrameNumber) (\<lambda>status.
              if \<not> NT_SUCCESS status then retO status
              else seqO (UnregisterCowProtectedPage k pageFrameNumber) (retO STATUS_SUCCESS))))"

end
