(* ===== verification/DriverCorrect.thy ===== *)
theory DriverCorrect
  imports DriverState
begin

text \<open>
  Correctness of the routines of \<open>DriverState\<close>: what each does on every branch when the
  mutex is free, that it waits for ever when the mutex is owned, how the frame arrays of
  entries and groups evolve, and which routines return without releasing the mutex.
\<close>

section \<open>Running the monad\<close>

lemma acquire_free [outcome_simps]:
  "\<not> gDedupeMutex s \<Longrightarrow> ExAcquireFastMutex s = Ret () (s\<lparr>gDedupeMutex := True\<rparr>)"
  by (simp add: ExAcquireFastMutex_def)

lemma acquire_owned [outcome_simps]: "gDedupeMutex s \<Longrightarrow> ExAcquireFastMutex s = Hang s"
  by (simp add: ExAcquireFastMutex_def)

lemma locked_owned [outcome_simps]: "gDedupeMutex s \<Longrightarrow> seqO ExAcquireFastMutex m s = Hang s"
  by (simp add: outcome_simps)

lemma locked_free [outcome_simps]:
  "\<not> gDedupeMutex s \<Longrightarrow> seqO ExAcquireFastMutex m s = m (s\<lparr>gDedupeMutex := True\<rparr>)"
  by (simp add: outcome_simps)

lemma release_seq [outcome_simps]:
  "seqO ExReleaseFastMutex m s = m (s\<lparr>gDedupeMutex := False\<rparr>)"
  by (simp add: ExReleaseFastMutex_def seqO_def bindO_def modO_def)

lemma bind_getO [outcome_simps]: "bindO (getO f) g s = g (f s) s"
  by (simp add: bindO_def getO_def)

lemma bind_retO [outcome_simps]: "bindO (retO a) g s = g a s"
  by (simp add: bindO_def retO_def)

lemma seq_retO [outcome_simps]: "seqO (retO a) m s = m s"
  by (simp add: seqO_def bindO_def retO_def)

lemma on_table_pair:
  "op (get (gDedupeContext s)) = (t, r) \<Longrightarrow>
     on_table get upd op s = Ret r (s\<lparr>gDedupeContext := upd (\<lambda>_. t) (gDedupeContext s)\<rparr>)"
  by (simp add: on_table_def)

lemma bind_on_table [outcome_simps]:
  "bindO (on_table get upd op) g s =
     g (snd (op (get (gDedupeContext s))))
       (s\<lparr>gDedupeContext := upd (\<lambda>_. fst (op (get (gDedupeContext s)))) (gDedupeContext s)\<rparr>)"
  by (simp add: on_table_def bindO_def split: prod.splits)

lemma seq_on_table [outcome_simps]:
  "seqO (on_table get upd op) m s =
     m (s\<lparr>gDedupeContext := upd (\<lambda>_. fst (op (get (gDedupeContext s)))) (gDedupeContext s)\<rparr>)"
  by (simp add: seqO_def outcome_simps)

lemma on_table_final [simp]:
  "final_state (on_table get upd op s) =
     Some (s\<lparr>gDedupeContext := upd (\<lambda>_. fst (op (get (gDedupeContext s)))) (gDedupeContext s)\<rparr>)"
  by (simp add: on_table_def split: prod.splits)

text \<open>Tables replaced in the global state.\<close>

definition with_processes :: "ProcessOptInEntry list \<Rightarrow> driver \<Rightarrow> driver" where
  "with_processes t s = s\<lparr>gDedupeContext := (gDedupeContext s)\<lparr>ProcessTable := t\<rparr>\<rparr>"
definition with_pages :: "PageEntry list \<Rightarrow> driver \<Rightarrow> driver" where
  "with_pages t s = s\<lparr>gDedupeContext := (gDedupeContext s)\<lparr>PageTable := t\<rparr>\<rparr>"
definition with_groups :: "SharedPageGroup list \<Rightarrow> driver \<Rightarrow> driver" where
  "with_groups t s = s\<lparr>gDedupeContext := (gDedupeContext s)\<lparr>SharedGroupTable := t\<rparr>\<rparr>"
definition with_cow :: "CowProtectedPage list \<Rightarrow> driver \<Rightarrow> driver" where
  "with_cow t s = s\<lparr>gDedupeContext := (gDedupeContext s)\<lparr>CowProtectedTable := t\<rparr>\<rparr>"

lemmas with_defs = with_processes_def with_pages_def with_groups_def with_cow_def

lemma driver_unlocked [simp]: "\<not> gDedupeMutex s \<Longrightarrow> s\<lparr>gDedupeMutex := False\<rparr> = s"
  by (cases s) simp

lemma with_processes_same [simp]: "with_processes (process_table s) s = s"
  by (cases s; cases "gDedupeContext s") (simp add: with_defs)

lemma with_cow_same [simp]: "with_cow (cow_table s) s = s"
  by (cases s; cases "gDedupeContext s") (simp add: with_defs)

section \<open>The opt-in registry\<close>

text \<open>Whether the kernel and the policy admit a process, and with which status they do not.\<close>

definition admission :: "kenv \<Rightarrow> HANDLE \<Rightarrow> NTSTATUS" where
  "admission k pid =
     (if pid = 0 \<or> pid = INVALID_HANDLE_VALUE then STATUS_INVALID_PARAMETER
      else let (status, process) = PsLookupProcessByProcessId k pid in
        if \<not> NT_SUCCESS status then status
        else if PsIsSystemProcess k process \<or> \<not> IsProcessPolicyAllowed k process
        then STATUS_INVALID_PARAMETER else STATUS_SUCCESS)"

lemma NT_SUCCESS_simps [simp]:
  "NT_SUCCESS STATUS_SUCCESS" "\<not> NT_SUCCESS STATUS_INVALID_PARAMETER"
  "\<not> NT_SUCCESS STATUS_INSUFFICIENT_RESOURCES" "\<not> NT_SUCCESS STATUS_NOT_FOUND"
  "\<not> NT_SUCCESS STATUS_UNSUCCESSFUL" "\<not> NT_SUCCESS STATUS_NOT_SUPPORTED"
  "\<not> NT_SUCCESS STATUS_BUFFER_TOO_SMALL" "\<not> NT_SUCCESS STATUS_BUFFER_OVERFLOW"
  "\<not> NT_SUCCESS STATUS_INVALID_DEVICE_REQUEST"
  by (simp_all add: NT_SUCCESS_def status_defs)

definition insert_process :: "kenv \<Rightarrow> HANDLE \<Rightarrow> ProcessOptInEntry list \<Rightarrow>
    ProcessOptInEntry list \<times> (nat \<times> bool) option" where
  "insert_process k pid = rtl_insert (search_process k) CompareProcessEntries
     (AllocateGenericTableEntry k sizeof_ProcessOptInEntry) \<lparr>ProcessId = pid\<rparr>"

lemma RegisterOptInProcess_eq:
  "RegisterOptInProcess k pid s =
     (if \<not> NT_SUCCESS (admission k pid) then Ret (admission k pid) s
      else if gDedupeMutex s then Hang s
      else case insert_process k pid (process_table s) of
             (t, None) \<Rightarrow> Ret STATUS_INSUFFICIENT_RESOURCES (with_processes t s)
           | (t, Some _) \<Rightarrow> Ret STATUS_SUCCESS (with_processes t s))"
  by (auto simp: RegisterOptInProcess_def admission_def insert_process_def outcome_simps
      with_defs Let_def split: prod.splits option.splits)

lemma UnregisterOptInProcess_eq:
  "UnregisterOptInProcess k pid s =
     (if pid = 0 \<or> pid = INVALID_HANDLE_VALUE then Ret STATUS_INVALID_PARAMETER s
      else if gDedupeMutex s then Hang s
      else case rtl_lookup (search_process k) CompareProcessEntries \<lparr>ProcessId = pid\<rparr>
                  (process_table s) of
             None \<Rightarrow> Ret STATUS_NOT_FOUND s
           | Some i \<Rightarrow>
               let (t, removed) = rtl_delete (search_process k) CompareProcessEntries
                     (process_table s ! i) (process_table s)
               in Ret (if removed then STATUS_SUCCESS else STATUS_UNSUCCESSFUL)
                    (with_processes t s))"
  by (auto simp: UnregisterOptInProcess_def outcome_simps with_defs Let_def
      split: prod.splits option.splits)

lemma IsProcessOptedIn_eq:
  "IsProcessOptedIn k pid s =
     (if gDedupeMutex s then Hang s
      else Ret (rtl_lookup (search_process k) CompareProcessEntries \<lparr>ProcessId = pid\<rparr>
                  (process_table s) \<noteq> None) s)"
  by (auto simp: IsProcessOptedIn_def outcome_simps)

lemma RegisterCowProtectedPage_eq:
  "RegisterCowProtectedPage k pfn s =
     (if gDedupeMutex s then Hang s
      else case rtl_insert (search_cow_protected k) CompareCowProtectedPages
                  (AllocateGenericTableEntry k sizeof_CowProtectedPage) \<lparr>ProtectedPfn = pfn\<rparr>
                  (cow_table s) of
             (t, None) \<Rightarrow> Ret STATUS_INSUFFICIENT_RESOURCES (with_cow t s)
           | (t, Some _) \<Rightarrow> Ret STATUS_SUCCESS (with_cow t s))"
  by (auto simp: RegisterCowProtectedPage_def outcome_simps with_defs
      split: prod.splits option.splits)

lemma UnregisterCowProtectedPage_eq:
  "UnregisterCowProtectedPage k pfn s =
     (if gDedupeMutex s then Hang s
      else case rtl_lookup (search_cow_protected k) CompareCowProtectedPages
                  \<lparr>ProtectedPfn = pfn\<rparr> (cow_table s) of
             None \<Rightarrow> Ret STATUS_NOT_FOUND s
           | Some i \<Rightarrow>
               let (t, removed) = rtl_delete (search_cow_protected k) CompareCowProtectedPages
                     (cow_table s ! i) (cow_table s)
               in Ret (if removed then STATUS_SUCCESS else STATUS_UNSUCCESSFUL) (with_cow t s))"
  by (auto simp: UnregisterCowProtectedPage_def outcome_simps with_defs Let_def
      split: prod.splits option.splits)

lemma IsCowProtectedPfn_eq:
  "IsCowProtectedPfn k pfn s =
     (if gDedupeMutex s then Hang s
      else Ret (rtl_lookup (search_cow_protected k) CompareCowProtectedPages
                  \<lparr>ProtectedPfn = pfn\<rparr> (cow_table s) \<noteq> None) s)"
  by (auto simp: IsCowProtectedPfn_def outcome_simps)

lemma IsCowProtectionActive_eq:
  "IsCowProtectionActive s =
     (if gDedupeMutex s then Hang s else Ret (cow_table s \<noteq> []) s)"
  by (auto simp: IsCowProtectionActive_def outcome_simps)


definition demo_driver :: driver where
  "demo_driver = static_driver"

lemma demo_driver_simps [simp]:
  "\<not> gDedupeMutex demo_driver" "process_table demo_driver = []" "page_table demo_driver = []"
  "group_table demo_driver = []" "cow_table demo_driver = []"
  by (simp_all add: demo_driver_def static_driver_def empty_context_def)

lemma admission_demo: "admission demo_kenv 77 = STATUS_SUCCESS"
  by (simp add: admission_def demo_kenv_def INVALID_HANDLE_VALUE_def IsProcessPolicyAllowed_def
      blacklisted_def ascii_lower_def)

text \<open>The same kernel with a library that follows the documentation.\<close>

definition demo_documented :: kenv where
  "demo_documented = demo_kenv
     \<lparr>search_process := documented_search, search_page := documented_search,
      search_group := documented_search, search_cow_protected := documented_search,
      search_cow_private := documented_search\<rparr>"

lemma admission_documented: "admission demo_documented 77 = STATUS_SUCCESS"
  by (simp add: admission_def demo_documented_def demo_kenv_def INVALID_HANDLE_VALUE_def
      IsProcessPolicyAllowed_def blacklisted_def ascii_lower_def)


section \<open>Frame arrays\<close>

definition wf_frames :: "'a SharedPageGroup_scheme \<Rightarrow> bool" where
  "wf_frames e \<longleftrightarrow> length (PageFrameNumbers e) = PfnTableSize \<and>
     unat (PageFrameCount e) \<le> PfnTableSize \<and> distinct (frames_of e)"

lemma length_frames_of:
  "wf_frames e \<Longrightarrow> length (frames_of e) = unat (PageFrameCount e)"
  by (simp add: wf_frames_def frames_of_def)

lemma unat_count_Suc:
  "unat c < PfnTableSize \<Longrightarrow> unat (c + 1 :: ULONG) = Suc (unat c)"
  by (simp add: PfnTableSize_def unat_word_ariths)

lemma frames_of_record_frame:
  assumes "wf_frames e"
  shows "frames_of (record_frame pfn e) =
    (if pfn \<in> set (frames_of e) \<or> unat (PageFrameCount e) = PfnTableSize then frames_of e
     else frames_of e @ [pfn])"
proof (cases "unat (PageFrameCount e) < PfnTableSize")
  case True
  with assms show ?thesis
    using unat_count_Suc [OF True]
    by (simp add: record_frame_def frames_of_def wf_frames_def Let_def take_Suc_conv_app_nth)
next
  case False
  with assms show ?thesis
    by (simp add: record_frame_def frames_of_def wf_frames_def Let_def)
qed

lemma wf_frames_record_frame:
  assumes "wf_frames e"
  shows "wf_frames (record_frame pfn e)"
proof -
  have "distinct (frames_of (record_frame pfn e))"
    using assms by (auto simp: frames_of_record_frame wf_frames_def)
  then show ?thesis
    using assms unat_count_Suc [of "PageFrameCount e"]
    by (auto simp: wf_frames_def record_frame_def Let_def)
qed

lemma close_gap_nth:
  assumes "index + n < length ps"
  shows "fold (\<lambda>m ps. ps[m := ps ! Suc m]) [index..<index + n] ps ! j =
    (if index \<le> j \<and> j < index + n then ps ! Suc j else ps ! j) \<and>
    length (fold (\<lambda>m ps. ps[m := ps ! Suc m]) [index..<index + n] ps) = length ps"
  using assms
proof (induction n arbitrary: j)
  case (Suc n)
  let ?f = "fold (\<lambda>m ps. ps[m := ps ! Suc m]) [index..<index + n] ps"
  have len: "length ?f = length ps" and nth: "\<And>j. ?f ! j =
      (if index \<le> j \<and> j < index + n then ps ! Suc j else ps ! j)"
    using Suc by simp_all
  show ?case
    using Suc.prems len by (auto simp: nth nth_list_update)
qed auto

lemma frames_after_close_gap:
  assumes "index < count" and "count \<le> length ps"
  shows "take (count - 1) (close_gap index count ps)
         = take index (take count ps) @ drop (Suc index) (take count ps)"
proof (rule nth_equalityI)
  have n: "index + (count - 1 - index) < length ps" using assms by simp
  note cg = close_gap_nth [OF n]
  have eq: "index + (count - 1 - index) = count - 1" using assms by simp
  show "length (take (count - 1) (close_gap index count ps))
      = length (take index (take count ps) @ drop (Suc index) (take count ps))"
    using assms cg unfolding close_gap_def eq by auto
  fix j assume "j < length (take (count - 1) (close_gap index count ps))"
  then have j: "j < count - 1" by simp
  show "take (count - 1) (close_gap index count ps) ! j
      = (take index (take count ps) @ drop (Suc index) (take count ps)) ! j"
    using assms j cg unfolding close_gap_def eq by (auto simp: nth_append)
qed

text \<open>Removing a frame: what \<open>DemoteSharedPageGroup\<close> does to the group it found.\<close>

lemma unat_minus_one: "c \<noteq> 0 \<Longrightarrow> unat (c - 1 :: ULONG) = unat c - 1"
  by (metis Suc_pred' diff_Suc_1 unat_gt_0 unat_minus_one)

lemma remove_frame_None_iff:
  assumes "wf_frames g"
  shows "remove_frame pfn g = None \<longleftrightarrow> pfn \<notin> set (frames_of g)"
  using assms
  by (auto simp: remove_frame_def find_upt_None_iff find_upt_Some_iff frames_of_def wf_frames_def in_set_conv_nth
      Let_def split: option.splits)

lemma remove_frame_Some:
  assumes wf: "wf_frames g" and rem: "remove_frame pfn g = Some g'"
  shows "frames_of g' = remove1 pfn (frames_of g) \<and> wf_frames g' \<and>
    PageFrameCount g' = PageFrameCount g - 1 \<and> Signature g' = Signature g \<and>
    ReferenceCount g' = (if 0 < ReferenceCount g then ReferenceCount g - 1 else 0)"
proof -
  let ?c = "unat (PageFrameCount g)" and ?ps = "PageFrameNumbers g"
  from rem obtain i where fi: "List.find (\<lambda>i. ?ps ! i = pfn) [0..<?c] = Some i"
    by (auto simp: remove_frame_def split: option.splits)
  then have i: "i < ?c" "?ps ! i = pfn" "\<forall>k < i. ?ps ! k \<noteq> pfn"
    and g': "g' = (let g1 = g\<lparr>PageFrameNumbers := close_gap i ?c ?ps,
                              PageFrameCount := PageFrameCount g - 1\<rparr>
      in if 0 < ReferenceCount g1 then g1\<lparr>ReferenceCount := ReferenceCount g1 - 1\<rparr> else g1)"
    using rem fi by (simp_all add: remove_frame_def find_upt_Some_iff Let_def)
  have c: "?c \<le> length ?ps" using wf by (simp add: wf_frames_def)
  have cnt: "unat (PageFrameCount g - 1) = ?c - 1"
    using i(1) by (intro unat_minus_one) auto
  have "remove1 pfn (frames_of g) = take i (take ?c ?ps) @ drop (Suc i) (take ?c ?ps)"
    unfolding frames_of_def by (rule remove1_first) (use i c in simp_all)
  also have "\<dots> = take (?c - 1) (close_gap i ?c ?ps)"
    using frames_after_close_gap [OF i(1) c] by simp
  also have "\<dots> = frames_of g'"
    using cnt by (simp add: g' frames_of_def Let_def)
  finally have fr: "frames_of g' = remove1 pfn (frames_of g)" by simp
  have n: "i + (?c - 1 - i) < length ?ps" using i(1) c by simp
  have "length (close_gap i ?c ?ps) = length ?ps"
    using close_gap_nth [OF n] i(1) by (simp add: close_gap_def)
  then have "wf_frames g'"
    using wf fr cnt by (auto simp: wf_frames_def g' Let_def)
  then show ?thesis using fr by (simp add: g' Let_def word_gt_0)
qed

text \<open>
  C33: recording a new frame in a group and demoting it again is a round trip on the group's
  books: the frame array lists the same frames in the same order, and the frame count and
  the reference count are what they were.
\<close>

theorem record_remove_roundtrip:
  assumes "wf_frames g" and "pfn \<notin> set (frames_of g)"
    and "unat (PageFrameCount g) < PfnTableSize" and "ReferenceCount g + 1 \<noteq> 0"
  shows "\<exists>g'. remove_frame pfn (record_frame pfn g) = Some g' \<and> frames_of g' = frames_of g \<and>
    PageFrameCount g' = PageFrameCount g \<and> ReferenceCount g' = ReferenceCount g"
proof -
  let ?r = "record_frame pfn g"
  have fr: "frames_of ?r = frames_of g @ [pfn]"
    using assms by (simp add: frames_of_record_frame)
  have wf: "wf_frames ?r" using assms(1) by (rule wf_frames_record_frame)
  have "remove_frame pfn ?r \<noteq> None" using fr by (simp add: remove_frame_None_iff [OF wf])
  then obtain g' where g': "remove_frame pfn ?r = Some g'" by auto
  have "PageFrameCount ?r = PageFrameCount g + 1" "ReferenceCount ?r = ReferenceCount g + 1"
    using assms by (simp_all add: record_frame_def Let_def)
  with remove_frame_Some [OF wf g'] g' fr assms show ?thesis
    by (auto simp: remove1_append word_neq_0_conv)
qed

lemma wf_frames_new_group: "wf_frames (new_group pfn sig)"
  by (simp add: wf_frames_def new_group_def frames_of_def PfnTableSize_def)

theorem record_remove_roundtrip_witness:
  "\<exists>g'. remove_frame 6 (record_frame 6 (new_group 5 \<lparr>Hash = 1, Fingerprint = 2\<rparr>)) = Some g' \<and>
     frames_of g' = [5]"
  using record_remove_roundtrip [OF wf_frames_new_group, of 6 5 "\<lparr>Hash = 1, Fingerprint = 2\<rparr>"]
  by (auto simp: new_group_def frames_of_def PfnTableSize_def)

text \<open>
  C34: once the frame array of an entry is full, a frame that is not in it is counted anew at
  every scan: the frames stay the same and the reference count grows without bound (and
  wraps), although the set of frames with these contents does not change.
\<close>

theorem full_entry_counts_rescans:
  assumes "unat (PageFrameCount e) = PfnTableSize" and "pfn \<notin> set (frames_of e)"
  shows "(record_frame pfn ^^ n) e = e\<lparr>ReferenceCount := ReferenceCount e + of_nat n\<rparr>"
  using assms
proof (induction n)
  case (Suc n)
  then show ?case
    by (simp add: record_frame_def frames_of_def Let_def algebra_simps)
qed simp

definition full_entry :: PageEntry where
  "full_entry = \<lparr>Signature = \<lparr>Hash = 1, Fingerprint = 1\<rparr>, ReferenceCount = 64,
     PageFrameCount = 64, PageFrameNumbers = map of_nat [0..<64], Shared = True\<rparr>"

theorem full_entry_counts_rescans_witness:
  "ReferenceCount ((record_frame 100 ^^ 5) full_entry) = 69"
proof -
  have "100 \<notin> set (frames_of full_entry)"
    unfolding full_entry_def frames_of_def by (simp add: upt_rec)
  then show ?thesis
    by (subst full_entry_counts_rescans) (simp_all add: full_entry_def PfnTableSize_def)
qed

section \<open>Promotion keeps the mutex\<close>

definition insert_group :: "kenv \<Rightarrow> PFN_NUMBER \<Rightarrow> DriverPageSignature \<Rightarrow> SharedPageGroup list \<Rightarrow>
    SharedPageGroup list \<times> (nat \<times> bool) option" where
  "insert_group k pfn sig = rtl_insert (search_group k) (ComparePageEntries k)
     (AllocateGenericTableEntry k sizeof_SharedPageGroup) (new_group pfn sig)"

definition insert_page :: "kenv \<Rightarrow> PFN_NUMBER \<Rightarrow> DriverPageSignature \<Rightarrow> PageEntry list \<Rightarrow>
    PageEntry list \<times> (nat \<times> bool) option" where
  "insert_page k pfn sig = rtl_insert (search_page k) (ComparePageEntries k)
     (AllocateGenericTableEntry k sizeof_PageEntry) (new_page_entry pfn sig)"

text \<open>The group table after a promotion.\<close>

definition promoted_groups ::
  "kenv \<Rightarrow> PFN_NUMBER \<Rightarrow> DriverPageSignature \<Rightarrow> SharedPageGroup list \<Rightarrow> SharedPageGroup list" where
  "promoted_groups k pfn sig t0 =
     (case insert_group k pfn sig t0 of
        (t, None) \<Rightarrow> t
      | (t, Some (i, new)) \<Rightarrow> if new then t else t[i := record_frame pfn (t ! i)])"

lemma PromoteSharedPageGroup_eq:
  "PromoteSharedPageGroup k pfn sig s =
     (if gDedupeMutex s then Hang s
      else if snd (insert_group k pfn sig (group_table s)) = None
      then Ret STATUS_INSUFFICIENT_RESOURCES
             (with_groups (promoted_groups k pfn sig (group_table s)) s)
      else Ret STATUS_SUCCESS
             ((with_groups (promoted_groups k pfn sig (group_table s)) s)\<lparr>gDedupeMutex := True\<rparr>))"
  by (auto simp: PromoteSharedPageGroup_def promoted_groups_def insert_group_def update_group_def
      outcome_simps with_defs split: prod.splits option.splits)

lemma MarkPageShared_eq:
  "MarkPageShared k pfn sig s =
     (if gDedupeMutex s then Hang s
      else if snd (insert_group k pfn sig (group_table s)) = None
      then Ret STATUS_INSUFFICIENT_RESOURCES
             (with_groups (promoted_groups k pfn sig (group_table s)) s)
      else Hang
             ((with_groups (promoted_groups k pfn sig (group_table s)) s)\<lparr>gDedupeMutex := True\<rparr>))"
  by (simp add: MarkPageShared_def bindO_def PromoteSharedPageGroup_eq RegisterCowProtectedPage_eq
      retO_def)

text \<open>
  \<open>PromoteSharedPageGroup\<close> gives the mutex back only when the group cannot be allocated:
  when it succeeds it returns with the mutex owned.\<close>

lemma promote_keeps_mutex:
  assumes "PromoteSharedPageGroup k pfn sig s = Ret status s'"
  shows "gDedupeMutex s' \<longleftrightarrow> status = STATUS_SUCCESS"
  using assms
  by (auto simp: PromoteSharedPageGroup_eq with_defs status_defs split: if_splits)

section \<open>AddPageEntry\<close>

lemma AddPageEntry_eq:
  "AddPageEntry k pfn sig s =
     (if gDedupeMutex s then Hang s
      else case insert_page k pfn sig (page_table s) of
        (t, None) \<Rightarrow> Ret STATUS_INSUFFICIENT_RESOURCES (with_pages t s)
      | (t, Some (i, True)) \<Rightarrow> Ret STATUS_SUCCESS (with_pages t s)
      | (t, Some (i, False)) \<Rightarrow>
          (case note_duplicate pfn (t ! i) of
             (e, False) \<Rightarrow> Ret STATUS_SUCCESS (with_pages (t[i := e]) s)
           | (e, True) \<Rightarrow>
               bindO (MarkPageShared k (first_pfn (t ! i)) (Signature (t ! i)))
                 (\<lambda>_. retO STATUS_SUCCESS) (with_pages (t[i := e]) s)))"
  by (auto simp: AddPageEntry_def insert_page_def update_page_def outcome_simps with_defs
      split: prod.splits option.splits bool.splits)

lemma insert_page_match:
  "search_page k (ComparePageEntries k) t (new_page_entry pfn sig) = Inl i \<Longrightarrow>
     insert_page k pfn sig t = (t, Some (i, False))"
  by (simp add: insert_page_def rtl_insert_def)

lemma insert_page_new:
  "search_page k (ComparePageEntries k) t (new_page_entry pfn sig) = Inr i \<Longrightarrow>
     insert_page k pfn sig t =
       (if AllocateGenericTableEntry k sizeof_PageEntry
        then (take i t @ new_page_entry pfn sig # drop i t, Some (i, True)) else (t, None))"
  by (simp add: insert_page_def rtl_insert_def)

lemma record_frame_new:
  assumes "wf_frames e" and "pfn \<notin> set (frames_of e)"
  shows "ReferenceCount (record_frame pfn e) = ReferenceCount e + 1"
    and "Signature (record_frame pfn e) = Signature e"
  using assms by (simp_all add: record_frame_def Let_def)

lemma Shared_record_frame [simp]: "Shared (record_frame pfn e) = Shared e"
  by (simp add: record_frame_def Let_def)

lemma frames_of_shared [simp]: "frames_of (e\<lparr>Shared := b\<rparr>) = frames_of e"
  by (simp add: frames_of_def)

text \<open>A page with contents not seen before gets an entry of its own that is not shared,
  lists just its frame, and touches no group and no protected frame; the mutex is released.\<close>

lemma AddPageEntry_first:
  assumes "\<not> gDedupeMutex s" and "AllocateGenericTableEntry k sizeof_PageEntry"
    and "search_page k (ComparePageEntries k) (page_table s) (new_page_entry pfn sig) = Inr i"
    and "i \<le> length (page_table s)"
  shows "\<exists>s'. AddPageEntry k pfn sig s = Ret STATUS_SUCCESS s' \<and> \<not> gDedupeMutex s' \<and>
    set (page_table s') = insert (new_page_entry pfn sig) (set (page_table s)) \<and>
    length (page_table s') = Suc (length (page_table s)) \<and>
    group_table s' = group_table s \<and> cow_table s' = cow_table s"
proof -
  have "set (page_table s) = set (take i (page_table s)) \<union> set (drop i (page_table s))"
    by (metis append_take_drop_id set_append)
  with assms show ?thesis
    by (auto simp: AddPageEntry_eq insert_page_new with_defs)
qed

text \<open>
  C3: the first time the scanner meets a second frame with contents already listed, it marks
  the entry shared, records the frame, creates the shared group and then never returns: the
  promotion keeps the mutex and the registration of the protected frame waits for it. The
  registry of protected frames is left as it was.
\<close>

theorem AddPageEntry_duplicate_blocks:
  assumes "\<not> gDedupeMutex s"
    and "search_page k (ComparePageEntries k) (page_table s) (new_page_entry pfn sig) = Inl i"
    and "i < length (page_table s)" and "wf_frames (page_table s ! i)"
    and "\<not> Shared (page_table s ! i)" and "ReferenceCount (page_table s ! i) = 1"
    and "frames_of (page_table s ! i) = [pfn0]" and "pfn \<noteq> pfn0"
    and "AllocateGenericTableEntry k sizeof_SharedPageGroup"
  shows "\<exists>s'. AddPageEntry k pfn sig s = Hang s' \<and> gDedupeMutex s' \<and>
    Shared (page_table s' ! i) \<and> frames_of (page_table s' ! i) = [pfn0, pfn] \<and>
    cow_table s' = cow_table s"
proof -
  let ?e = "page_table s ! i"
  have "unat (PageFrameCount ?e) = 1"
    using length_frames_of [OF assms(4)] assms(7) by simp
  then have fr: "frames_of (record_frame pfn ?e) = [pfn0, pfn]"
    using assms(4,7,8) by (simp add: frames_of_record_frame PfnTableSize_def)
  have "note_duplicate pfn ?e = ((record_frame pfn ?e)\<lparr>Shared := True\<rparr>, True)"
    using record_frame_new [OF assms(4), of pfn] assms(5-8)
    by (simp add: note_duplicate_def Let_def)
  moreover have ng: "snd (insert_group k f g t) \<noteq> None" for f g t
    using assms(9)
    by (simp add: insert_group_def rtl_insert_def split: sum.splits del: not_None_eq)
  ultimately show ?thesis
    using assms(1-3) fr
    by (simp add: AddPageEntry_eq insert_page_match MarkPageShared_eq bindO_def with_defs ng)
qed

text \<open>A driver that has seen frame 7 with contents of hash 1.\<close>

definition demo_driver1 :: driver where
  "demo_driver1 = with_pages [new_page_entry 7 \<lparr>Hash = 1, Fingerprint = 0\<rparr>] demo_driver"

lemma demo_driver1_simps [simp]:
  "\<not> gDedupeMutex demo_driver1" "cow_table demo_driver1 = []" "group_table demo_driver1 = []"
  "page_table demo_driver1 = [new_page_entry 7 \<lparr>Hash = 1, Fingerprint = 0\<rparr>]"
  by (simp_all add: demo_driver1_def with_defs)

theorem AddPageEntry_duplicate_blocks_witness:
  "\<exists>s'. AddPageEntry demo_kenv 9 \<lparr>Hash = 1, Fingerprint = 0\<rparr> demo_driver1 = Hang s'"
proof -
  have "search_page demo_kenv (ComparePageEntries demo_kenv) (page_table demo_driver1)
      (new_page_entry 9 \<lparr>Hash = 1, Fingerprint = 0\<rparr>) = Inl 0"
    by (simp add: demo_kenv_def linear_search_def ComparePageEntries_zero_iff new_page_entry_def
        ArePhysicalPagesIdentical_def first_pfn_def PAGE_SHIFT_def)
  from AddPageEntry_duplicate_blocks [OF _ this, of 7] show ?thesis
    by (auto simp: AllocateGenericTableEntry_def demo_kenv_def new_page_entry_def wf_frames_def
        frames_of_def PfnTableSize_def)
qed

end
