(* ===== verification/Bytes.thy ===== *)
theory Bytes
  imports Prelude
begin

text \<open>
  Little-endian layout of integers in byte buffers, reads and writes at an offset, and the
  round trips that the control interface between the driver and its clients relies on.
\<close>

fun le_encode :: "nat \<Rightarrow> nat \<Rightarrow> u8 list" where
  "le_encode 0 v = []"
| "le_encode (Suc n) v = of_nat (v mod 256) # le_encode n (v div 256)"

fun le_decode :: "u8 list \<Rightarrow> nat" where
  "le_decode [] = 0"
| "le_decode (b # bs) = unat b + 256 * le_decode bs"

lemma length_le_encode [simp]: "length (le_encode n v) = n"
  by (induction n arbitrary: v) auto

lemma le_decode_encode: "le_decode (le_encode n v) = v mod 256 ^ n"
proof (induction n arbitrary: v)
  case (Suc n)
  have "unat (of_nat (v mod 256) :: u8) = v mod 256"
    by (simp add: unat_of_nat take_bit_eq_mod)
  then show ?case
    using Suc.IH [of "v div 256"] by (simp add: mod_mult2_eq)
qed simp

text \<open>Reads and writes at an offset of a buffer.\<close>

definition read_nat :: "nat \<Rightarrow> nat \<Rightarrow> u8 list \<Rightarrow> nat" where
  "read_nat off n buf = le_decode (take n (drop off buf))"

definition write_bytes :: "nat \<Rightarrow> u8 list \<Rightarrow> u8 list \<Rightarrow> u8 list" where
  "write_bytes off bs buf = take off buf @ bs @ drop (off + length bs) buf"

definition read_u32 :: "nat \<Rightarrow> u8 list \<Rightarrow> u32" where
  "read_u32 off buf = of_nat (read_nat off 4 buf)"

definition read_u64 :: "nat \<Rightarrow> u8 list \<Rightarrow> u64" where
  "read_u64 off buf = of_nat (read_nat off 8 buf)"

definition write_u32 :: "nat \<Rightarrow> u32 \<Rightarrow> u8 list \<Rightarrow> u8 list" where
  "write_u32 off v = write_bytes off (le_encode 4 (unat v))"

definition write_u64 :: "nat \<Rightarrow> u64 \<Rightarrow> u8 list \<Rightarrow> u8 list" where
  "write_u64 off v = write_bytes off (le_encode 8 (unat v))"

lemma length_write_bytes [simp]:
  "off + length bs \<le> length buf \<Longrightarrow> length (write_bytes off bs buf) = length buf"
  by (simp add: write_bytes_def)

lemma length_write_u32 [simp]: "off + 4 \<le> length buf \<Longrightarrow> length (write_u32 off v buf) = length buf"
  by (simp add: write_u32_def)

lemma length_write_u64 [simp]: "off + 8 \<le> length buf \<Longrightarrow> length (write_u64 off v buf) = length buf"
  by (simp add: write_u64_def)

lemma read_write_same:
  "off + length bs \<le> length buf \<Longrightarrow> n = length bs \<Longrightarrow>
     read_nat off n (write_bytes off bs buf) = le_decode bs"
  by (simp add: read_nat_def write_bytes_def)

lemma nth_write_bytes_other:
  assumes "j < off \<or> off + length bs \<le> j" and "off + length bs \<le> length buf"
  shows "write_bytes off bs buf ! j = buf ! j"
proof (cases "j < off")
  case True
  then show ?thesis using assms(2) by (simp add: write_bytes_def nth_append)
next
  case False
  with assms obtain d where "j = off + length bs + d" by (metis le_iff_add)
  then show ?thesis using assms(2) by (simp add: write_bytes_def nth_append)
qed

lemma nth_write_bytes_same:
  "i < length bs \<Longrightarrow> off + length bs \<le> length buf \<Longrightarrow> write_bytes off bs buf ! (off + i) = bs ! i"
  by (simp add: write_bytes_def nth_append)

lemma nth_write_u32_other:
  "j < off \<or> off + 4 \<le> j \<Longrightarrow> off + 4 \<le> length buf \<Longrightarrow> write_u32 off v buf ! j = buf ! j"
  by (simp add: write_u32_def nth_write_bytes_other)

lemma take_drop_write_bytes:
  assumes "off' + n \<le> off \<or> off + length bs \<le> off'" and "off + length bs \<le> length buf"
  shows "take n (drop off' (write_bytes off bs buf)) = take n (drop off' buf)"
proof (rule nth_equalityI)
  show "length (take n (drop off' (write_bytes off bs buf))) = length (take n (drop off' buf))"
    using assms(2) by simp
  fix i assume "i < length (take n (drop off' (write_bytes off bs buf)))"
  then have i: "i < n" "off' + i < length buf" using assms(2) by auto
  have "write_bytes off bs buf ! (off' + i) = buf ! (off' + i)"
    by (rule nth_write_bytes_other) (use assms i in linarith)+
  with i assms(2) show
    "take n (drop off' (write_bytes off bs buf)) ! i = take n (drop off' buf) ! i"
    by simp
qed

lemma read_write_other:
  "off' + n \<le> off \<or> off + length bs \<le> off' \<Longrightarrow> off + length bs \<le> length buf \<Longrightarrow>
     read_nat off' n (write_bytes off bs buf) = read_nat off' n buf"
  unfolding read_nat_def by (simp only: take_drop_write_bytes)

lemma unat_less_256_power:
  "unat (v :: u32) < 256 ^ 4" "unat (w :: u64) < 256 ^ 8"
  using unsigned_less [of v, where ?'a = nat] unsigned_less [of w, where ?'a = nat] by simp_all

lemma read_u32_write_u32 [simp]: "off + 4 \<le> length buf \<Longrightarrow> read_u32 off (write_u32 off v buf) = v"
  using unat_less_256_power(1) [of v]
  by (simp add: read_u32_def write_u32_def read_write_same le_decode_encode)

lemma read_u64_write_u64 [simp]: "off + 8 \<le> length buf \<Longrightarrow> read_u64 off (write_u64 off v buf) = v"
  using unat_less_256_power(2) [of v]
  by (simp add: read_u64_def write_u64_def read_write_same le_decode_encode)

lemma read_u32_write_u32_other [simp]:
  "off' + 4 \<le> off \<or> off + 4 \<le> off' \<Longrightarrow> off + 4 \<le> length buf \<Longrightarrow>
     read_u32 off' (write_u32 off v buf) = read_u32 off' buf"
  by (simp add: read_u32_def write_u32_def read_write_other)

lemma read_u64_write_u64_other [simp]:
  "off' + 8 \<le> off \<or> off + 8 \<le> off' \<Longrightarrow> off + 8 \<le> length buf \<Longrightarrow>
     read_u64 off' (write_u64 off v buf) = read_u64 off' buf"
  by (simp add: read_u64_def write_u64_def read_write_other)

lemma read_u32_write_bytes_other [simp]:
  "off' + 4 \<le> off \<or> off + length bs \<le> off' \<Longrightarrow> off + length bs \<le> length buf \<Longrightarrow>
     read_u32 off' (write_bytes off bs buf) = read_u32 off' buf"
  by (simp add: read_u32_def read_write_other)

text \<open>A list of 64-bit values written one after the other.\<close>

fun write_u64s :: "nat \<Rightarrow> u64 list \<Rightarrow> u8 list \<Rightarrow> u8 list" where
  "write_u64s off [] buf = buf"
| "write_u64s off (v # vs) buf = write_u64s (off + 8) vs (write_u64 off v buf)"

lemma length_write_u64s [simp]:
  "off + 8 * length vs \<le> length buf \<Longrightarrow> length (write_u64s off vs buf) = length buf"
  by (induction vs arbitrary: off buf) auto

lemma read_write_u64s_below:
  "off' + 8 \<le> off \<Longrightarrow> off + 8 * length vs \<le> length buf \<Longrightarrow>
     read_u64 off' (write_u64s off vs buf) = read_u64 off' buf"
  by (induction vs arbitrary: off buf) auto

lemma read_write_u64s:
  "i < length vs \<Longrightarrow> off + 8 * length vs \<le> length buf \<Longrightarrow>
     read_u64 (off + 8 * i) (write_u64s off vs buf) = vs ! i"
proof (induction vs arbitrary: off buf i)
  case (Cons v vs)
  show ?case
  proof (cases i)
    case 0
    with Cons.prems show ?thesis by (simp add: read_write_u64s_below)
  next
    case (Suc j)
    with Cons.IH [of j "off + 8" "write_u64 off v buf"] Cons.prems show ?thesis
      by (simp add: add.assoc)
  qed
qed simp

end
