(* ===== verification/DriverIoctl.thy ===== *)
theory DriverIoctl
  imports DriverCorrect Bytes
begin

text \<open>
  The control interface of the driver (driver/deduper.cpp): the control codes of
  driver/deduper.h, the three queries and their reports in the output buffer, and the
  dispatch routine. All codes are \<open>METHOD_BUFFERED\<close>: input and output share the system
  buffer of the request.
\<close>

section \<open>Control codes\<close>

definition CTL_CODE :: "u32 \<Rightarrow> u32 \<Rightarrow> u32 \<Rightarrow> u32 \<Rightarrow> u32" where
  "CTL_CODE device function method access =
     or (or (or (push_bit 16 device) (push_bit 14 access)) (push_bit 2 function)) method"

definition FILE_DEVICE_UNKNOWN :: u32 where "FILE_DEVICE_UNKNOWN = 0x22"
definition METHOD_BUFFERED :: u32 where "METHOD_BUFFERED = 0"
definition FILE_ANY_ACCESS :: u32 where "FILE_ANY_ACCESS = 0"
definition FILE_READ_ACCESS :: u32 where "FILE_READ_ACCESS = 1"
definition FILE_WRITE_ACCESS :: u32 where "FILE_WRITE_ACCESS = 2"

definition IOCTL_REGISTER_PROCESS :: u32 where
  "IOCTL_REGISTER_PROCESS = CTL_CODE FILE_DEVICE_UNKNOWN 0x800 METHOD_BUFFERED FILE_WRITE_ACCESS"
definition IOCTL_UNREGISTER_PROCESS :: u32 where
  "IOCTL_UNREGISTER_PROCESS = CTL_CODE FILE_DEVICE_UNKNOWN 0x801 METHOD_BUFFERED FILE_WRITE_ACCESS"
definition IOCTL_QUERY_STATS :: u32 where
  "IOCTL_QUERY_STATS = CTL_CODE FILE_DEVICE_UNKNOWN 0x802 METHOD_BUFFERED FILE_READ_ACCESS"
definition IOCTL_LIST_PROCESSES :: u32 where
  "IOCTL_LIST_PROCESSES = CTL_CODE FILE_DEVICE_UNKNOWN 0x803 METHOD_BUFFERED FILE_READ_ACCESS"
definition IOCTL_QUERY_HEALTH :: u32 where
  "IOCTL_QUERY_HEALTH = CTL_CODE FILE_DEVICE_UNKNOWN 0x804 METHOD_BUFFERED FILE_READ_ACCESS"
definition IOCTL_DRAIN :: u32 where
  "IOCTL_DRAIN = CTL_CODE FILE_DEVICE_UNKNOWN 0x805 METHOD_BUFFERED FILE_WRITE_ACCESS"
definition IOCTL_INVOKE_COW_FAULT :: u32 where
  "IOCTL_INVOKE_COW_FAULT = CTL_CODE FILE_DEVICE_UNKNOWN 0x806 METHOD_BUFFERED FILE_ANY_ACCESS"

lemmas access_defs =
  CTL_CODE_def FILE_DEVICE_UNKNOWN_def METHOD_BUFFERED_def FILE_ANY_ACCESS_def
  FILE_READ_ACCESS_def FILE_WRITE_ACCESS_def

lemma ioctl_values:
  "IOCTL_REGISTER_PROCESS = 0x22A000" "IOCTL_UNREGISTER_PROCESS = 0x22A004"
  "IOCTL_QUERY_STATS = 0x226008" "IOCTL_LIST_PROCESSES = 0x22600C"
  "IOCTL_QUERY_HEALTH = 0x226010" "IOCTL_DRAIN = 0x22A014" "IOCTL_INVOKE_COW_FAULT = 0x222018"
  by (simp_all add: access_defs IOCTL_REGISTER_PROCESS_def IOCTL_UNREGISTER_PROCESS_def
      IOCTL_QUERY_STATS_def IOCTL_LIST_PROCESSES_def IOCTL_QUERY_HEALTH_def IOCTL_DRAIN_def
      IOCTL_INVOKE_COW_FAULT_def)

section \<open>Reports\<close>

text \<open>A query returns its status, the system buffer and the \<open>Information\<close> field.\<close>

type_synonym report = "NTSTATUS \<times> u8 list \<times> u64"

definition sizeof_DedupeDriverStats :: u32 where "sizeof_DedupeDriverStats = 12"
definition sizeof_DedupeDriverHealth :: u32 where "sizeof_DedupeDriverHealth = 28"

text \<open>The count of the enumeration loops: entries with more than one reference.\<close>

definition count_duplicates :: "PageEntry list \<Rightarrow> ULONG" where
  "count_duplicates t = foldl (\<lambda>n e. if 1 < ReferenceCount e then n + 1 else n) 0 t"

definition QueryDedupeStats ::
  "u8 list \<Rightarrow> ULONG \<Rightarrow> u64 \<Rightarrow> driver \<Rightarrow> (driver, report) outcome" where
  "QueryDedupeStats buf outputLength information =
     (if outputLength < sizeof_DedupeDriverStats
      then retO (STATUS_BUFFER_TOO_SMALL, buf, information)
      else seqO ExAcquireFastMutex
        (bindO (getO (\<lambda>s. write_u32 8 (count_duplicates (page_table s))
                           (write_u32 4 (of_nat (length (page_table s)))
                             (write_u32 0 (of_nat (length (process_table s))) buf))))
           (\<lambda>buf'. seqO ExReleaseFastMutex
              (retO (STATUS_SUCCESS, buf', ucast sizeof_DedupeDriverStats)))))"

text \<open>The flag at the end of \<open>DedupeDriverHealth\<close> is one byte; the three padding bytes
  after it are not written.\<close>

definition QueryDedupeHealth ::
  "u8 list \<Rightarrow> ULONG \<Rightarrow> u64 \<Rightarrow> driver \<Rightarrow> (driver, report) outcome" where
  "QueryDedupeHealth buf outputLength information =
     (if outputLength < sizeof_DedupeDriverHealth
      then retO (STATUS_BUFFER_TOO_SMALL, buf, information)
      else seqO ExAcquireFastMutex
        (bindO (getO (\<lambda>s.
             write_u32 8 (count_duplicates (page_table s))
               (write_bytes 24 [if gCowInterceptionActive s then 1 else 0]
                 (write_u32 20 (of_nat (length (CowPrivateTable (gDedupeContext s))))
                   (write_u32 16 (of_nat (length (cow_table s)))
                     (write_u32 12 (of_nat (length (group_table s)))
                       (write_u32 4 (of_nat (length (page_table s)))
                         (write_u32 0 (of_nat (length (process_table s))) buf))))))))
           (\<lambda>buf'. seqO ExReleaseFastMutex
              (retO (STATUS_SUCCESS, buf', ucast sizeof_DedupeDriverHealth)))))"

definition ListOptedInProcesses ::
  "u8 list \<Rightarrow> ULONG \<Rightarrow> u64 \<Rightarrow> driver \<Rightarrow> (driver, report) outcome" where
  "ListOptedInProcesses buf outputLength information =
     bindO (getO (\<lambda>s. of_nat (length (process_table s)) :: u64)) (\<lambda>totalProcesses.
       let requiredBytes = 8 + totalProcesses * 8 in
       if outputLength < 8 then retO (STATUS_BUFFER_TOO_SMALL, buf, 8)
       else
         let maxEntries = (ucast outputLength - 8) div (8 :: u64) in
         seqO ExAcquireFastMutex
           (bindO (getO (\<lambda>s. write_u64s 8
                      (map ProcessId (take (unat maxEntries) (process_table s))) buf))
              (\<lambda>buf'. seqO ExReleaseFastMutex
                 (retO (if ucast outputLength < requiredBytes then STATUS_BUFFER_OVERFLOW
                        else STATUS_SUCCESS,
                        write_u64 0 totalProcesses buf', requiredBytes)))))"

section \<open>Dispatch\<close>

text \<open>The parts of an I/O request packet that the driver reads and writes.\<close>

record irp =
  IoControlCode :: u32
  InputBufferLength :: ULONG
  OutputBufferLength :: ULONG
  SystemBuffer :: "u8 list"
  IrpStatus :: NTSTATUS
  Information :: u64

definition sizeof_HANDLE :: u32 where "sizeof_HANDLE = 8"
definition sizeof_CowFaultInvoke :: u32 where "sizeof_CowFaultInvoke = 16"
definition sizeof_NTSTATUS :: u32 where "sizeof_NTSTATUS = 4"

definition DriverCreateClose :: "irp \<Rightarrow> driver \<Rightarrow> (driver, NTSTATUS \<times> irp) outcome" where
  "DriverCreateClose p = retO (STATUS_SUCCESS, p\<lparr>IrpStatus := STATUS_SUCCESS, Information := 0\<rparr>)"

text \<open>The end of the dispatch routine, after the switch.\<close>

definition complete_request :: "NTSTATUS \<Rightarrow> irp \<Rightarrow> driver \<Rightarrow> (driver, NTSTATUS \<times> irp) outcome" where
  "complete_request status p =
     (let p1 = p\<lparr>IrpStatus := status\<rparr>
      in retO (status, if IoControlCode p = IOCTL_REGISTER_PROCESS
                       then p1\<lparr>Information := 0\<rparr> else p1))"

definition complete_report :: "irp \<Rightarrow> report \<Rightarrow> driver \<Rightarrow> (driver, NTSTATUS \<times> irp) outcome" where
  "complete_report p r =
     (case r of (status, buf, information) \<Rightarrow>
        complete_request status (p\<lparr>SystemBuffer := buf, Information := information\<rparr>))"

definition DriverDeviceControl :: "kenv \<Rightarrow> irp \<Rightarrow> driver \<Rightarrow> (driver, NTSTATUS \<times> irp) outcome" where
  "DriverDeviceControl k p =
     (if IoControlCode p = IOCTL_REGISTER_PROCESS then
        (if InputBufferLength p < sizeof_HANDLE then complete_request STATUS_BUFFER_TOO_SMALL p
         else bindO (RegisterOptInProcess k (read_u64 0 (SystemBuffer p)))
                (\<lambda>status. complete_request status p))
      else if IoControlCode p = IOCTL_UNREGISTER_PROCESS then
        (if InputBufferLength p < sizeof_HANDLE then complete_request STATUS_BUFFER_TOO_SMALL p
         else bindO (UnregisterOptInProcess k (read_u64 0 (SystemBuffer p)))
                (\<lambda>status. complete_request status p))
      else if IoControlCode p = IOCTL_QUERY_STATS then
        bindO (QueryDedupeStats (SystemBuffer p) (OutputBufferLength p) (Information p))
          (complete_report p)
      else if IoControlCode p = IOCTL_LIST_PROCESSES then
        bindO (ListOptedInProcesses (SystemBuffer p) (OutputBufferLength p) (Information p))
          (complete_report p)
      else if IoControlCode p = IOCTL_QUERY_HEALTH then
        bindO (QueryDedupeHealth (SystemBuffer p) (OutputBufferLength p) (Information p))
          (complete_report p)
      else if IoControlCode p = IOCTL_DRAIN then
        bindO (DrainDedupeState k) (\<lambda>status. complete_request status (p\<lparr>Information := 0\<rparr>))
      else if IoControlCode p = IOCTL_INVOKE_COW_FAULT then
        (if InputBufferLength p < sizeof_CowFaultInvoke \<or> OutputBufferLength p < sizeof_NTSTATUS
         then complete_request STATUS_BUFFER_TOO_SMALL p
         else bindO (CowFaultCallback k (read_u64 0 (SystemBuffer p)) (SystemBuffer p ! 8 \<noteq> 0))
                (\<lambda>callbackResult. complete_request STATUS_SUCCESS
                   (p\<lparr>SystemBuffer := write_u32 0 callbackResult (SystemBuffer p),
                      Information := ucast sizeof_NTSTATUS\<rparr>)))
      else complete_request STATUS_INVALID_DEVICE_REQUEST p)"

text \<open>What the I/O manager guarantees of a buffered request: the system buffer is as long as
  the longer of the two lengths.\<close>

definition buffered :: "irp \<Rightarrow> bool" where
  "buffered p \<longleftrightarrow>
     length (SystemBuffer p) = max (unat (InputBufferLength p)) (unat (OutputBufferLength p))"

section \<open>The queries in closed form\<close>

lemma count_duplicates_eq:
  "count_duplicates t = of_nat (length (filter (\<lambda>e. 1 < ReferenceCount e) t))"
proof -
  have "foldl (\<lambda>n e. if 1 < ReferenceCount e then n + 1 else n) m t =
      m + of_nat (length (filter (\<lambda>e. 1 < ReferenceCount e) t))" for m :: ULONG
    by (induction t arbitrary: m) simp_all
  then show ?thesis by (simp add: count_duplicates_def)
qed

lemma unat_u64_of_u32 [simp]: "unat (ucast (n :: u32) :: u64) = unat n"
  by transfer simp

lemma u32_le_unat: "(a :: u32) \<le> b \<longleftrightarrow> unat a \<le> unat b"
  by (rule word_le_nat_alt)

lemma QueryDedupeStats_eq:
  "QueryDedupeStats buf n info s =
     (if n < sizeof_DedupeDriverStats then Ret (STATUS_BUFFER_TOO_SMALL, buf, info) s
      else if gDedupeMutex s then Hang s
      else Ret (STATUS_SUCCESS,
             write_u32 8 (count_duplicates (page_table s))
               (write_u32 4 (of_nat (length (page_table s)))
                 (write_u32 0 (of_nat (length (process_table s))) buf)),
             ucast sizeof_DedupeDriverStats) s)"
  by (simp add: QueryDedupeStats_def outcome_simps)

lemma QueryDedupeHealth_eq:
  "QueryDedupeHealth buf n info s =
     (if n < sizeof_DedupeDriverHealth then Ret (STATUS_BUFFER_TOO_SMALL, buf, info) s
      else if gDedupeMutex s then Hang s
      else Ret (STATUS_SUCCESS,
             write_u32 8 (count_duplicates (page_table s))
               (write_bytes 24 [if gCowInterceptionActive s then 1 else 0]
                 (write_u32 20 (of_nat (length (CowPrivateTable (gDedupeContext s))))
                   (write_u32 16 (of_nat (length (cow_table s)))
                     (write_u32 12 (of_nat (length (group_table s)))
                       (write_u32 4 (of_nat (length (page_table s)))
                         (write_u32 0 (of_nat (length (process_table s))) buf)))))),
             ucast sizeof_DedupeDriverHealth) s)"
  by (simp add: QueryDedupeHealth_def outcome_simps)

lemma ListOptedInProcesses_eq:
  "ListOptedInProcesses buf n info s =
     (if n < 8 then Ret (STATUS_BUFFER_TOO_SMALL, buf, 8) s
      else if gDedupeMutex s then Hang s
      else let total = of_nat (length (process_table s)); required = 8 + total * 8 in
        Ret (if ucast n < required then STATUS_BUFFER_OVERFLOW else STATUS_SUCCESS,
             write_u64 0 total (write_u64s 8
               (map ProcessId (take (unat ((ucast n - 8) div (8 :: u64))) (process_table s))) buf),
             required) s)"
  by (simp add: ListOptedInProcesses_def outcome_simps Let_def)

lemma ioctl_codes_distinct:
  "distinct [IOCTL_REGISTER_PROCESS, IOCTL_UNREGISTER_PROCESS, IOCTL_QUERY_STATS,
     IOCTL_LIST_PROCESSES, IOCTL_QUERY_HEALTH, IOCTL_DRAIN, IOCTL_INVOKE_COW_FAULT]"
  by (simp add: ioctl_values)

lemma take_drop_write_u32:
  "off' + n \<le> off \<or> off + 4 \<le> off' \<Longrightarrow> off + 4 \<le> length buf \<Longrightarrow>
     take n (drop off' (write_u32 off v buf)) = take n (drop off' buf)"
  by (simp add: write_u32_def take_drop_write_bytes)

section \<open>Properties of the reports\<close>

lemma buffered_output:
  "buffered p \<Longrightarrow> unat (OutputBufferLength p) \<le> length (SystemBuffer p)"
  by (simp add: buffered_def)

text \<open>
  C31: the statistics request, with a free mutex and an output buffer of at least twelve
  bytes, succeeds without changing the driver, and the three counters that the client reads
  back are the number of opted-in processes, of page entries, and of page entries with more
  than one reference, each modulo two to the thirty-two; the rest of the buffer is untouched.
\<close>

theorem query_stats_report:
  assumes "\<not> gDedupeMutex s" and "IoControlCode p = IOCTL_QUERY_STATS"
    and "sizeof_DedupeDriverStats \<le> OutputBufferLength p" and "buffered p"
  shows "\<exists>p'. DriverDeviceControl k p s = Ret (STATUS_SUCCESS, p') s \<and>
    IrpStatus p' = STATUS_SUCCESS \<and> Information p' = 12 \<and>
    read_u32 0 (SystemBuffer p') = of_nat (length (process_table s)) \<and>
    read_u32 4 (SystemBuffer p') = of_nat (length (page_table s)) \<and>
    read_u32 8 (SystemBuffer p') =
      of_nat (length (filter (\<lambda>e. 1 < ReferenceCount e) (page_table s))) \<and>
    take n (drop 12 (SystemBuffer p')) = take n (drop 12 (SystemBuffer p))"
proof -
  have "12 \<le> length (SystemBuffer p)"
    using assms(3) buffered_output [OF assms(4)]
    by (simp add: u32_le_unat sizeof_DedupeDriverStats_def)
  then show ?thesis
    using assms
    by (simp add: DriverDeviceControl_def ioctl_values bindO_def QueryDedupeStats_eq not_less [symmetric]
        complete_report_def complete_request_def retO_def count_duplicates_eq
        sizeof_DedupeDriverStats_def take_drop_write_u32)
qed

text \<open>
  C30: the health request, with a free mutex and an output buffer of at least twenty-eight
  bytes, succeeds without changing the driver and reports the sizes of the five tables, the
  number of page entries with more than one reference and, in byte 24, whether
  copy-on-write interception is active. It claims twenty-eight bytes, but the last three
  are whatever the system buffer held before.
\<close>

theorem query_health_report:
  assumes "\<not> gDedupeMutex s" and "IoControlCode p = IOCTL_QUERY_HEALTH"
    and "sizeof_DedupeDriverHealth \<le> OutputBufferLength p" and "buffered p"
  shows "\<exists>p'. DriverDeviceControl k p s = Ret (STATUS_SUCCESS, p') s \<and>
    IrpStatus p' = STATUS_SUCCESS \<and> Information p' = 28 \<and>
    read_u32 0 (SystemBuffer p') = of_nat (length (process_table s)) \<and>
    read_u32 4 (SystemBuffer p') = of_nat (length (page_table s)) \<and>
    read_u32 8 (SystemBuffer p') =
      of_nat (length (filter (\<lambda>e. 1 < ReferenceCount e) (page_table s))) \<and>
    read_u32 12 (SystemBuffer p') = of_nat (length (group_table s)) \<and>
    read_u32 16 (SystemBuffer p') = of_nat (length (cow_table s)) \<and>
    read_u32 20 (SystemBuffer p') = of_nat (length (CowPrivateTable (gDedupeContext s))) \<and>
    SystemBuffer p' ! 24 = (if gCowInterceptionActive s then 1 else 0) \<and>
    take 3 (drop 25 (SystemBuffer p')) = take 3 (drop 25 (SystemBuffer p))"
proof -
  have len: "28 \<le> length (SystemBuffer p)"
    using assms(3) buffered_output [OF assms(4)]
    by (simp add: u32_le_unat sizeof_DedupeDriverHealth_def)
  have flag: "write_bytes 24 [b] buf ! 24 = b" if "28 \<le> length buf" for b :: u8 and buf
    using nth_write_bytes_same [of 0 "[b]" 24 buf] that by simp
  show ?thesis
    using assms len
    by (simp add: DriverDeviceControl_def ioctl_values bindO_def QueryDedupeHealth_eq
        complete_report_def complete_request_def retO_def count_duplicates_eq flag
        sizeof_DedupeDriverHealth_def take_drop_write_u32 take_drop_write_bytes nth_write_u32_other
        not_less [symmetric])
qed

lemma list_report:
  assumes "\<not> gDedupeMutex s" and "IoControlCode p = IOCTL_LIST_PROCESSES"
    and "8 \<le> OutputBufferLength p" and "buffered p"
    and small: "length (process_table s) < 2 ^ 60"
    and room: "room = (unat (OutputBufferLength p) - 8) div 8"
  shows "\<exists>status p'. DriverDeviceControl k p s = Ret (status, p') s \<and>
    unat (read_u64 0 (SystemBuffer p')) = length (process_table s) \<and>
    map (\<lambda>i. read_u64 (8 + 8 * i) (SystemBuffer p'))
        [0..<min room (length (process_table s))] =
      map ProcessId (take room (process_table s)) \<and>
    status = (if room < length (process_table s) then STATUS_BUFFER_OVERFLOW
              else STATUS_SUCCESS) \<and>
    (room < length (process_table s) \<longleftrightarrow> unat (OutputBufferLength p) < unat (Information p')) \<and>
    unat (Information p') = 8 + 8 * length (process_table s) \<and>
    length (SystemBuffer p') = length (SystemBuffer p)"
proof -
  let ?t = "process_table s" and ?n = "OutputBufferLength p" and ?b = "SystemBuffer p"
  let ?vs = "map ProcessId (take room ?t)"
  let ?buf = "write_u64 0 (of_nat (length ?t)) (write_u64s 8 ?vs ?b)"
  have n: "8 \<le> unat ?n" "unat ?n \<le> length ?b"
    using assms(3) buffered_output [OF assms(4)] by (simp_all add: u32_le_unat)
  have room': "unat ((ucast ?n - 8) div (8 :: u64)) = room"
    using n(1) by (simp add: unat_div unat_sub_if' word_le_nat_alt room)
  have count: "unat (of_nat (length ?t) :: u64) = length ?t"
    using small by (simp add: unat_of_nat_small)
  have req: "unat (8 + of_nat (length ?t) * 8 :: u64) = 8 + length ?t * 8"
  proof -
    have "(8 + of_nat (length ?t) * 8 :: u64) = of_nat (8 + length ?t * 8)" by simp
    then show ?thesis using small by (simp add: unat_of_nat_small del: of_nat_add of_nat_mult)
  qed
  have fit: "8 + 8 * length ?vs \<le> length ?b" using n by (simp add: room)
  have read: "read_u64 (8 + 8 * i) ?buf = ?vs ! i" if "i < length ?vs" for i
    using that fit read_write_u64s [of i ?vs 8 ?b] by simp
  have list: "map (\<lambda>i. read_u64 (8 + 8 * i) ?buf) [0..<min room (length ?t)] = ?vs"
    by (rule nth_equalityI) (use read in auto)
  have over: "room < length ?t \<longleftrightarrow> unat ?n < 8 + length ?t * 8"
    using n(1) room by auto
  have "DriverDeviceControl k p s = complete_report p
      (if room < length ?t then STATUS_BUFFER_OVERFLOW else STATUS_SUCCESS, ?buf,
       8 + of_nat (length ?t) * 8) s"
    using assms(1,2,3) room' over req
    by (simp add: DriverDeviceControl_def ioctl_values bindO_def ListOptedInProcesses_eq Let_def
        word_less_nat_alt not_less [symmetric])
  then show ?thesis
    using list over req count fit
    by (simp add: complete_report_def complete_request_def retO_def assms(2) ioctl_values)
qed

text \<open>
  C10: the list request, with a free mutex and room for the count, never changes the driver;
  the client reads back the number of opted-in processes and, in table order, as many of
  their ids as fit. It reports an overflow exactly when some did not fit, and then the
  \<open>Information\<close> field exceeds the length of the buffer.
\<close>

theorem list_processes_report:
  assumes "\<not> gDedupeMutex s" and "IoControlCode p = IOCTL_LIST_PROCESSES"
    and "8 \<le> OutputBufferLength p" and "buffered p"
    and small: "length (process_table s) < 2 ^ 60"
    and room: "room = (unat (OutputBufferLength p) - 8) div 8"
  shows "\<exists>status p'. DriverDeviceControl k p s = Ret (status, p') s \<and>
    unat (read_u64 0 (SystemBuffer p')) = length (process_table s) \<and>
    map (\<lambda>i. read_u64 (8 + 8 * i) (SystemBuffer p'))
        [0..<min room (length (process_table s))] =
      map ProcessId (take room (process_table s)) \<and>
    status = (if room < length (process_table s) then STATUS_BUFFER_OVERFLOW
              else STATUS_SUCCESS) \<and>
    (room < length (process_table s) \<longleftrightarrow> unat (OutputBufferLength p) < unat (Information p')) \<and>
    unat (Information p') = 8 + 8 * length (process_table s) \<and>
    length (SystemBuffer p') = length (SystemBuffer p)"
  using assms by (rule list_report)

text \<open>A request for the witnesses: the buffer holds the bytes of \<open>v\<close>.\<close>

definition demo_irp :: "u32 \<Rightarrow> u64 \<Rightarrow> irp" where
  "demo_irp code v = \<lparr>IoControlCode = code, InputBufferLength = 8, OutputBufferLength = 32,
     SystemBuffer = write_u64 0 v (replicate 32 0xAA), IrpStatus = 0, Information = 0\<rparr>"

lemma demo_irp_simps [simp]:
  "IoControlCode (demo_irp code v) = code" "InputBufferLength (demo_irp code v) = 8"
  "OutputBufferLength (demo_irp code v) = 32" "buffered (demo_irp code v)"
  "read_u64 0 (SystemBuffer (demo_irp code v)) = v"
  by (simp_all add: demo_irp_def buffered_def)

theorem query_stats_report_witness:
  "\<exists>p'. DriverDeviceControl demo_kenv (demo_irp IOCTL_QUERY_STATS 0) demo_driver
     = Ret (STATUS_SUCCESS, p') demo_driver \<and> Information p' = 12"
  using query_stats_report [of demo_driver "demo_irp IOCTL_QUERY_STATS 0" demo_kenv 20]
  by (auto simp: sizeof_DedupeDriverStats_def)

theorem query_health_report_witness:
  "\<exists>p'. DriverDeviceControl demo_kenv (demo_irp IOCTL_QUERY_HEALTH 0) demo_driver
     = Ret (STATUS_SUCCESS, p') demo_driver \<and> Information p' = 28"
  using query_health_report [of demo_driver "demo_irp IOCTL_QUERY_HEALTH 0" demo_kenv]
  by (auto simp: sizeof_DedupeDriverHealth_def)

text \<open>Four processes in a buffer of 32 bytes: three fit.\<close>

definition demo_processes :: driver where
  "demo_processes = with_processes (map (\<lambda>pid. \<lparr>ProcessId = pid\<rparr>) [10, 20, 30, 40]) demo_driver"

theorem list_processes_report_witness:
  "\<exists>p'. DriverDeviceControl demo_kenv (demo_irp IOCTL_LIST_PROCESSES 0) demo_processes
     = Ret (STATUS_BUFFER_OVERFLOW, p') demo_processes \<and>
     map (\<lambda>i. read_u64 (8 + 8 * i) (SystemBuffer p')) [0..<3] = [10, 20, 30]"
  using list_processes_report [of demo_processes "demo_irp IOCTL_LIST_PROCESSES 0" 3 demo_kenv]
  by (auto simp: demo_processes_def with_processes_def numeral_3_eq_3)

section \<open>Requests while the mutex is owned\<close>

text \<open>
  C32: once the mutex is owned and stays so, no request that needs it completes: a request
  other than a drain or a fault injection either never returns, or returns an error status
  and leaves the driver as it was.
\<close>

theorem owned_mutex_requests:
  assumes "gDedupeMutex s" and "IoControlCode p \<notin> {IOCTL_DRAIN, IOCTL_INVOKE_COW_FAULT}"
    and "DriverDeviceControl k p s \<noteq> Hang s"
  shows "\<exists>status p'. DriverDeviceControl k p s = Ret (status, p') s \<and> \<not> NT_SUCCESS status"
proof -
  note eqs = RegisterOptInProcess_eq UnregisterOptInProcess_eq QueryDedupeStats_eq
    QueryDedupeHealth_eq ListOptedInProcesses_eq
  show ?thesis
    using assms
    by (auto simp: DriverDeviceControl_def bindO_def eqs complete_report_def
        complete_request_def retO_def Let_def split: if_splits)
qed

theorem owned_mutex_requests_witness:
  "\<exists>status p'. DriverDeviceControl demo_kenv (demo_irp IOCTL_REGISTER_PROCESS 0)
      (demo_driver\<lparr>gDedupeMutex := True\<rparr>) =
    Ret (status, p') (demo_driver\<lparr>gDedupeMutex := True\<rparr>) \<and> \<not> NT_SUCCESS status"
proof (rule owned_mutex_requests)
  show "DriverDeviceControl demo_kenv (demo_irp IOCTL_REGISTER_PROCESS 0)
      (demo_driver\<lparr>gDedupeMutex := True\<rparr>) \<noteq> Hang (demo_driver\<lparr>gDedupeMutex := True\<rparr>)"
    by (simp add: DriverDeviceControl_def sizeof_HANDLE_def bindO_def RegisterOptInProcess_eq
        admission_def complete_request_def retO_def)
qed (simp_all add: ioctl_values)

end
