(* ===== verification/DriverScan.thy ===== *)
theory DriverScan
  imports DriverCorrect
begin

text \<open>
  The page scanner of driver/deduper.cpp: \<open>ScanProcessPages\<close> walks the committed regions of
  one process page by page and hands every readable page to \<open>AddPageEntry\<close>, and
  \<open>ScanOptedInProcesses\<close> does so for the opted-in processes. The two loops run over
  addresses that the kernel supplies, so they take fuel; how much is enough is proved from
  what \<open>ZwQueryVirtualMemory\<close> documents. References to process objects, the handle that is
  closed again and the debug prints (with the page counter they show) are not modelled.
\<close>

section \<open>One process\<close>

definition MEM_COMMIT :: u32 where "MEM_COMMIT = 0x1000"
definition PAGE_GUARD :: u32 where "PAGE_GUARD = 0x100"
definition PAGE_NOACCESS :: u32 where "PAGE_NOACCESS = 1"

definition scannable :: "MEMORY_BASIC_INFORMATION \<Rightarrow> bool" where
  "scannable mbi \<longleftrightarrow> State mbi = MEM_COMMIT \<and> Protect mbi AND PAGE_GUARD = 0 \<and>
     Protect mbi AND PAGE_NOACCESS = 0"

definition region_end :: "MEMORY_BASIC_INFORMATION \<Rightarrow> PVOID" where
  "region_end mbi = BaseAddress mbi + RegionSize mbi"

text \<open>The guarded body: the signature and the frame of a page, or None where one of the two
  steps faults and the page is ignored.\<close>

definition probe_page :: "kenv \<Rightarrow> u64 \<Rightarrow> PVOID \<Rightarrow> (PFN_NUMBER \<times> DriverPageSignature) option" where
  "probe_page k process va =
     (case UserPage k process va of
        None \<Rightarrow> None
      | Some words \<Rightarrow>
          (case MmGetPhysicalAddress k process va of
             None \<Rightarrow> None
           | Some physical \<Rightarrow>
               Some (frame_of_physical physical, MakePageSignatureFromUserPage words)))"

definition scan_one_page :: "kenv \<Rightarrow> u64 \<Rightarrow> PVOID \<Rightarrow> driver \<Rightarrow> (driver, unit) outcome" where
  "scan_one_page k process va =
     (case probe_page k process va of
        None \<Rightarrow> retO ()
      | Some (pfn, sig) \<Rightarrow> bindO (AddPageEntry k pfn sig) (\<lambda>_. retO ()))"

definition spentO :: "driver \<Rightarrow> (driver, 'a) outcome" where
  "spentO s = Spent"

fun scan_region_pages ::
  "kenv \<Rightarrow> u64 \<Rightarrow> nat \<Rightarrow> PVOID \<Rightarrow> PVOID \<Rightarrow> driver \<Rightarrow> (driver, unit) outcome" where
  "scan_region_pages k process fuel pageAddress regionEnd =
     (if pageAddress < regionEnd
      then case fuel of
             0 \<Rightarrow> spentO
           | Suc n \<Rightarrow> seqO (scan_one_page k process pageAddress)
                       (scan_region_pages k process n (pageAddress + PAGE_SIZE) regionEnd)
      else retO ())"

declare scan_region_pages.simps [simp del]

fun scan_regions ::
  "kenv \<Rightarrow> u64 \<Rightarrow> HANDLE \<Rightarrow> nat \<Rightarrow> nat \<Rightarrow> PVOID \<Rightarrow> driver \<Rightarrow> (driver, unit) outcome" where
  "scan_regions k process handle pageFuel fuel currentAddress =
     (if currentAddress < MM_HIGHEST_USER_ADDRESS k
      then case fuel of
             0 \<Rightarrow> spentO
           | Suc n \<Rightarrow>
               (case ZwQueryVirtualMemory k handle currentAddress of (status, mbi) \<Rightarrow>
                  if \<not> NT_SUCCESS status
                  then if status = STATUS_INVALID_PARAMETER then retO ()
                       else scan_regions k process handle pageFuel n (currentAddress + PAGE_SIZE)
                  else seqO (if scannable mbi
                             then scan_region_pages k process pageFuel
                                    (BaseAddress mbi) (region_end mbi)
                             else retO ())
                         (if RegionSize mbi = 0 then retO ()
                          else scan_regions k process handle pageFuel n (region_end mbi)))
      else retO ())"

declare scan_regions.simps [simp del]

definition ScanProcessPages ::
  "kenv \<Rightarrow> nat \<Rightarrow> nat \<Rightarrow> HANDLE \<Rightarrow> driver \<Rightarrow> (driver, NTSTATUS) outcome" where
  "ScanProcessPages k pageFuel fuel pid =
     (case PsLookupProcessByProcessId k pid of (status, process) \<Rightarrow>
        if \<not> NT_SUCCESS status then retO status
        else case ObOpenObjectByPointer k process of (status, processHandle) \<Rightarrow>
          if \<not> NT_SUCCESS status then retO status
          else seqO (scan_regions k process processHandle pageFuel fuel
                       (MM_LOWEST_USER_ADDRESS k))
                 (retO STATUS_SUCCESS))"

section \<open>All opted-in processes\<close>

definition MaxScannedProcesses :: nat where
  "MaxScannedProcesses = 256"

definition ScanOptedInProcesses ::
  "kenv \<Rightarrow> nat \<Rightarrow> nat \<Rightarrow> driver \<Rightarrow> (driver, NTSTATUS) outcome" where
  "ScanOptedInProcesses k pageFuel fuel =
     seqO ExAcquireFastMutex
       (bindO (getO (\<lambda>s. map ProcessId (take MaxScannedProcesses (process_table s))))
          (\<lambda>processIds. seqO ExReleaseFastMutex
             (seqO (forO (ScanProcessPages k pageFuel fuel) processIds)
                (retO STATUS_SUCCESS))))"

text \<open>\<open>PageScanThread\<close>: \<open>rounds\<close> bounds the rounds before the shutdown event is seen; each
  kernel answer list element is the kernel as one round finds it.\<close>

fun PageScanThread :: "(kenv \<times> bool) list \<Rightarrow> nat \<Rightarrow> nat \<Rightarrow> driver \<Rightarrow> (driver, unit) outcome" where
  "PageScanThread [] pageFuel fuel s = Spent"
| "PageScanThread ((k, signalled) # rounds) pageFuel fuel s =
     (if gShutdownEvent s \<or> signalled then Ret () s
      else seqO (ScanOptedInProcesses k pageFuel fuel)
             (PageScanThread rounds pageFuel fuel) s)"

section \<open>Which pages a scan visits\<close>

definition page_addresses :: "PVOID \<Rightarrow> nat \<Rightarrow> PVOID list" where
  "page_addresses a n = map (\<lambda>i. a + of_nat i * PAGE_SIZE) [0..<n]"

definition pages_in :: "PVOID \<Rightarrow> PVOID \<Rightarrow> nat" where
  "pages_in a e = (unat e - unat a + 4095) div 4096"

lemma page_addresses_Suc:
  "page_addresses a (Suc n) = a # page_addresses (a + PAGE_SIZE) n"
  by (simp add: page_addresses_def upt_conv_Cons map_Suc_upt [symmetric] comp_def algebra_simps
      del: upt_Suc)

lemma unat_add_page:
  "unat a + 4096 \<le> 2 ^ 64 - 1 \<Longrightarrow> unat (a + PAGE_SIZE :: PVOID) = unat a + 4096"
  by (simp add: PAGE_SIZE_def unat_word_ariths)

lemma ceil_div_Suc:
  fixes d :: nat
  assumes "0 < d"
  shows "(d + 4095) div 4096 = Suc ((d - 4096 + 4095) div 4096)"
proof -
  have "d + 4095 = (d - 1) + 4096" using assms by simp
  then have "(d + 4095) div 4096 = Suc ((d - 1) div 4096)" by (metis Suc_eq_plus1 div_add_self2
        numeral_neq_zero)
  also have "(d - 1) div 4096 = (d - 4096 + 4095) div 4096"
  proof (cases "d \<le> 4096")
    case True
    then show ?thesis using assms by simp
  next
    case False
    then have "d - 4096 + 4095 = d - 1" by simp
    then show ?thesis by simp
  qed
  finally show ?thesis .
qed

text \<open>The pages of a region that does not reach into the last page of the address space.\<close>

lemma scan_region_pages_eq:
  assumes "unat e + 4096 \<le> 2 ^ 64 - 1" and "pages_in a e \<le> fuel"
  shows "scan_region_pages k process fuel a e
         = forO (scan_one_page k process) (page_addresses a (pages_in a e))"
  using assms(2)
proof (induction fuel arbitrary: a)
  case 0
  then have "\<not> a < e"
    by (simp add: pages_in_def word_less_nat_alt)
  with 0 show ?case
    by (subst scan_region_pages.simps) (simp add: page_addresses_def)
next
  case (Suc n)
  show ?case
  proof (cases "a < e")
    case False
    then have "pages_in a e = 0" by (simp add: pages_in_def word_less_nat_alt)
    with False show ?thesis
      by (subst scan_region_pages.simps) (simp add: page_addresses_def)
  next
    case True
    then have lt: "unat a < unat e" by (simp add: word_less_nat_alt)
    then have nxt: "unat (a + PAGE_SIZE) = unat a + 4096"
      using assms(1) by (intro unat_add_page) simp
    have p: "pages_in a e = Suc (pages_in (a + PAGE_SIZE) e)"
      using ceil_div_Suc [of "unat e - unat a"] lt by (simp add: pages_in_def nxt)
    with Suc.prems have "pages_in (a + PAGE_SIZE) e \<le> n" by simp
    from Suc.IH [OF this] True show ?thesis
      unfolding p by (subst scan_region_pages.simps) (simp add: page_addresses_Suc)
  qed
qed

text \<open>The walk over the regions, as the list of the page addresses it hands out.\<close>

fun region_walk :: "kenv \<Rightarrow> HANDLE \<Rightarrow> nat \<Rightarrow> PVOID \<Rightarrow> PVOID list option" where
  "region_walk k handle fuel cur =
     (if cur < MM_HIGHEST_USER_ADDRESS k
      then case fuel of
             0 \<Rightarrow> None
           | Suc n \<Rightarrow>
               (case ZwQueryVirtualMemory k handle cur of (status, mbi) \<Rightarrow>
                  if \<not> NT_SUCCESS status
                  then if status = STATUS_INVALID_PARAMETER then Some []
                       else region_walk k handle n (cur + PAGE_SIZE)
                  else
                    let here = (if scannable mbi
                                then page_addresses (BaseAddress mbi)
                                       (pages_in (BaseAddress mbi) (region_end mbi))
                                else [])
                    in if RegionSize mbi = 0 then Some here
                       else map_option ((@) here) (region_walk k handle n (region_end mbi)))
      else Some [])"

declare region_walk.simps [simp del]

text \<open>What the kernel documents of \<open>ZwQueryVirtualMemory\<close>: a region that it reports for an
  address of the user range contains the address, does not wrap around and leaves two pages
  of room below the end of the 64-bit address space.\<close>

definition vm_ok :: "kenv \<Rightarrow> HANDLE \<Rightarrow> bool" where
  "vm_ok k handle \<longleftrightarrow> unat (MM_HIGHEST_USER_ADDRESS k) + 8192 \<le> 2 ^ 64 \<and>
     (\<forall>cur status mbi. cur < MM_HIGHEST_USER_ADDRESS k \<longrightarrow>
        ZwQueryVirtualMemory k handle cur = (status, mbi) \<longrightarrow> NT_SUCCESS status \<longrightarrow>
        unat cur < unat (region_end mbi) \<and> unat (region_end mbi) + 8192 \<le> 2 ^ 64 \<and>
        BaseAddress mbi \<le> cur)"

lemma vm_okD:
  assumes "vm_ok k handle" and "cur < MM_HIGHEST_USER_ADDRESS k"
  shows "unat cur + 8192 \<le> 2 ^ 64 - 1"
    and "ZwQueryVirtualMemory k handle cur = (status, mbi) \<Longrightarrow> NT_SUCCESS status \<Longrightarrow>
      unat cur < unat (region_end mbi) \<and> unat (region_end mbi) + 8192 \<le> 2 ^ 64 \<and>
      BaseAddress mbi \<le> cur"
  using assms by (auto simp: vm_ok_def word_less_nat_alt)

lemma scan_regions_eq:
  assumes vm: "vm_ok k handle" and "2 ^ 52 \<le> pageFuel"
  shows "(case region_walk k handle fuel cur of
            None \<Rightarrow> True
          | Some vas \<Rightarrow> scan_regions k process handle pageFuel fuel cur
                        = forO (scan_one_page k process) vas)"
proof (induction fuel arbitrary: cur)
  case 0
  then show ?case
    by (subst region_walk.simps, subst scan_regions.simps) simp
next
  case (Suc n)
  obtain status mbi where q: "ZwQueryVirtualMemory k handle cur = (status, mbi)"
    by (cases "ZwQueryVirtualMemory k handle cur")
  show ?case
  proof (cases "cur < MM_HIGHEST_USER_ADDRESS k \<and> NT_SUCCESS status")
    case False
    then show ?thesis
      using Suc.IH [of "cur + PAGE_SIZE"] q
      by (subst region_walk.simps, subst scan_regions.simps) (auto split: option.splits)
  next
    case True
    note ok = vm_okD(2) [OF vm _ q, of] True
    have fits: "unat (region_end mbi) + 4096 \<le> 2 ^ 64 - 1"
      using vm_okD(2) [OF vm _ q] True by auto
    moreover have "pages_in (BaseAddress mbi) (region_end mbi) \<le> pageFuel"
      using fits assms(2) by (simp add: pages_in_def)
    ultimately have here: "scan_region_pages k process pageFuel (BaseAddress mbi) (region_end mbi)
        = forO (scan_one_page k process)
            (page_addresses (BaseAddress mbi) (pages_in (BaseAddress mbi) (region_end mbi)))"
      by (rule scan_region_pages_eq)
    show ?thesis
      using Suc.IH [of "region_end mbi"] True q here
      by (subst region_walk.simps, subst scan_regions.simps)
        (auto simp: Let_def forO_append seqO_assoc split: option.splits)
  qed
qed

lemma region_walk_defined:
  assumes vm: "vm_ok k handle" and "unat (MM_HIGHEST_USER_ADDRESS k) \<le> unat cur + fuel"
  shows "region_walk k handle fuel cur \<noteq> None"
  using assms(2)
proof (induction fuel arbitrary: cur)
  case 0
  then show ?case by (subst region_walk.simps) (simp add: word_less_nat_alt)
next
  case (Suc n)
  obtain status mbi where q: "ZwQueryVirtualMemory k handle cur = (status, mbi)"
    by (cases "ZwQueryVirtualMemory k handle cur")
  show ?case
  proof (cases "cur < MM_HIGHEST_USER_ADDRESS k")
    case False
    then show ?thesis by (subst region_walk.simps) simp
  next
    case True
    have "unat (cur + PAGE_SIZE) = unat cur + 4096"
      using vm_okD(1) [OF vm True] by (intro unat_add_page) simp
    then have a: "region_walk k handle n (cur + PAGE_SIZE) \<noteq> None"
      using Suc.prems by (intro Suc.IH) simp
    have b: "region_walk k handle n (region_end mbi) \<noteq> None" if "NT_SUCCESS status"
      using Suc.prems vm_okD(2) [OF vm True q that] by (intro Suc.IH) simp
    show ?thesis
      using True q a b by (subst region_walk.simps) (auto simp: Let_def)
  qed
qed

text \<open>Every address that the walk hands out lies in a region it may read.\<close>

lemma page_addresses_range:
  assumes "va \<in> set (page_addresses a (pages_in a e))" and "unat e + 4096 \<le> 2 ^ 64 - 1"
  shows "a \<le> va \<and> va < e"
proof -
  from assms(1) obtain i where i: "i < pages_in a e" and va: "va = a + of_nat i * PAGE_SIZE"
    by (auto simp: page_addresses_def)
  from i have lt: "unat a + 4096 * i < unat e"
    by (simp add: pages_in_def)
  have "unat (of_nat i * PAGE_SIZE :: PVOID) = i * 4096"
    using lt assms(2) by (simp add: PAGE_SIZE_def unat_word_ariths unat_of_nat take_bit_nat_eq_self)
  then have "unat va = unat a + 4096 * i"
    using lt assms(2) by (simp add: va unat_word_ariths)
  with lt show ?thesis by (simp add: word_less_nat_alt word_le_nat_alt)
qed

lemma region_walk_range:
  assumes vm: "vm_ok k handle" and "region_walk k handle fuel cur = Some vas" and "va \<in> set vas"
  shows "\<exists>c status mbi. c < MM_HIGHEST_USER_ADDRESS k \<and>
    ZwQueryVirtualMemory k handle c = (status, mbi) \<and> NT_SUCCESS status \<and> scannable mbi \<and>
    BaseAddress mbi \<le> va \<and> va < region_end mbi"
  using assms(2,3)
proof (induction fuel arbitrary: cur vas)
  case 0
  then show ?case by (subst (asm) region_walk.simps) (auto split: if_splits)
next
  case (Suc n)
  obtain status mbi where q: "ZwQueryVirtualMemory k handle cur = (status, mbi)"
    by (cases "ZwQueryVirtualMemory k handle cur")
  show ?case
  proof (cases "cur < MM_HIGHEST_USER_ADDRESS k \<and> NT_SUCCESS status")
    case False
    with Suc q show ?thesis
      by (subst (asm) (2) region_walk.simps) (auto split: if_splits)
  next
    case True
    have fits: "unat (region_end mbi) + 4096 \<le> 2 ^ 64 - 1"
      using vm_okD(2) [OF vm _ q] True by auto
    consider (here) "scannable mbi"
        "va \<in> set (page_addresses (BaseAddress mbi) (pages_in (BaseAddress mbi) (region_end mbi)))"
      | (later) vs where "region_walk k handle n (region_end mbi) = Some vs" "va \<in> set vs"
      using Suc.prems True q
      by (subst (asm) region_walk.simps) (auto simp: Let_def split: if_splits)
    then show ?thesis
    proof cases
      case here
      with page_addresses_range [OF here(2) fits] True q show ?thesis by blast
    next
      case later
      then show ?thesis by (rule Suc.IH)
    qed
  qed
qed

text \<open>Routines that return with the mutex as they found it, or wait for an owned mutex.\<close>

definition returns_or_waits :: "(driver \<Rightarrow> (driver, 'a) outcome) \<Rightarrow> bool" where
  "returns_or_waits m \<longleftrightarrow> (\<forall>s. case m s of
     Ret _ s' \<Rightarrow> gDedupeMutex s' = gDedupeMutex s
   | Hang s' \<Rightarrow> gDedupeMutex s'
   | Spent \<Rightarrow> False)"

lemma returns_or_waits_basic: "returns_or_waits (retO a)"
  by (simp add: returns_or_waits_def retO_def)

lemma returns_or_waitsD:
  assumes "returns_or_waits m"
  shows "m s = Ret a s' \<Longrightarrow> gDedupeMutex s' = gDedupeMutex s"
    and "m s = Hang s' \<Longrightarrow> gDedupeMutex s'" and "m s \<noteq> Spent"
  using spec [OF assms [unfolded returns_or_waits_def], of s] by (auto split: outcome.splits)

lemma returns_or_waits_bindO:
  assumes m: "returns_or_waits m" and f: "\<And>a. returns_or_waits (f a)"
  shows "returns_or_waits (bindO m f)"
  unfolding returns_or_waits_def
proof
  fix s
  show "case bindO m f s of Ret _ s' \<Rightarrow> gDedupeMutex s' = gDedupeMutex s
    | Hang s' \<Rightarrow> gDedupeMutex s' | Spent \<Rightarrow> False"
  proof (cases "m s")
    case (Ret a t)
    with returns_or_waitsD(1) [OF m Ret] show ?thesis
      using returns_or_waitsD [OF f [of a], of t]
      by (cases "f a t") (simp_all add: bindO_def)
  next
    case (Hang t)
    with returns_or_waitsD(2) [OF m Hang] show ?thesis by (simp add: bindO_def)
  next
    case Spent
    with returns_or_waitsD(3) [OF m, of s] show ?thesis by simp
  qed
qed

lemma returns_or_waits_forO:
  "(\<And>x. returns_or_waits (f x)) \<Longrightarrow> returns_or_waits (forO f xs)"
  by (induction xs) (simp_all add: returns_or_waits_basic seqO_def returns_or_waits_bindO)

lemma returns_or_waits_AddPageEntry: "returns_or_waits (AddPageEntry k pfn sig)"
  unfolding returns_or_waits_def
  by (auto simp: AddPageEntry_eq MarkPageShared_eq bindO_def retO_def with_defs
      split: prod.splits option.splits bool.splits)

lemma returns_or_waits_scan_one_page: "returns_or_waits (scan_one_page k process va)"
  unfolding scan_one_page_def
  using returns_or_waits_bindO [OF returns_or_waits_AddPageEntry, of "\<lambda>_. retO ()"]
  by (auto simp: returns_or_waits_basic split: option.splits)

text \<open>
  C12: the page scan of a process. With the documented behaviour of
  \<open>ZwQueryVirtualMemory\<close> and fuel for the user range, \<open>ScanProcessPages\<close> on a process that
  can be looked up and opened walks a finite list of page addresses, in order, with the
  guarded page probe; every one of them lies inside a region that the kernel reported as
  committed and neither guarded nor inaccessible, starting below the highest user address.
  The loops always come to their end: the scan returns STATUS_SUCCESS with the mutex as it
  was, unless one of the pages makes it wait for an owned mutex, which then never ends; it
  never runs out of fuel.
\<close>

theorem ScanProcessPages_walk:
  assumes "PsLookupProcessByProcessId k pid = (st1, process)" and "NT_SUCCESS st1"
    and "ObOpenObjectByPointer k process = (st2, handle)" and "NT_SUCCESS st2"
    and "vm_ok k handle" and "2 ^ 52 \<le> pageFuel"
    and "unat (MM_HIGHEST_USER_ADDRESS k) \<le> unat (MM_LOWEST_USER_ADDRESS k) + fuel"
  shows "\<exists>vas. ScanProcessPages k pageFuel fuel pid
             = seqO (forO (scan_one_page k process) vas) (retO STATUS_SUCCESS) \<and>
    (\<forall>va \<in> set vas. \<exists>c status mbi. c < MM_HIGHEST_USER_ADDRESS k \<and>
       ZwQueryVirtualMemory k handle c = (status, mbi) \<and> NT_SUCCESS status \<and>
       scannable mbi \<and> BaseAddress mbi \<le> va \<and> va < region_end mbi) \<and>
    (\<forall>s. case ScanProcessPages k pageFuel fuel pid s of
        Ret status s' \<Rightarrow> status = STATUS_SUCCESS \<and> gDedupeMutex s' = gDedupeMutex s
      | Hang s' \<Rightarrow> gDedupeMutex s'
      | Spent \<Rightarrow> False)"
proof -
  from region_walk_defined [OF assms(5,7)] obtain vas
    where w: "region_walk k handle fuel (MM_LOWEST_USER_ADDRESS k) = Some vas" by auto
  from scan_regions_eq [OF assms(5,6), where fuel = fuel and process = process
      and cur = "MM_LOWEST_USER_ADDRESS k"] w
  have eq: "ScanProcessPages k pageFuel fuel pid
      = seqO (forO (scan_one_page k process) vas) (retO STATUS_SUCCESS)"
    using assms(1-4) by (simp add: ScanProcessPages_def)
  have w1: "returns_or_waits (forO (scan_one_page k process) vas)"
    by (rule returns_or_waits_forO) (rule returns_or_waits_scan_one_page)
  have "case ScanProcessPages k pageFuel fuel pid s of
      Ret status s' \<Rightarrow> status = STATUS_SUCCESS \<and> gDedupeMutex s' = gDedupeMutex s
    | Hang s' \<Rightarrow> gDedupeMutex s' | Spent \<Rightarrow> False" for s
  proof -
    from w1 have "case forO (scan_one_page k process) vas s of
        Ret _ s' \<Rightarrow> gDedupeMutex s' = gDedupeMutex s
      | Hang s' \<Rightarrow> gDedupeMutex s' | Spent \<Rightarrow> False"
      unfolding returns_or_waits_def by blast
    then show ?thesis
      unfolding eq seqO_def bindO_def by (simp add: retO_def split: outcome.splits)
  qed
  with eq region_walk_range [OF assms(5) w] show ?thesis by blast
qed

lemma vm_ok_demo: "vm_ok demo_kenv h"
  by (auto simp: vm_ok_def demo_kenv_def region_end_def word_less_nat_alt word_and_le2
      NT_SUCCESS_def STATUS_INVALID_PARAMETER_def split: if_splits)

theorem ScanProcessPages_walk_witness:
  "case ScanProcessPages demo_kenv (2 ^ 52) (2 ^ 47) 77 demo_driver of
     Ret status s' \<Rightarrow> status = STATUS_SUCCESS \<and> \<not> gDedupeMutex s'
   | Hang s' \<Rightarrow> gDedupeMutex s'
   | Spent \<Rightarrow> False"
proof -
  have lookup: "PsLookupProcessByProcessId demo_kenv 77 = (STATUS_SUCCESS, 77)"
    "ObOpenObjectByPointer demo_kenv 77 = (STATUS_SUCCESS, 77)"
    and range: "unat (MM_HIGHEST_USER_ADDRESS demo_kenv)
      \<le> unat (MM_LOWEST_USER_ADDRESS demo_kenv) + 2 ^ 47"
    by (simp_all add: demo_kenv_def)
  from ScanProcessPages_walk [OF lookup(1) _ lookup(2) _ vm_ok_demo order.refl range]
  have "case ScanProcessPages demo_kenv (2 ^ 52) (2 ^ 47) 77 demo_driver of
     Ret status s' \<Rightarrow> status = STATUS_SUCCESS \<and> gDedupeMutex s' = gDedupeMutex demo_driver
   | Hang s' \<Rightarrow> gDedupeMutex s'
   | Spent \<Rightarrow> False"
    using NT_SUCCESS_simps(1) by blast
  then show ?thesis by (simp split: outcome.splits)
qed

end
