(* ===== verification/DriverLifecycle.thy ===== *)
theory DriverLifecycle
  imports DriverIoctl DriverScan
begin

text \<open>
  Loading and unloading of the driver (driver/deduper.cpp): the initialisation and the
  teardown of the global state, the stub registration of the fault callback, the control
  device with its symbolic link, the scanner thread, and \<open>DriverEntry\<close> and \<open>DriverUnload\<close>.
\<close>

section \<open>The fault callback registration\<close>

definition RegisterCowFaultCallback :: "driver \<Rightarrow> (driver, NTSTATUS) outcome" where
  "RegisterCowFaultCallback =
     seqO (modO (\<lambda>s. s\<lparr>gCowFaultCallbackHandle := 1, gCowFaultCallbackRegistered := True\<rparr>))
       (retO STATUS_SUCCESS)"

definition UnregisterCowFaultCallback :: "driver \<Rightarrow> (driver, unit) outcome" where
  "UnregisterCowFaultCallback =
     seqO (modO (\<lambda>s. if gCowFaultCallbackHandle s \<noteq> 0 then s\<lparr>gCowFaultCallbackHandle := 0\<rparr> else s))
       (modO (\<lambda>s. s\<lparr>gCowFaultCallbackRegistered := False, gCowInterceptionActive := False\<rparr>))"

definition InitializeCowInterception :: "driver \<Rightarrow> (driver, NTSTATUS) outcome" where
  "InitializeCowInterception =
     bindO RegisterCowFaultCallback (\<lambda>status.
       if \<not> NT_SUCCESS status then retO status
       else seqO (modO (\<lambda>s. if gCowFaultCallbackRegistered s
                            then s\<lparr>gCowInterceptionActive := True\<rparr>
                            else s\<lparr>gCowInterceptionActive := False\<rparr>))
              (retO STATUS_SUCCESS))"

definition ShutdownCowInterception :: "driver \<Rightarrow> (driver, unit) outcome" where
  "ShutdownCowInterception =
     bindO (getO gCowFaultCallbackRegistered) (\<lambda>registered.
       seqO (if registered then UnregisterCowFaultCallback else retO ())
         (modO (\<lambda>s. s\<lparr>gCowInterceptionActive := False\<rparr>)))"

section \<open>The global state\<close>

definition InitializeDedupeDriver :: "driver \<Rightarrow> (driver, NTSTATUS) outcome" where
  "InitializeDedupeDriver =
     seqO (modO (\<lambda>s. s\<lparr>gShutdownEvent := False\<rparr>))
       (seqO (modO (\<lambda>s. s\<lparr>gDedupeContext := empty_context\<rparr>))
         (seqO (modO (\<lambda>s. s\<lparr>gDedupeMutex := False\<rparr>))
           (bindO InitializeCowInterception (\<lambda>status.
              if \<not> NT_SUCCESS status then retO status else retO STATUS_SUCCESS))))"

text \<open>The loops of \<open>ShutdownDedupeDriver\<close>, on one table: delete the first element as long
  as there is one. A deletion that fails leaves the loop to repeat itself for ever.\<close>

fun clear_loop :: "'e searcher \<Rightarrow> 'e compare \<Rightarrow> nat \<Rightarrow> 'e list \<Rightarrow> ('e list, unit) outcome" where
  "clear_loop srch cmp fuel [] = Ret () []"
| "clear_loop srch cmp 0 (e # t) = Spent"
| "clear_loop srch cmp (Suc n) (e # t) =
     (case rtl_delete srch cmp e (e # t) of
        (t', True) \<Rightarrow> clear_loop srch cmp n t'
      | (t', False) \<Rightarrow> Hang t')"

definition clear_table ::
  "(DedupeContext \<Rightarrow> 'e list) \<Rightarrow> (('e list \<Rightarrow> 'e list) \<Rightarrow> DedupeContext \<Rightarrow> DedupeContext) \<Rightarrow>
   'e searcher \<Rightarrow> 'e compare \<Rightarrow> driver \<Rightarrow> (driver, unit) outcome" where
  "clear_table get upd srch cmp s =
     (let t = get (gDedupeContext s);
          put = (\<lambda>t. s\<lparr>gDedupeContext := upd (\<lambda>_. t) (gDedupeContext s)\<rparr>)
      in case clear_loop srch cmp (length t) t of
           Ret _ t' \<Rightarrow> Ret () (put t')
         | Hang t' \<Rightarrow> Hang (put t')
         | Spent \<Rightarrow> Spent)"

definition ShutdownDedupeDriver :: "kenv \<Rightarrow> driver \<Rightarrow> (driver, unit) outcome" where
  "ShutdownDedupeDriver k =
     seqO ShutdownCowInterception
       (seqO (clear_table ProcessTable ProcessTable_update (search_process k) CompareProcessEntries)
         (seqO (clear_table PageTable PageTable_update (search_page k) (ComparePageEntries k))
           (seqO (clear_table SharedGroupTable SharedGroupTable_update (search_group k)
                    (ComparePageEntries k))
             (seqO (clear_table CowProtectedTable CowProtectedTable_update
                      (search_cow_protected k) CompareCowProtectedPages)
               (clear_table CowPrivateTable CowPrivateTable_update
                  (search_cow_private k) (CompareCowPrivatePages k))))))"

section \<open>Kernel objects\<close>

text \<open>
  The objects that loading creates outside the driver's globals: the control device, the
  symbolic link, and the scanner thread. The scanner is waiting between two passes, or
  stuck inside a pass, or has ended.
\<close>

datatype scanner = NoScanner | Waiting | Stuck | Ended

record world =
  globals :: driver
  DeviceExists :: bool
  LinkExists :: bool
  Scanner :: scanner

text \<open>What the object manager and the process manager answer during loading;
  \<open>IoCreateSymbolicLink\<close> is asked a second time after a name collision.\<close>

record kload =
  IoCreateDevice :: NTSTATUS
  IoCreateSymbolicLink :: NTSTATUS
  IoCreateSymbolicLink_again :: NTSTATUS
  PsCreateSystemThread :: NTSTATUS
  ObReferenceObjectByHandle :: NTSTATUS

definition on_globals :: "(driver \<Rightarrow> (driver, 'a) outcome) \<Rightarrow> world \<Rightarrow> (world, 'a) outcome" where
  "on_globals m w =
     (case m (globals w) of
        Ret a s \<Rightarrow> Ret a (w\<lparr>globals := s\<rparr>)
      | Hang s \<Rightarrow> Hang (w\<lparr>globals := s\<rparr>)
      | Spent \<Rightarrow> Spent)"

definition create_link :: "NTSTATUS \<Rightarrow> world \<Rightarrow> (world, NTSTATUS) outcome" where
  "create_link status =
     seqO (modO (\<lambda>w. if NT_SUCCESS status then w\<lparr>LinkExists := True\<rparr> else w)) (retO status)"

definition IoDeleteSymbolicLink :: "world \<Rightarrow> (world, unit) outcome" where
  "IoDeleteSymbolicLink = modO (\<lambda>w. w\<lparr>LinkExists := False\<rparr>)"

definition IoDeleteDevice :: "world \<Rightarrow> (world, unit) outcome" where
  "IoDeleteDevice = modO (\<lambda>w. w\<lparr>DeviceExists := False\<rparr>)"

definition set_device :: "bool \<Rightarrow> world \<Rightarrow> (world, unit) outcome" where
  "set_device b = modO (\<lambda>w. w\<lparr>globals := (globals w)\<lparr>gDeviceObject := b\<rparr>\<rparr>)"

definition CreateControlDevice :: "kload \<Rightarrow> world \<Rightarrow> (world, NTSTATUS) outcome" where
  "CreateControlDevice io =
     (if \<not> NT_SUCCESS (IoCreateDevice io) then retO (IoCreateDevice io)
      else seqO (modO (\<lambda>w. w\<lparr>DeviceExists := True\<rparr>)) (seqO (set_device True)
        (bindO (create_link (IoCreateSymbolicLink io)) (\<lambda>status.
           if \<not> NT_SUCCESS status then
             (if status = STATUS_OBJECT_NAME_COLLISION \<or> status = STATUS_OBJECT_NAME_EXISTS
              then seqO IoDeleteSymbolicLink
                (bindO (create_link (IoCreateSymbolicLink_again io)) (\<lambda>status.
                   if NT_SUCCESS status then retO STATUS_SUCCESS
                   else seqO IoDeleteDevice (seqO (set_device False) (retO status))))
              else seqO IoDeleteDevice (seqO (set_device False) (retO status)))
           else retO STATUS_SUCCESS))))"

definition DestroyControlDevice :: "world \<Rightarrow> (world, unit) outcome" where
  "DestroyControlDevice =
     bindO (getO (\<lambda>w. gDeviceObject (globals w))) (\<lambda>present.
       if present then seqO IoDeleteSymbolicLink (seqO IoDeleteDevice (set_device False))
       else retO ())"

section \<open>The scanner thread\<close>

definition StartPageScanner :: "kload \<Rightarrow> world \<Rightarrow> (world, NTSTATUS) outcome" where
  "StartPageScanner io =
     (if \<not> NT_SUCCESS (PsCreateSystemThread io) then retO (PsCreateSystemThread io)
      else seqO (modO (\<lambda>w. w\<lparr>Scanner := Waiting\<rparr>))
        (seqO (modO (\<lambda>w. if NT_SUCCESS (ObReferenceObjectByHandle io)
                         then w\<lparr>globals := (globals w)\<lparr>gScanThread := True\<rparr>\<rparr> else w))
          (retO (ObReferenceObjectByHandle io))))"

text \<open>One round of the thread: the delay, a pass over the opted-in processes, and the test
  of the shutdown event that ends the loop.\<close>

definition scanner_round :: "kenv \<Rightarrow> nat \<Rightarrow> nat \<Rightarrow> world \<Rightarrow> (world, unit) outcome" where
  "scanner_round k pageFuel fuel w =
     (case on_globals (ScanOptedInProcesses k pageFuel fuel) w of
        Ret _ w' \<Rightarrow> Ret () (if gShutdownEvent (globals w') then w'\<lparr>Scanner := Ended\<rparr> else w')
      | Hang w' \<Rightarrow> Hang (w'\<lparr>Scanner := Stuck\<rparr>)
      | Spent \<Rightarrow> Spent)"

text \<open>Waiting for the thread: it is in its delay and makes one more pass before it tests the
  event, or it is stuck in a pass, or it has ended.\<close>

definition wait_for_scanner :: "kenv \<Rightarrow> nat \<Rightarrow> nat \<Rightarrow> world \<Rightarrow> (world, unit) outcome" where
  "wait_for_scanner k pageFuel fuel w =
     (case Scanner w of
        Waiting \<Rightarrow> scanner_round k pageFuel fuel w
      | Stuck \<Rightarrow> Hang w
      | _ \<Rightarrow> Ret () w)"

definition StopPageScanner :: "kenv \<Rightarrow> nat \<Rightarrow> nat \<Rightarrow> world \<Rightarrow> (world, unit) outcome" where
  "StopPageScanner k pageFuel fuel =
     seqO (modO (\<lambda>w. w\<lparr>globals := (globals w)\<lparr>gShutdownEvent := True\<rparr>\<rparr>))
       (bindO (getO (\<lambda>w. gScanThread (globals w))) (\<lambda>present.
          if present
          then seqO (wait_for_scanner k pageFuel fuel)
                 (modO (\<lambda>w. w\<lparr>globals := (globals w)\<lparr>gScanThread := False\<rparr>\<rparr>))
          else retO ()))"

section \<open>Entry and unload\<close>

definition DriverEntry :: "kenv \<Rightarrow> kload \<Rightarrow> world \<Rightarrow> (world, NTSTATUS) outcome" where
  "DriverEntry k io =
     bindO (on_globals InitializeDedupeDriver) (\<lambda>status.
       if \<not> NT_SUCCESS status then retO status
       else bindO (CreateControlDevice io) (\<lambda>status.
         if \<not> NT_SUCCESS status
         then seqO (on_globals (ShutdownDedupeDriver k)) (retO status)
         else bindO (StartPageScanner io) (\<lambda>status.
           if \<not> NT_SUCCESS status
           then seqO DestroyControlDevice
                  (seqO (on_globals (ShutdownDedupeDriver k)) (retO status))
           else retO STATUS_SUCCESS)))"

definition DriverUnload :: "kenv \<Rightarrow> nat \<Rightarrow> nat \<Rightarrow> world \<Rightarrow> (world, unit) outcome" where
  "DriverUnload k pageFuel fuel =
     seqO (StopPageScanner k pageFuel fuel)
       (seqO DestroyControlDevice (on_globals (ShutdownDedupeDriver k)))"

end
