(* ===== verification/DriverSystem.thy ===== *)
theory DriverSystem
  imports DriverLifecycle
begin

text \<open>
  The driver as a system: loading, control requests, scanner rounds and unloading as a step
  relation over the world, what every reachable state satisfies, and what loading, draining
  and unloading achieve.
\<close>

section \<open>Clearing a table\<close>

text \<open>Whatever the library answers, clearing only ever takes elements away.\<close>

lemma delete_subset: "set (fst (rtl_delete srch cmp e t)) \<subseteq> set t"
  by (auto simp: rtl_delete_def split: sum.splits dest: in_set_takeD in_set_dropD)

lemma clear_loop_subset:
  "final_state (clear_loop srch cmp fuel t) = Some t' \<Longrightarrow> set t' \<subseteq> set t"
proof (induction fuel arbitrary: t)
  case 0
  then show ?case by (cases t) auto
next
  case (Suc n)
  show ?case
  proof (cases t)
    case (Cons e u)
    obtain v removed where d: "rtl_delete srch cmp e t = (v, removed)" by fastforce
    then have "set v \<subseteq> set t" using delete_subset [of srch cmp e t] by simp
    with Suc.IH [of v] Suc.prems Cons d show ?thesis by (cases removed) auto
  qed (use Suc.prems in simp)
qed

lemma clear_table_final:
  assumes "final_state (clear_table get upd srch cmp s) = Some s'"
  shows "\<exists>t. set t \<subseteq> set (get (gDedupeContext s)) \<and>
    s' = s\<lparr>gDedupeContext := upd (\<lambda>_. t) (gDedupeContext s)\<rparr>"
proof -
  let ?t = "get (gDedupeContext s)"
  from assms obtain t where "final_state (clear_loop srch cmp (length ?t) ?t) = Some t"
    and "s' = s\<lparr>gDedupeContext := upd (\<lambda>_. t) (gDedupeContext s)\<rparr>"
    by (cases "clear_loop srch cmp (length ?t) ?t") (auto simp: clear_table_def Let_def)
  with clear_loop_subset show ?thesis by blast
qed

lemma clear_table_empty:
  "get (gDedupeContext s) = [] \<Longrightarrow> clear_table get upd srch cmp s =
     Ret () (s\<lparr>gDedupeContext := upd (\<lambda>_. []) (gDedupeContext s)\<rparr>)"
  by (simp add: clear_table_def Let_def)

text \<open>With the documented library a table that is not empty is never cleared.\<close>

context self_less
begin

lemma clear_loop_hangs:
  "Suc (length t) \<le> fuel \<Longrightarrow> \<exists>t'. clear_loop srch cmp fuel (e # t) = Hang (e # t') \<and> set t' \<subseteq> set t"
proof (induction fuel arbitrary: t)
  case (Suc n)
  from delete_first [of e t] show ?case
  proof (elim disjE exE conjE)
    fix u assume d: "rtl_delete srch cmp e (e # t) = (e # u, True)"
      and u: "length t = Suc (length u)" "set u \<subseteq> set t"
    from Suc.IH [of u] Suc.prems u(1) obtain t'
      where "clear_loop srch cmp n (e # u) = Hang (e # t')" "set t' \<subseteq> set u" by auto
    with d u(2) show ?thesis by (intro exI [of _ t']) auto
  qed (intro exI [of _ t], simp)
qed simp

lemma clear_table_hangs:
  assumes "get (gDedupeContext s) \<noteq> []"
  shows "\<exists>s'. clear_table get upd srch cmp s = Hang s'"
proof -
  from assms obtain e t where t: "get (gDedupeContext s) = e # t" by (cases "get (gDedupeContext s)") auto
  from clear_loop_hangs [of t "Suc (length t)" e] obtain t'
    where "clear_loop srch cmp (Suc (length t)) (e # t) = Hang (e # t')" by auto
  with t show ?thesis by (simp add: clear_table_def Let_def)
qed

text \<open>So a sequence of clearings is stuck if one of the tables is not empty.\<close>

lemma clear_then_stuck:
  assumes "upd (\<lambda>_. get (gDedupeContext s)) (gDedupeContext s) = gDedupeContext s"
    and "get (gDedupeContext s) = [] \<Longrightarrow> \<exists>s'. n s = Hang s'"
  shows "\<exists>s'. seqO (clear_table get upd srch cmp) n s = Hang s'"
proof (cases "get (gDedupeContext s) = []")
  case True
  with assms(1) have "clear_table get upd srch cmp s = Ret () s" by (simp add: clear_table_empty)
  with assms(2) [OF True] show ?thesis by (simp add: seqO_def bindO_def)
next
  case False
  from clear_table_hangs [of get s upd, OF this] show ?thesis by (auto simp: seqO_def bindO_def)
qed

end

text \<open>What the driver's proofs rely on in the run-time library: nearly always only that the
  searches are searches, sometimes that they read the compare routines as documented.\<close>

definition lawful :: "kenv \<Rightarrow> bool" where
  "lawful k \<longleftrightarrow> rtl_search (search_process k) CompareProcessEntries \<and>
     rtl_search (search_page k) (ComparePageEntries k) \<and>
     rtl_search (search_group k) (ComparePageEntries k) \<and>
     rtl_search (search_cow_protected k) CompareCowProtectedPages"

definition documented :: "kenv \<Rightarrow> bool" where
  "documented k \<longleftrightarrow> rtl_documented (search_process k) CompareProcessEntries \<and>
     rtl_documented (search_page k) (ComparePageEntries k) \<and>
     rtl_documented (search_group k) (ComparePageEntries k) \<and>
     rtl_documented (search_cow_protected k) CompareCowProtectedPages"

lemma documented_lawful: "documented k \<Longrightarrow> lawful k"
  by (simp add: documented_def lawful_def rtl_documented_def)

lemma documented_self_less:
  assumes "documented k"
  shows "self_less (search_process k) CompareProcessEntries"
    and "self_less (search_page k) (ComparePageEntries k)"
    and "self_less (search_group k) (ComparePageEntries k)"
    and "self_less (search_cow_protected k) CompareCowProtectedPages"
  using assms by (simp_all add: documented_def self_less_driver)

lemma demo_searches:
  "search_process demo_kenv = linear_search" "search_page demo_kenv = linear_search"
  "search_group demo_kenv = linear_search" "search_cow_protected demo_kenv = linear_search"
  "search_cow_private demo_kenv = linear_search"
  by (simp_all add: demo_kenv_def)

lemma lawful_demo: "lawful demo_kenv"
  by (simp add: lawful_def demo_searches rtl_search_linear)

lemma documented_demo: "documented demo_documented"
  by (simp add: documented_def demo_documented_def rtl_documented_search)

section \<open>Draining\<close>

text \<open>The states the driver can be in, as is proved below: no frame is protected, no private
  copy exists, and while the mutex is free there is no shared group.\<close>

definition unprotected :: "driver \<Rightarrow> bool" where
  "unprotected s \<longleftrightarrow> cow_table s = [] \<and> CowPrivateTable (gDedupeContext s) = [] \<and>
     (gDedupeMutex s \<or> group_table s = [])"

lemma DemoteSharedPageGroup_unprotected:
  assumes "lawful k" and "unprotected s"
  shows "DemoteSharedPageGroup k pfn sig s =
    (if gDedupeMutex s then Hang s else Ret STATUS_NOT_FOUND (s\<lparr>gDedupeMutex := True\<rparr>))"
proof -
  have "rtl_lookup (search_group k) (ComparePageEntries k) (lookup_group sig) [] = None"
    using assms(1) by (simp add: lawful_def rtl_search.lookup_empty)
  with assms(2) show ?thesis
    by (auto simp: DemoteSharedPageGroup_def unprotected_def outcome_simps retO_def)
qed

lemma UnmarkPageShared_unprotected:
  assumes "lawful k" and "unprotected s"
  shows "UnmarkPageShared k pfn sig s =
    (if gDedupeMutex s then Hang s else Ret STATUS_NOT_FOUND (s\<lparr>gDedupeMutex := True\<rparr>))"
  using DemoteSharedPageGroup_unprotected [OF assms]
  by (simp add: UnmarkPageShared_def bindO_def retO_def)

text \<open>The demotions of one shared entry: nothing for no frame, and the second one waits.\<close>

lemma unmark_all_unprotected:
  assumes "lawful k" and "unprotected s"
  shows "forO (\<lambda>pfn. UnmarkPageShared k pfn sig) pfns s =
    (case pfns of
       [] \<Rightarrow> Ret () s
     | [_] \<Rightarrow> if gDedupeMutex s then Hang s else Ret () (s\<lparr>gDedupeMutex := True\<rparr>)
     | _ \<Rightarrow> Hang (s\<lparr>gDedupeMutex := True\<rparr>))"
proof -
  have s: "s\<lparr>gDedupeMutex := True\<rparr> = s" if "gDedupeMutex s"
    using that by (cases s) simp
  have u: "unprotected (s\<lparr>gDedupeMutex := True\<rparr>)"
    using assms(2) by (simp add: unprotected_def)
  show ?thesis
    using UnmarkPageShared_unprotected [OF assms] UnmarkPageShared_unprotected [OF assms(1) u] s
    by (auto simp: seqO_def bindO_def retO_def split: list.splits)
qed

text \<open>The page table and the mutex when a drain gets stuck.\<close>

definition drain_stuck :: "PageEntry \<Rightarrow> PageEntry list \<Rightarrow> driver \<Rightarrow> driver" where
  "drain_stuck e t s = with_pages (e # t)
     (s\<lparr>gDedupeMutex := gDedupeMutex s \<or> Shared e \<and> frames_of e \<noteq> []\<rparr>)"

lemma drain_unmarks:
  assumes "lawful k" and "unprotected s" and "page_table s = e # t"
  shows "(if Shared e then forO (\<lambda>pfn. UnmarkPageShared k pfn (Signature e)) (frames_of e) else retO ()) s
    \<in> {Ret () (drain_stuck e t s), Hang (drain_stuck e t s)}"
proof -
  have s: "s\<lparr>gDedupeMutex := gDedupeMutex s\<rparr> = s" and p: "with_pages (e # t) (s\<lparr>gDedupeMutex := b\<rparr>)
      = s\<lparr>gDedupeMutex := b\<rparr>" for b
    using assms(3) by (cases s; cases "gDedupeContext s"; simp add: with_defs)+
  have o: "s\<lparr>gDedupeMutex := True\<rparr> = s" if "gDedupeMutex s" using that by (cases s) simp
  show ?thesis
    using unmark_all_unprotected [OF assms(1,2), of "Signature e" "frames_of e"] s o
    by (auto simp: drain_stuck_def p retO_def split: list.splits)
qed

lemma drain_stuck_again:
  "drain_stuck e u (with_pages (e # v) (drain_stuck e t s)) = drain_stuck e u s"
  "drain_stuck e u (drain_stuck e t s) = drain_stuck e u s"
  "page_table (with_pages v s) = v"
  by (cases s; cases "gDedupeContext s"; auto simp: drain_stuck_def with_defs)+

lemma unprotected_drain_stuck: "unprotected s \<Longrightarrow> unprotected (drain_stuck e t s)"
  by (auto simp: drain_stuck_def unprotected_def with_defs)

lemma drain_loop_stuck:
  assumes k: "lawful k" and less: "self_less (search_page k) (ComparePageEntries k)"
  shows "\<lbrakk>unprotected s; page_table s = e # t; Suc (length t) \<le> fuel\<rbrakk> \<Longrightarrow>
     \<exists>t'. drain_loop k fuel s = Hang (drain_stuck e t' s) \<and> set t' \<subseteq> set t"
proof (induction fuel arbitrary: s t)
  case (Suc n)
  let ?unmark = "if Shared e then forO (\<lambda>pfn. UnmarkPageShared k pfn (Signature e)) (frames_of e)
    else retO ()"
  let ?s1 = "drain_stuck e t s"
  have pt: "page_table ?s1 = e # t" by (simp add: drain_stuck_def with_defs)
  have eq: "drain_loop k (Suc n) s = seqO ?unmark
      (bindO (on_table PageTable PageTable_update
                (rtl_delete (search_page k) (ComparePageEntries k) e))
         (\<lambda>removed. if removed then drain_loop k n else hangO)) s"
    using Suc.prems(2) by simp
  from drain_unmarks [OF k Suc.prems(1,2)] consider "?unmark s = Hang ?s1" | "?unmark s = Ret () ?s1"
    by blast
  then show ?case
  proof cases
    case 1
    then show ?thesis unfolding eq by (auto simp: seqO_def bindO_def)
  next
    case 2
    have same: "?s1\<lparr>gDedupeContext := (gDedupeContext ?s1)\<lparr>PageTable := v\<rparr>\<rparr> = with_pages v ?s1" for v
      by (simp add: with_defs)
    have run: "drain_loop k (Suc n) s =
        (if snd (rtl_delete (search_page k) (ComparePageEntries k) e (e # t)) then drain_loop k n
         else hangO) (with_pages (fst (rtl_delete (search_page k) (ComparePageEntries k) e (e # t))) ?s1)"
      unfolding eq seqO_def [of ?unmark] bindO_def [of ?unmark] 2
      by (simp add: bind_on_table pt same)
    from self_less.delete_first [OF less, of e t] show ?thesis
    proof (elim disjE exE conjE)
      assume "rtl_delete (search_page k) (ComparePageEntries k) e (e # t) = (e # t, False)"
      then have "drain_loop k (Suc n) s = Hang (with_pages (e # t) ?s1)"
        using run by (simp add: hangO_def)
      moreover have "with_pages (e # t) ?s1 = ?s1" by (simp add: drain_stuck_def with_defs)
      ultimately show ?thesis by auto
    next
      fix u assume d: "rtl_delete (search_page k) (ComparePageEntries k) e (e # t) = (e # u, True)"
        and u: "length t = Suc (length u)" "set u \<subseteq> set t"
      have "unprotected (with_pages (e # u) ?s1)"
        using unprotected_drain_stuck [OF Suc.prems(1)] by (simp add: unprotected_def with_defs)
      from Suc.IH [OF this drain_stuck_again(3)] Suc.prems(3) u(1) obtain t'
        where "drain_loop k n (with_pages (e # u) ?s1) = Hang (drain_stuck e t' (with_pages (e # u) ?s1))"
          and "set t' \<subseteq> set u" by auto
      with run d u(2) show ?thesis by (auto simp: drain_stuck_again)
    qed
  qed
qed simp

text \<open>
  C13: draining, with the documented library and in a state the driver can be in. An empty
  page table is drained at once, with success and no change. A page table with entries is
  never drained: \<open>DrainDedupeState\<close> does not return, the first entry is still there (the
  deletion never finds it), nothing but the page table and the mutex has changed, and the
  mutex is left owned if that entry is shared and lists a frame.
\<close>

theorem DrainDedupeState_outcome:
  assumes "documented k" and "unprotected s"
  shows "case page_table s of
      [] \<Rightarrow> DrainDedupeState k s = Ret STATUS_SUCCESS s
    | e # t \<Rightarrow> \<exists>t'. set t' \<subseteq> set t \<and> DrainDedupeState k s = Hang
        (with_pages (e # t') (s\<lparr>gDedupeMutex := gDedupeMutex s \<or> Shared e \<and> frames_of e \<noteq> []\<rparr>))"
proof (cases "page_table s")
  case Nil
  then show ?thesis by (simp add: DrainDedupeState_def seqO_def bindO_def retO_def)
next
  case (Cons e t)
  from drain_loop_stuck [OF documented_lawful [OF assms(1)] documented_self_less(2) [OF assms(1)]
      assms(2) Cons order.refl] obtain t'
    where "drain_loop k (Suc (length t)) s = Hang (drain_stuck e t' s)" "set t' \<subseteq> set t" by blast
  with Cons show ?thesis
    by (auto simp: DrainDedupeState_def seqO_def bindO_def drain_stuck_def
        simp del: drain_loop.simps intro!: exI [of _ t'])
qed

text \<open>The demo driver with one entry of two frames, promoted in vain for want of pool.\<close>

definition demo_drain :: driver where
  "demo_drain = with_pages [(record_frame 9 (new_page_entry 7 \<lparr>Hash = 1, Fingerprint = 0\<rparr>))
     \<lparr>Shared := True\<rparr>] demo_driver"

lemma demo_unprotected: "unprotected demo_driver" "unprotected demo_drain"
  by (simp_all add: unprotected_def demo_drain_def with_defs demo_driver_def static_driver_def
      empty_context_def)

theorem DrainDedupeState_outcome_witness:
  "DrainDedupeState demo_documented demo_driver = Ret STATUS_SUCCESS demo_driver \<and>
   (\<exists>s'. DrainDedupeState demo_documented demo_drain = Hang s' \<and> gDedupeMutex s')"
proof -
  let ?e = "(record_frame 9 (new_page_entry 7 \<lparr>Hash = 1, Fingerprint = 0\<rparr>))\<lparr>Shared := True\<rparr>"
  have "page_table demo_drain = [?e]" by (simp add: demo_drain_def with_defs)
  moreover have "frames_of ?e \<noteq> []"
    by (simp add: record_frame_def new_page_entry_def frames_of_def PfnTableSize_def)
  ultimately show ?thesis
    using DrainDedupeState_outcome [OF documented_demo demo_unprotected(1)]
      DrainDedupeState_outcome [OF documented_demo demo_unprotected(2)]
    by (auto simp: with_defs)
qed

section \<open>Preservation along the routines\<close>

lemma preserves_eqI:
  "(\<And>s. P s \<Longrightarrow> final_state (m s) = None \<or> P (the (final_state (m s)))) \<Longrightarrow> preserves P m"
  unfolding preserves_def by (metis option.distinct(1) option.sel)

lemma promoted_groups_null:
  "snd (insert_group k pfn sig t) = None \<Longrightarrow> promoted_groups k pfn sig t = t"
  by (auto simp: insert_group_def promoted_groups_def rtl_insert_def split: sum.splits if_splits)

lemma unprotected_with_pages [simp]: "unprotected (with_pages t s) = unprotected s"
  by (simp add: unprotected_def with_defs)

lemma unprotected_with_processes [simp]: "unprotected (with_processes t s) = unprotected s"
  by (simp add: unprotected_def with_defs)

lemma unprotected_MarkPageShared:
  assumes "unprotected s" and "final_state (MarkPageShared k pfn sig s) = Some s'"
  shows "unprotected s'"
  using assms
  by (auto simp: MarkPageShared_eq unprotected_def with_defs promoted_groups_null split: if_splits)

lemma final_state_map:
  "final_state (bindO m (\<lambda>_. retO a) s) = final_state (m s)"
  by (simp add: bindO_def retO_def split: outcome.splits)

lemma preserves_AddPageEntry [preserves_intros]: "preserves unprotected (AddPageEntry k pfn sig)"
proof (rule preservesI)
  fix s s' assume u: "unprotected s" and fin: "final_state (AddPageEntry k pfn sig s) = Some s'"
  show "unprotected s'"
  proof (cases "gDedupeMutex s")
    case True
    with u fin show ?thesis by (simp add: AddPageEntry_eq)
  next
    case False
    obtain t r where ins: "insert_page k pfn sig (page_table s) = (t, r)" by fastforce
    show ?thesis
    proof (cases r)
      case None
      with False u fin ins show ?thesis by (auto simp: AddPageEntry_eq)
    next
      case (Some x)
      obtain i new where x: "x = (i, new)" by fastforce
      obtain e promote where n: "note_duplicate pfn (t ! i) = (e, promote)" by fastforce
      have "unprotected s'" if "\<not> new" "promote"
        by (rule unprotected_MarkPageShared [of "with_pages (t[i := e]) s" k
              "first_pfn (t ! i)" "Signature (t ! i)"])
          (use that False u fin ins Some x n in \<open>auto simp: AddPageEntry_eq final_state_map\<close>)
      with False u fin ins Some x n show ?thesis
        by (cases new; cases promote) (auto simp: AddPageEntry_eq)
    qed
  qed
qed

lemma scan_eq:
  "ScanOptedInProcesses k pageFuel fuel s =
     (if gDedupeMutex s then Hang s
      else seqO (forO (ScanProcessPages k pageFuel fuel)
                   (map ProcessId (take MaxScannedProcesses (process_table s))))
             (retO STATUS_SUCCESS) s)"
  by (simp add: ScanOptedInProcesses_def outcome_simps)

lemma preserves_spentO [preserves_intros]: "preserves P spentO"
  by (simp add: preserves_def spentO_def)

lemma preserves_scan_region_pages:
  assumes "\<And>pfn sig. preserves P (AddPageEntry k pfn sig)"
  shows "preserves P (scan_region_pages k process fuel va regionEnd)"
proof (induction fuel arbitrary: va)
  case 0
  show ?case by (subst scan_region_pages.simps) (auto intro: preserves_intros)
next
  case (Suc n)
  have "preserves P (scan_one_page k process va)" for va
    unfolding scan_one_page_def using assms by (intro preserves_intros)
  with Suc show ?case
    by (subst scan_region_pages.simps) (auto intro!: preserves_intros)
qed

lemma preserves_scan_regions:
  assumes "\<And>pfn sig. preserves P (AddPageEntry k pfn sig)"
  shows "preserves P (scan_regions k process handle pageFuel fuel va)"
proof (induction fuel arbitrary: va)
  case 0
  show ?case by (subst scan_regions.simps) (auto intro: preserves_intros)
next
  case (Suc n)
  with preserves_scan_region_pages [OF assms] show ?case
    by (subst scan_regions.simps) (auto intro!: preserves_intros)
qed

text \<open>Whatever \<open>AddPageEntry\<close> preserves, a whole pass preserves.\<close>

lemma preserves_ScanOptedInProcesses:
  assumes add: "\<And>pfn sig. preserves P (AddPageEntry k pfn sig)"
  shows "preserves P (ScanOptedInProcesses k pageFuel fuel)"
proof (rule preservesI)
  fix s s' assume P: "P s" and fin: "final_state (ScanOptedInProcesses k pageFuel fuel s) = Some s'"
  have "preserves P (ScanProcessPages k pageFuel fuel pid)" for pid
    unfolding ScanProcessPages_def using preserves_scan_regions [OF add]
    by (intro preserves_intros)
  then have "preserves P (seqO (forO (ScanProcessPages k pageFuel fuel)
      (map ProcessId (take MaxScannedProcesses (process_table s)))) (retO STATUS_SUCCESS))"
    by (intro preserves_intros)
  from preservesD [OF this P, of s'] fin P show "P s'"
    by (simp add: scan_eq split: if_splits)
qed

section \<open>Invariants of the driver\<close>

text \<open>What a predicate on the globals must satisfy to hold in every state of the driver once
  it holds after loading: the operations that change state preserve it.\<close>

locale driver_invariant =
  fixes P :: "driver \<Rightarrow> bool"
  assumes pages: "P s \<Longrightarrow> set t \<subseteq> set (page_table s) \<Longrightarrow> P (with_pages t s)"
    and processes: "P s \<Longrightarrow> P (with_processes u s)"
    and groups: "P s \<Longrightarrow> set g \<subseteq> set (group_table s) \<Longrightarrow> P (with_groups g s)"
    and cow: "P s \<Longrightarrow> set c \<subseteq> set (cow_table s) \<Longrightarrow> P (with_cow c s)"
    and copies: "P s \<Longrightarrow> set d \<subseteq> set (CowPrivateTable (gDedupeContext s)) \<Longrightarrow>
      P (s\<lparr>gDedupeContext := (gDedupeContext s)\<lparr>CowPrivateTable := d\<rparr>\<rparr>)"
    and event: "P s \<Longrightarrow> P (s\<lparr>gShutdownEvent := b\<rparr>)"
    and thread: "P s \<Longrightarrow> P (s\<lparr>gScanThread := b\<rparr>)"
    and device: "P s \<Longrightarrow> P (s\<lparr>gDeviceObject := b\<rparr>)"
    and handle: "P s \<Longrightarrow> P (s\<lparr>gCowFaultCallbackHandle := h\<rparr>)"
    and registered: "P s \<Longrightarrow> P (s\<lparr>gCowFaultCallbackRegistered := b\<rparr>)"
    and active: "P s \<Longrightarrow> P (s\<lparr>gCowInterceptionActive := b\<rparr>)"
    and add: "lawful k \<Longrightarrow> preserves P (AddPageEntry k pfn sig)"
    and unmark: "lawful k \<Longrightarrow> preserves P (UnmarkPageShared k pfn sig)"
    and fault: "lawful k \<Longrightarrow> preserves P (CowFaultCallback k va wr)"
begin

lemma pages_table:
  "preserves P (on_table PageTable PageTable_update (rtl_delete srch cmp e))"
  unfolding preserves_def by (auto intro!: pages [unfolded with_defs] delete_subset)

lemma drain: "lawful k \<Longrightarrow> preserves P (DrainDedupeState k)"
proof (rule preservesI)
  fix s s' assume k: "lawful k" and s: "P s" and fin: "final_state (DrainDedupeState k s) = Some s'"
  have "preserves P (drain_loop k fuel)" for fuel
  proof (induction fuel)
    case 0
    show ?case unfolding preserves_def by (auto split: list.splits)
  next
    case (Suc n)
    have step: "preserves P (seqO (if Shared e
              then forO (\<lambda>pfn. UnmarkPageShared k pfn (Signature e)) (frames_of e) else retO ())
            (bindO (on_table PageTable PageTable_update
                      (rtl_delete (search_page k) (ComparePageEntries k) e))
               (\<lambda>removed. if removed then drain_loop k n else hangO)))" for e
    proof -
      have "preserves P hangO" by (simp add: preserves_def hangO_def)
      then show ?thesis using Suc unmark [OF k] pages_table by (intro preserves_intros)
    qed
    show ?case
      using preservesD [OF step] unfolding preserves_def by (auto split: list.splits)
  qed
  then have "preserves P (seqO (drain_loop k (length (page_table s))) (retO STATUS_SUCCESS))"
    by (intro preserves_intros)
  from preservesD [OF this s] fin show "P s'" by (simp add: DrainDedupeState_def)
qed

lemma register: "preserves P (RegisterOptInProcess k pid)"
  using processes unfolding preserves_def
  by (auto simp: RegisterOptInProcess_eq split: prod.splits option.splits if_splits)

lemma unregister: "preserves P (UnregisterOptInProcess k pid)"
  using processes unfolding preserves_def
  by (auto simp: UnregisterOptInProcess_eq Let_def split: prod.splits option.splits if_splits)

lemma reports:
  "preserves P (QueryDedupeStats buf n info)" "preserves P (QueryDedupeHealth buf n info)"
  "preserves P (ListOptedInProcesses buf n info)"
  unfolding preserves_def
  by (auto simp: QueryDedupeStats_eq QueryDedupeHealth_eq ListOptedInProcesses_eq Let_def
      split: if_splits)

lemma request: "lawful k \<Longrightarrow> preserves P (DriverDeviceControl k p)"
proof -
  assume k: "lawful k"
  have complete: "preserves P (complete_request status q)" for status q
    unfolding complete_request_def Let_def by (intro preserves_intros)
  then have report: "preserves P (complete_report q r)" for q r
    by (auto simp: complete_report_def split: prod.splits)
  show ?thesis
    unfolding DriverDeviceControl_def
    by (intro preserves_intros complete report register unregister reports drain [OF k] fault [OF k])
qed

lemma scan: "lawful k \<Longrightarrow> preserves P (ScanOptedInProcesses k pageFuel fuel)"
  by (rule preserves_ScanOptedInProcesses) (rule add)

lemma modO_preserves: "(\<And>s. P s \<Longrightarrow> P (f s)) \<Longrightarrow> preserves P (modO f)"
  by (simp add: preserves_def modO_def)

lemma clear:
  assumes "\<And>s t. P s \<Longrightarrow> set t \<subseteq> set (get (gDedupeContext s)) \<Longrightarrow>
    P (s\<lparr>gDedupeContext := upd (\<lambda>_. t) (gDedupeContext s)\<rparr>)"
  shows "preserves P (clear_table get upd srch cmp)"
  using assms by (auto intro!: preservesI dest!: clear_table_final)

lemma shutdown: "preserves P (ShutdownDedupeDriver k)"
proof -
  have 1: "preserves P ShutdownCowInterception"
    unfolding ShutdownCowInterception_def UnregisterCowFaultCallback_def
    by (intro preserves_intros modO_preserves) (auto intro: handle registered active)
  have 2: "preserves P (clear_table ProcessTable ProcessTable_update
      (search_process k) CompareProcessEntries)"
    by (rule clear) (use processes in \<open>simp add: with_defs\<close>)
  have 3: "preserves P (clear_table PageTable PageTable_update
      (search_page k) (ComparePageEntries k))"
    by (rule clear) (use pages in \<open>simp add: with_defs\<close>)
  have 4: "preserves P (clear_table SharedGroupTable SharedGroupTable_update
      (search_group k) (ComparePageEntries k))"
    by (rule clear) (use groups in \<open>simp add: with_defs\<close>)
  have 5: "preserves P (clear_table CowProtectedTable CowProtectedTable_update
      (search_cow_protected k) CompareCowProtectedPages)"
    by (rule clear) (use cow in \<open>simp add: with_defs\<close>)
  have 6: "preserves P (clear_table CowPrivateTable CowPrivateTable_update
      (search_cow_private k) (CompareCowPrivatePages k))"
    by (rule clear) (rule copies)
  from 1 2 3 4 5 6 show ?thesis unfolding ShutdownDedupeDriver_def by (intro preserves_intros)
qed

end

lemma UnmarkPageShared_owned: "gDedupeMutex s \<Longrightarrow> UnmarkPageShared k pfn sig s = Hang s"
  by (simp add: UnmarkPageShared_def DemoteSharedPageGroup_def bindO_def outcome_simps)

text \<open>The callback with no protected frame: it never reaches the copy.\<close>

lemma CowFaultCallback_unprotected:
  assumes "lawful k" and "cow_table s = []"
  shows "CowFaultCallback k va wr s =
    (if va = 0 \<or> MmGetPhysicalAddress k (CurrentProcess k) va = None
     then Ret STATUS_INVALID_PARAMETER s
     else if gDedupeMutex s then Hang s else Ret STATUS_NOT_SUPPORTED s)"
proof -
  have "rtl_lookup (search_cow_protected k) CompareCowProtectedPages e [] = None" for e
    using assms(1) by (simp add: lawful_def rtl_search.lookup_empty)
  with assms(2) show ?thesis
    by (auto simp: CowFaultCallback_def Let_def bindO_def IsCowProtectedPfn_eq retO_def
        split: option.splits)
qed

lemma CowFaultCallback_owned:
  "gDedupeMutex s \<Longrightarrow> final_state (CowFaultCallback k va wr s) = Some s"
  by (auto simp: CowFaultCallback_def Let_def bindO_def IsCowProtectedPfn_eq retO_def
      split: option.splits)

interpretation unprotected_inv: driver_invariant unprotected
proof
  show "preserves unprotected (AddPageEntry k pfn sig)" for k pfn sig
    by (rule preserves_AddPageEntry)
  show "preserves unprotected (UnmarkPageShared k pfn sig)" if "lawful k" for k pfn sig
    unfolding preserves_def
    using UnmarkPageShared_unprotected [OF that]
    by (auto simp: unprotected_def split: if_splits)
  show "preserves unprotected (CowFaultCallback k va wr)" if "lawful k" for k va wr
    unfolding preserves_def
    using CowFaultCallback_unprotected [OF that]
    by (auto simp: unprotected_def split: if_splits)
qed (auto simp: unprotected_def with_defs)

interpretation owned_inv: driver_invariant gDedupeMutex
proof
  show "preserves gDedupeMutex (AddPageEntry k pfn sig)" for k pfn sig
    by (auto simp: preserves_def AddPageEntry_eq)
  show "preserves gDedupeMutex (UnmarkPageShared k pfn sig)" for k pfn sig
    by (auto simp: preserves_def UnmarkPageShared_owned)
  show "preserves gDedupeMutex (CowFaultCallback k va wr)" for k va wr
    by (auto simp: preserves_def CowFaultCallback_owned)
qed (auto simp: with_defs)

section \<open>The world\<close>

lemma on_globals_preserves:
  "preserves P m \<Longrightarrow> preserves (\<lambda>w. P (globals w)) (on_globals m)"
  unfolding preserves_def on_globals_def by (auto split: outcome.splits)

lemma set_device_preserves:
  "(\<And>s b. P s \<Longrightarrow> P (s\<lparr>gDeviceObject := b\<rparr>)) \<Longrightarrow> preserves (\<lambda>w. P (globals w)) (set_device b)"
  by (simp add: preserves_def set_device_def modO_def)

lemma world_objects_preserve [preserves_intros]:
  "preserves (\<lambda>w. P (globals w)) IoDeleteSymbolicLink"
  "preserves (\<lambda>w. P (globals w)) IoDeleteDevice"
  "preserves (\<lambda>w. P (globals w)) (create_link status)"
  by (auto simp: preserves_def IoDeleteSymbolicLink_def IoDeleteDevice_def create_link_def modO_def
      seqO_def bindO_def retO_def)

context driver_invariant
begin

abbreviation holds :: "world \<Rightarrow> bool" where "holds \<equiv> \<lambda>w. P (globals w)"

lemma scanner_round_holds:
  assumes "lawful k"
  shows "preserves holds (scanner_round k pageFuel fuel)"
proof (rule preservesI)
  fix w w' assume w: "holds w" and fin: "final_state (scanner_round k pageFuel fuel w) = Some w'"
  let ?pass = "on_globals (ScanOptedInProcesses k pageFuel fuel) w"
  have pass: "holds v" if "final_state ?pass = Some v" for v
    by (rule preservesD [OF on_globals_preserves [OF scan [OF assms]], OF w that])
  show "holds w'"
    using fin pass by (cases ?pass) (auto simp: scanner_round_def split: if_splits)
qed

lemma destroy_holds: "preserves holds DestroyControlDevice"
  unfolding DestroyControlDevice_def
  by (intro preserves_intros set_device_preserves) (rule device)

lemma stop_holds: "lawful k \<Longrightarrow> preserves holds (StopPageScanner k pageFuel fuel)"
proof -
  assume k: "lawful k"
  have "preserves holds (wait_for_scanner k pageFuel fuel)"
    using scanner_round_holds [OF k] unfolding preserves_def wait_for_scanner_def
    by (auto split: scanner.splits)
  moreover have "preserves holds (modO (\<lambda>w. w\<lparr>globals := (globals w)\<lparr>gShutdownEvent := True\<rparr>\<rparr>))"
    "preserves holds (modO (\<lambda>w. w\<lparr>globals := (globals w)\<lparr>gScanThread := False\<rparr>\<rparr>))"
    using event thread by (simp_all add: preserves_def modO_def)
  ultimately show ?thesis unfolding StopPageScanner_def by (intro preserves_intros)
qed

lemma unload_holds:
  "lawful k \<Longrightarrow> preserves holds (DriverUnload k pageFuel fuel)"
  unfolding DriverUnload_def
  by (intro preserves_intros stop_holds destroy_holds on_globals_preserves shutdown)

lemma create_holds: "preserves holds (CreateControlDevice io)"
proof -
  have "preserves holds (modO (\<lambda>w. w\<lparr>DeviceExists := True\<rparr>))"
    by (simp add: preserves_def modO_def)
  then show ?thesis
    unfolding CreateControlDevice_def
    by (intro preserves_intros set_device_preserves device)
qed

lemma start_holds: "preserves holds (StartPageScanner io)"
  using thread
  by (auto simp: preserves_def StartPageScanner_def seqO_def bindO_def modO_def retO_def
      split: if_splits)

text \<open>A predicate that holds after initialisation holds when \<open>DriverEntry\<close> is done.\<close>

lemma entry_holds:
  assumes init: "\<And>s s' st. InitializeDedupeDriver s = Ret st s' \<Longrightarrow> P s'"
    and fin: "final_state (DriverEntry k io w) = Some w'"
  shows "P (globals w')"
proof -
  let ?rest = "\<lambda>status. if \<not> NT_SUCCESS status then retO status
       else bindO (CreateControlDevice io) (\<lambda>status.
         if \<not> NT_SUCCESS status
         then seqO (on_globals (ShutdownDedupeDriver k)) (retO status)
         else bindO (StartPageScanner io) (\<lambda>status.
           if \<not> NT_SUCCESS status
           then seqO DestroyControlDevice
                  (seqO (on_globals (ShutdownDedupeDriver k)) (retO status))
           else retO STATUS_SUCCESS))"
  have rest: "preserves holds (?rest status)" for status
    by (intro preserves_intros create_holds start_holds destroy_holds on_globals_preserves
        shutdown)
  obtain st s where i: "InitializeDedupeDriver (globals w) = Ret st s"
    by (simp add: InitializeDedupeDriver_def InitializeCowInterception_def
        RegisterCowFaultCallback_def seqO_def bindO_def modO_def retO_def)
  then have "DriverEntry k io w = ?rest st (w\<lparr>globals := s\<rparr>)"
    by (simp add: DriverEntry_def bindO_def on_globals_def)
  with preservesD [OF rest, of "w\<lparr>globals := s\<rparr>" st w'] fin init [OF i]
  show ?thesis by simp
qed

end

section \<open>Reachable states\<close>

text \<open>The world before the driver is loaded; a stale symbolic link may be there.\<close>

definition boot :: "bool \<Rightarrow> world" where
  "boot stale = \<lparr>globals = static_driver, DeviceExists = False, LinkExists = stale,
                 Scanner = NoScanner\<rparr>"

text \<open>A request that never returns leaves its caller waiting and the driver in the state it
  had got to; a scanner round that never returns leaves the scanner stuck. What the kernel
  answers may differ from step to step.\<close>

inductive reachable :: "world \<Rightarrow> bool" where
  load: "final_state (DriverEntry k io (boot stale)) = Some w \<Longrightarrow> reachable w"
| request: "reachable w \<Longrightarrow> DeviceExists w \<Longrightarrow> lawful k \<Longrightarrow>
    final_state (on_globals (DriverDeviceControl k p) w) = Some w' \<Longrightarrow> reachable w'"
| scan: "reachable w \<Longrightarrow> Scanner w = Waiting \<Longrightarrow> lawful k \<Longrightarrow>
    final_state (scanner_round k pageFuel fuel w) = Some w' \<Longrightarrow> reachable w'"
| unload: "reachable w \<Longrightarrow> DeviceExists w \<Longrightarrow> lawful k \<Longrightarrow>
    final_state (DriverUnload k pageFuel fuel w) = Some w' \<Longrightarrow> reachable w'"

lemma initialized_unprotected: "InitializeDedupeDriver s = Ret st s' \<Longrightarrow> unprotected s'"
  by (auto simp: InitializeDedupeDriver_def InitializeCowInterception_def
      RegisterCowFaultCallback_def seqO_def bindO_def modO_def retO_def unprotected_def
      empty_context_def)

lemma reachable_unprotected: "reachable w \<Longrightarrow> unprotected (globals w)"
proof (induction rule: reachable.induct)
  case (load k io stale w)
  then show ?case using unprotected_inv.entry_holds initialized_unprotected by blast
next
  case (request w k p w')
  from preservesD [OF on_globals_preserves [OF unprotected_inv.request [OF request(3)]]] request
  show ?case by blast
next
  case (scan w k pageFuel fuel w')
  from preservesD [OF unprotected_inv.scanner_round_holds [OF scan(3)]] scan show ?case by blast
next
  case (unload w k pageFuel fuel w')
  from preservesD [OF unprotected_inv.unload_holds [OF unload(3)]] unload show ?case by blast
qed

end
