(* ===== verification/DriverProperties.thy ===== *)
theory DriverProperties
  imports DriverSystem
begin

text \<open>
  What loading and unloading achieve, and what holds in every reachable state of the driver:
  no frame is ever protected, an owned mutex stays owned, a stuck scanner means that the
  driver cannot be unloaded, and no frame array is left.
\<close>

section \<open>Loading\<close>

definition link_created :: "kload \<Rightarrow> bool" where
  "link_created io \<longleftrightarrow> NT_SUCCESS (IoCreateSymbolicLink io) \<or>
     IoCreateSymbolicLink io = STATUS_OBJECT_NAME_COLLISION \<and>
     NT_SUCCESS (IoCreateSymbolicLink_again io)"

lemma name_exists_is_success: "NT_SUCCESS STATUS_OBJECT_NAME_EXISTS"
  by (simp add: NT_SUCCESS_def status_defs)

text \<open>Shutting down with empty tables, and, with the documented library, with others.\<close>

lemma ShutdownDedupeDriver_eq:
  assumes "gDedupeContext s = empty_context"
  shows "ShutdownDedupeDriver k s = Ret ()
    (s\<lparr>gCowInterceptionActive := False,
       gCowFaultCallbackHandle :=
         (if gCowFaultCallbackRegistered s then 0 else gCowFaultCallbackHandle s),
       gCowFaultCallbackRegistered := False\<rparr>)"
  using assms
  by (cases s)
    (simp add: ShutdownDedupeDriver_def ShutdownCowInterception_def UnregisterCowFaultCallback_def
      clear_table_empty seqO_def bindO_def modO_def getO_def retO_def empty_context_def)

lemma ShutdownDedupeDriver_stuck:
  assumes k: "documented k" and "CowPrivateTable (gDedupeContext s) = []"
    and "gDedupeContext s \<noteq> empty_context"
  shows "\<exists>s'. ShutdownDedupeDriver k s = Hang s'"
proof -
  note less = documented_self_less [OF k]
  have "\<exists>v. ShutdownCowInterception s = Ret () v \<and> gDedupeContext v = gDedupeContext s"
    by (simp add: ShutdownCowInterception_def UnregisterCowFaultCallback_def seqO_def bindO_def
        modO_def getO_def retO_def)
  then obtain v
    where v: "ShutdownCowInterception s = Ret () v" "gDedupeContext v = gDedupeContext s" by blast
  have some: "process_table v = [] \<Longrightarrow> page_table v = [] \<Longrightarrow> group_table v = [] \<Longrightarrow> cow_table v \<noteq> []"
    using assms(2,3) v(2) by (cases "gDedupeContext s") (auto simp: empty_context_def)
  have last: "\<exists>s'. seqO (clear_table CowProtectedTable CowProtectedTable_update
      (search_cow_protected k) CompareCowProtectedPages) n v = Hang s'" if "cow_table v \<noteq> []" for n
    using that by (intro self_less.clear_then_stuck [OF less(4)]) simp_all
  show ?thesis
    unfolding ShutdownDedupeDriver_def seqO_Ret [of ShutdownCowInterception, OF v(1)]
    by (intro self_less.clear_then_stuck [OF less(1)] self_less.clear_then_stuck [OF less(2)]
        self_less.clear_then_stuck [OF less(3)] last some) simp_all
qed

lemma InitializeDedupeDriver_eq:
  "InitializeDedupeDriver s = Ret STATUS_SUCCESS
    (s\<lparr>gShutdownEvent := False, gDedupeContext := empty_context, gDedupeMutex := False,
       gCowFaultCallbackHandle := 1, gCowFaultCallbackRegistered := True,
       gCowInterceptionActive := True\<rparr>)"
  by (simp add: InitializeDedupeDriver_def InitializeCowInterception_def
      RegisterCowFaultCallback_def seqO_def bindO_def modO_def retO_def)

lemma CreateControlDevice_eq:
  "CreateControlDevice io w =
     (let device = (globals w)\<lparr>gDeviceObject := True\<rparr>; no_device = (globals w)\<lparr>gDeviceObject := False\<rparr>;
          collided = IoCreateSymbolicLink io = STATUS_OBJECT_NAME_COLLISION
      in if \<not> NT_SUCCESS (IoCreateDevice io) then Ret (IoCreateDevice io) w
         else if link_created io
         then Ret STATUS_SUCCESS (w\<lparr>globals := device, DeviceExists := True, LinkExists := True\<rparr>)
         else Ret (if collided then IoCreateSymbolicLink_again io else IoCreateSymbolicLink io)
                (w\<lparr>globals := no_device, DeviceExists := False,
                   LinkExists := (if collided then False else LinkExists w)\<rparr>))"
proof (cases "NT_SUCCESS (IoCreateSymbolicLink io)")
  case True
  then show ?thesis
    by (cases w) (simp add: CreateControlDevice_def link_created_def create_link_def set_device_def
        seqO_def bindO_def modO_def retO_def Let_def)
next
  case False
  then have "IoCreateSymbolicLink io \<noteq> STATUS_OBJECT_NAME_EXISTS"
    using name_exists_is_success by auto
  with False show ?thesis
    by (cases w) (simp add: CreateControlDevice_def link_created_def create_link_def set_device_def
        IoDeleteSymbolicLink_def IoDeleteDevice_def seqO_def bindO_def modO_def retO_def Let_def)
qed

lemma DriverEntry_result:
  "\<exists>status w. DriverEntry k io (boot stale) = Ret status w \<and>
    gDedupeContext (globals w) = empty_context \<and> \<not> gDedupeMutex (globals w) \<and>
    (DeviceExists w \<longleftrightarrow> NT_SUCCESS status) \<and> (gDeviceObject (globals w) \<longleftrightarrow> NT_SUCCESS status) \<and>
    (gCowInterceptionActive (globals w) \<longleftrightarrow> NT_SUCCESS status) \<and>
    (gScanThread (globals w) \<longleftrightarrow> NT_SUCCESS status) \<and>
    (NT_SUCCESS status \<longleftrightarrow> NT_SUCCESS (IoCreateDevice io) \<and> link_created io \<and>
       NT_SUCCESS (PsCreateSystemThread io) \<and> NT_SUCCESS (ObReferenceObjectByHandle io)) \<and>
    (NT_SUCCESS status \<longrightarrow> LinkExists w) \<and> (\<not> NT_SUCCESS status \<and> LinkExists w \<longrightarrow> stale) \<and>
    (Scanner w = Waiting \<longleftrightarrow> NT_SUCCESS (IoCreateDevice io) \<and> link_created io \<and>
       NT_SUCCESS (PsCreateSystemThread io)) \<and> Scanner w \<in> {NoScanner, Waiting}"
proof -
  note eqs = ShutdownDedupeDriver_eq InitializeDedupeDriver_eq CreateControlDevice_eq
    StartPageScanner_def DestroyControlDevice_def IoDeleteSymbolicLink_def IoDeleteDevice_def
    set_device_def seqO_def bindO_def modO_def getO_def retO_def on_globals_def
  consider (device) "\<not> NT_SUCCESS (IoCreateDevice io)"
    | (link) "NT_SUCCESS (IoCreateDevice io)" "\<not> link_created io"
    | (thread) "NT_SUCCESS (IoCreateDevice io)" "link_created io"
        "\<not> NT_SUCCESS (PsCreateSystemThread io)"
    | (reference) "NT_SUCCESS (IoCreateDevice io)" "link_created io"
        "NT_SUCCESS (PsCreateSystemThread io)" "\<not> NT_SUCCESS (ObReferenceObjectByHandle io)"
    | (loaded) "NT_SUCCESS (IoCreateDevice io)" "link_created io"
        "NT_SUCCESS (PsCreateSystemThread io)" "NT_SUCCESS (ObReferenceObjectByHandle io)"
    by blast
  then show ?thesis
  proof cases
    case link
    then have "\<not> NT_SUCCESS (IoCreateSymbolicLink io)"
      "IoCreateSymbolicLink io = STATUS_OBJECT_NAME_COLLISION \<longrightarrow>
         \<not> NT_SUCCESS (IoCreateSymbolicLink_again io)"
      by (auto simp: link_created_def)
    with link show ?thesis
      by (auto simp: DriverEntry_def eqs boot_def static_driver_def Let_def)
  qed (simp_all add: DriverEntry_def eqs boot_def static_driver_def Let_def)
qed

text \<open>
  C16: what \<open>DriverEntry\<close> leaves behind. On success the device and the link exist, the
  scanner runs, interception is reported active and the tables are empty with a free mutex.
  On failure the device is gone, a link is left only if a stale one was there before, the
  tables are empty and interception is off; but if the scanner thread was created and only
  the reference to it could not be taken, the thread keeps running in an unloaded driver.
\<close>

theorem DriverEntry_outcome:
  "\<exists>status w. DriverEntry k io (boot stale) = Ret status w \<and>
    gDedupeContext (globals w) = empty_context \<and> \<not> gDedupeMutex (globals w) \<and>
    (DeviceExists w \<longleftrightarrow> NT_SUCCESS status) \<and> (gDeviceObject (globals w) \<longleftrightarrow> NT_SUCCESS status) \<and>
    (gCowInterceptionActive (globals w) \<longleftrightarrow> NT_SUCCESS status) \<and>
    (gScanThread (globals w) \<longleftrightarrow> NT_SUCCESS status) \<and>
    (NT_SUCCESS status \<longleftrightarrow> NT_SUCCESS (IoCreateDevice io) \<and> link_created io \<and>
       NT_SUCCESS (PsCreateSystemThread io) \<and> NT_SUCCESS (ObReferenceObjectByHandle io)) \<and>
    (NT_SUCCESS status \<longrightarrow> LinkExists w) \<and> (\<not> NT_SUCCESS status \<and> LinkExists w \<longrightarrow> stale) \<and>
    (Scanner w = Waiting \<longleftrightarrow> NT_SUCCESS (IoCreateDevice io) \<and> link_created io \<and>
       NT_SUCCESS (PsCreateSystemThread io)) \<and> Scanner w \<in> {NoScanner, Waiting}"
  by (rule DriverEntry_result)

text \<open>A load in which everything succeeds, and one in which the thread is lost.\<close>

definition demo_kload :: kload where
  "demo_kload = \<lparr>IoCreateDevice = STATUS_SUCCESS, IoCreateSymbolicLink = STATUS_SUCCESS,
     IoCreateSymbolicLink_again = STATUS_SUCCESS, PsCreateSystemThread = STATUS_SUCCESS,
     ObReferenceObjectByHandle = STATUS_SUCCESS\<rparr>"

theorem DriverEntry_outcome_witness:
  "\<exists>status w. DriverEntry demo_kenv
      (demo_kload\<lparr>ObReferenceObjectByHandle := STATUS_INSUFFICIENT_RESOURCES\<rparr>) (boot False)
    = Ret status w \<and> \<not> NT_SUCCESS status \<and> \<not> DeviceExists w \<and> Scanner w = Waiting"
  using DriverEntry_outcome [of demo_kenv "demo_kload\<lparr>ObReferenceObjectByHandle := STATUS_INSUFFICIENT_RESOURCES\<rparr>" False]
  by (auto simp: demo_kload_def link_created_def)

section \<open>Unloading\<close>

definition event_and_device :: "driver \<Rightarrow> bool" where
  "event_and_device s \<longleftrightarrow> gShutdownEvent s \<and> gDeviceObject s"

lemma scan_keeps_event_and_device:
  "preserves event_and_device (ScanOptedInProcesses k pageFuel fuel)"
proof (rule preserves_ScanOptedInProcesses)
  fix pfn sig
  show "preserves event_and_device (AddPageEntry k pfn sig)"
    unfolding preserves_def
    by (auto simp: AddPageEntry_eq MarkPageShared_eq event_and_device_def with_defs bindO_def
        retO_def split: prod.splits option.splits bool.splits if_splits)
qed

lemma scan_keeps_unprotected: "preserves unprotected (ScanOptedInProcesses k pageFuel fuel)"
  by (rule preserves_ScanOptedInProcesses) (rule preserves_AddPageEntry)

text \<open>
  C17: unloading, with the documented library and in a state the driver can be in. When the
  scanner is between two passes and its last pass ends, the thread has ended and the device
  and the link are gone; then, if all tables are empty, the driver unloads with interception
  off, and otherwise it never unloads: the loop that clears the first table with an element
  in it repeats a deletion that finds nothing. When the scanner is stuck in a pass, unloading
  never returns either and the device stays.
\<close>

theorem DriverUnload_outcome:
  assumes "documented k" and "unprotected (globals w)"
    and "gScanThread (globals w)" and "gDeviceObject (globals w)"
  shows "(Scanner w = Waiting \<and>
      ScanOptedInProcesses k pageFuel fuel ((globals w)\<lparr>gShutdownEvent := True\<rparr>) = Ret st s1 \<longrightarrow>
      (\<exists>w'. DriverUnload k pageFuel fuel w =
            (if gDedupeContext s1 = empty_context then Ret () w' else Hang w') \<and>
          (gDedupeContext s1 = empty_context \<longrightarrow> Scanner w' = Ended \<and>
           \<not> DeviceExists w' \<and> \<not> LinkExists w' \<and> \<not> gDeviceObject (globals w') \<and>
           \<not> gScanThread (globals w') \<and> gDedupeContext (globals w') = empty_context \<and>
           \<not> gCowInterceptionActive (globals w')) \<and>
          (gDedupeContext s1 \<noteq> empty_context \<longrightarrow> Scanner w' = Ended \<and>
           \<not> DeviceExists w' \<and> \<not> LinkExists w'))) \<and>
    (Scanner w = Stuck \<longrightarrow>
      (\<exists>w'. DriverUnload k pageFuel fuel w = Hang w' \<and> DeviceExists w' = DeviceExists w))"
proof (intro conjI impI)
  note defs = DriverUnload_def StopPageScanner_def wait_for_scanner_def scanner_round_def
    on_globals_def DestroyControlDevice_def IoDeleteSymbolicLink_def IoDeleteDevice_def
    set_device_def seqO_def bindO_def modO_def getO_def retO_def
  let ?s = "(globals w)\<lparr>gShutdownEvent := True\<rparr>"
  assume w: "Scanner w = Waiting \<and> ScanOptedInProcesses k pageFuel fuel ?s = Ret st s1"
  have e: "event_and_device s1"
    using preservesD [OF scan_keeps_event_and_device [of k pageFuel fuel], of ?s s1] w assms(4)
    by (simp add: event_and_device_def)
  have "unprotected s1"
    using preservesD [OF scan_keeps_unprotected [of k pageFuel fuel], of ?s s1] w assms(2)
    by (simp add: unprotected_def)
  then have copies: "CowPrivateTable (gDedupeContext s1) = []" by (simp add: unprotected_def)
  let ?s2 = "s1\<lparr>gScanThread := False, gDeviceObject := False\<rparr>"
  let ?w2 = "\<lambda>s. w\<lparr>globals := s, DeviceExists := False, LinkExists := False, Scanner := Ended\<rparr>"
  have run: "DriverUnload k pageFuel fuel w =
      (case ShutdownDedupeDriver k ?s2 of
         Ret _ s \<Rightarrow> Ret () (?w2 s) | Hang s \<Rightarrow> Hang (?w2 s) | Spent \<Rightarrow> Spent)"
    using w e assms(3) by (cases w) (simp add: defs event_and_device_def split: outcome.splits)
  show "\<exists>w'. DriverUnload k pageFuel fuel w =
            (if gDedupeContext s1 = empty_context then Ret () w' else Hang w') \<and>
          (gDedupeContext s1 = empty_context \<longrightarrow> Scanner w' = Ended \<and>
           \<not> DeviceExists w' \<and> \<not> LinkExists w' \<and> \<not> gDeviceObject (globals w') \<and>
           \<not> gScanThread (globals w') \<and> gDedupeContext (globals w') = empty_context \<and>
           \<not> gCowInterceptionActive (globals w')) \<and>
          (gDedupeContext s1 \<noteq> empty_context \<longrightarrow> Scanner w' = Ended \<and>
           \<not> DeviceExists w' \<and> \<not> LinkExists w')"
  proof (cases "gDedupeContext s1 = empty_context")
    case True
    then show ?thesis unfolding run by (simp add: ShutdownDedupeDriver_eq)
  next
    case False
    from ShutdownDedupeDriver_stuck [OF assms(1), of ?s2] copies False
    obtain s' where "ShutdownDedupeDriver k ?s2 = Hang s'" by auto
    with False show ?thesis unfolding run by (intro exI [of _ "?w2 s'"]) simp
  qed
next
  assume "Scanner w = Stuck"
  with assms(3) show "\<exists>w'. DriverUnload k pageFuel fuel w = Hang w' \<and> DeviceExists w' = DeviceExists w"
    by (simp add: DriverUnload_def StopPageScanner_def wait_for_scanner_def seqO_def bindO_def
        modO_def getO_def)
qed

text \<open>The world after a successful load.\<close>

definition loaded :: world where
  "loaded = \<lparr>globals = static_driver\<lparr>gDeviceObject := True, gScanThread := True,
       gCowFaultCallbackHandle := 1, gCowFaultCallbackRegistered := True,
       gCowInterceptionActive := True\<rparr>,
     DeviceExists = True, LinkExists = True, Scanner = Waiting\<rparr>"

lemma DriverEntry_loaded: "DriverEntry demo_kenv demo_kload (boot False) = Ret STATUS_SUCCESS loaded"
  by (simp add: DriverEntry_def demo_kload_def boot_def static_driver_def loaded_def
      InitializeDedupeDriver_eq CreateControlDevice_eq link_created_def StartPageScanner_def
      seqO_def bindO_def modO_def retO_def on_globals_def Let_def)

lemma loaded_simps [simp]:
  "gDeviceObject (globals loaded)" "gScanThread (globals loaded)" "Scanner loaded = Waiting"
  "\<not> gDedupeMutex (globals loaded)" "process_table (globals loaded) = []"
  "DeviceExists loaded" "gDedupeContext (globals loaded) = empty_context"
  by (simp_all add: loaded_def static_driver_def empty_context_def)

text \<open>The same world with a process registered that has exited by now.\<close>

definition loaded1 :: world where
  "loaded1 = loaded\<lparr>globals := with_processes [\<lparr>ProcessId = 77\<rparr>] (globals loaded)\<rparr>"

definition demo_exited :: kenv where
  "demo_exited = demo_documented
     \<lparr>PsLookupProcessByProcessId := (\<lambda>_. (STATUS_INVALID_PARAMETER, 0))\<rparr>"

lemma documented_exited: "documented demo_exited"
  by (simp add: documented_def demo_exited_def demo_documented_def rtl_documented_search)

theorem DriverUnload_outcome_witness:
  "(\<exists>w'. DriverUnload demo_exited 0 0 loaded = Ret () w' \<and> \<not> DeviceExists w') \<and>
   (\<exists>w'. DriverUnload demo_exited 0 0 loaded1 = Hang w' \<and> \<not> DeviceExists w')"
proof -
  let ?e = "\<lambda>w. (globals w)\<lparr>gShutdownEvent := True\<rparr>"
  have 0: "ScanOptedInProcesses demo_exited 0 0 (?e loaded) = Ret STATUS_SUCCESS (?e loaded)"
    by (simp add: scan_eq outcome_simps retO_def empty_context_def)
  have 1: "ScanOptedInProcesses demo_exited 0 0 (?e loaded1) = Ret STATUS_SUCCESS (?e loaded1)"
    by (simp add: scan_eq loaded1_def with_defs empty_context_def MaxScannedProcesses_def
        ScanProcessPages_def demo_exited_def seqO_def bindO_def retO_def)
  have u: "unprotected (globals loaded)" "unprotected (globals loaded1)"
    by (simp_all add: unprotected_def loaded1_def with_defs empty_context_def)
  have l: "gScanThread (globals loaded1)" "gDeviceObject (globals loaded1)" "Scanner loaded1 = Waiting"
    "gDedupeContext (?e loaded1) \<noteq> empty_context"
    by (simp_all add: loaded1_def with_defs empty_context_def)
  from DriverUnload_outcome [OF documented_exited u(1), of 0 0 STATUS_SUCCESS "?e loaded"] 0
    DriverUnload_outcome [OF documented_exited u(2) l(1,2), of 0 0 STATUS_SUCCESS "?e loaded1"] 1 l(3,4)
  show ?thesis by auto
qed

section \<open>Every reachable state\<close>

text \<open>
  C2: in every reachable state of the driver no frame is protected, no private copy exists,
  and while the mutex is free there is no shared group. So the write-fault callback never
  copies a page: it answers that the address is invalid or the page is not tracked, or it
  waits for the mutex, and it never changes the driver.
\<close>

theorem reachable_never_protects:
  assumes "reachable w" and "lawful k"
  shows "cow_table (globals w) = [] \<and> CowPrivateTable (gDedupeContext (globals w)) = [] \<and>
    (group_table (globals w) \<noteq> [] \<longrightarrow> gDedupeMutex (globals w)) \<and>
    CowFaultCallback k va wr (globals w) \<in>
      {Ret STATUS_INVALID_PARAMETER (globals w), Ret STATUS_NOT_SUPPORTED (globals w),
       Hang (globals w)}"
  using reachable_unprotected [OF assms(1)] CowFaultCallback_unprotected [OF assms(2)]
  by (auto simp: unprotected_def)

lemma reachable_loaded: "reachable loaded"
  by (rule reachable.load [of demo_kenv demo_kload False])
    (simp add: DriverEntry_loaded)

theorem reachable_never_protects_witness:
  "cow_table (globals loaded) = [] \<and>
   CowFaultCallback demo_kenv 0x10000 True (globals loaded) \<noteq> Ret STATUS_SUCCESS (globals loaded)"
  using reachable_never_protects [OF reachable_loaded lawful_demo, of "0x10000" True]
  by (auto simp: status_defs)

text \<open>
  C14: no request, no scanner round and no unloading ever gives back a mutex that is owned
  when they begin: once a routine has left it owned, it stays owned for good.
\<close>

theorem owned_mutex_stays_owned:
  assumes "gDedupeMutex (globals w)" and "lawful k"
    and "final_state (on_globals (DriverDeviceControl k p) w) = Some w' \<or>
      final_state (scanner_round k pageFuel fuel w) = Some w' \<or>
      final_state (DriverUnload k pageFuel fuel w) = Some w'"
  shows "gDedupeMutex (globals w')"
  using assms(3)
    preservesD [OF on_globals_preserves [OF owned_inv.request [OF assms(2)]] assms(1)]
    preservesD [OF owned_inv.scanner_round_holds [OF assms(2)] assms(1)]
    preservesD [OF owned_inv.unload_holds [OF assms(2)] assms(1)]
  by blast

definition dead :: world where
  "dead = loaded\<lparr>globals := (globals loaded)\<lparr>gDedupeMutex := True\<rparr>\<rparr>"

theorem owned_mutex_stays_owned_witness:
  "\<exists>w'. final_state (scanner_round demo_kenv 0 0 dead) = Some w' \<and> gDedupeMutex (globals w')"
proof -
  have "\<exists>w'. final_state (scanner_round demo_kenv 0 0 dead) = Some w'"
    by (simp add: scanner_round_def on_globals_def scan_eq dead_def)
  then obtain w' where w': "final_state (scanner_round demo_kenv 0 0 dead) = Some w'" ..
  have "gDedupeMutex (globals dead)" by (simp add: dead_def)
  from owned_mutex_stays_owned [OF this lawful_demo, of undefined w' 0 0] w'
  show ?thesis by blast
qed

section \<open>A stuck scanner\<close>

text \<open>Routines that are stuck only while the mutex is owned.\<close>

definition waits_for_mutex :: "(driver \<Rightarrow> (driver, 'a) outcome) \<Rightarrow> bool" where
  "waits_for_mutex m \<longleftrightarrow> (\<forall>s s'. m s = Hang s' \<longrightarrow> gDedupeMutex s')"

named_theorems waits_intros \<open>rules for routines that are stuck only while the mutex is owned\<close>

lemma waits_basic [waits_intros]:
  "waits_for_mutex (retO a)" "waits_for_mutex (getO f)" "waits_for_mutex spentO"
  by (simp_all add: waits_for_mutex_def retO_def getO_def spentO_def)

lemma waits_bindO [waits_intros]:
  "waits_for_mutex m \<Longrightarrow> (\<And>a. waits_for_mutex (f a)) \<Longrightarrow> waits_for_mutex (bindO m f)"
  unfolding waits_for_mutex_def bindO_def by (auto split: outcome.splits)

lemma waits_seqO [waits_intros]:
  "waits_for_mutex m \<Longrightarrow> waits_for_mutex n \<Longrightarrow> waits_for_mutex (seqO m n)"
  by (simp add: seqO_def waits_bindO)

lemma waits_if [waits_intros]:
  "waits_for_mutex m \<Longrightarrow> waits_for_mutex n \<Longrightarrow> waits_for_mutex (if b then m else n)"
  by simp

lemma waits_option [waits_intros]:
  "waits_for_mutex m \<Longrightarrow> (\<And>a. waits_for_mutex (f a)) \<Longrightarrow>
     waits_for_mutex (case x of None \<Rightarrow> m | Some a \<Rightarrow> f a)"
  by (cases x) auto

lemma waits_prod [waits_intros]:
  "(\<And>a b. waits_for_mutex (g a b)) \<Longrightarrow> waits_for_mutex (case y of (a, b) \<Rightarrow> g a b)"
  by (cases y) auto

lemma waits_forO [waits_intros]:
  "(\<And>x. waits_for_mutex (f x)) \<Longrightarrow> waits_for_mutex (forO f xs)"
  by (induction xs) (auto intro: waits_intros)

lemma waits_AddPageEntry: "waits_for_mutex (AddPageEntry k pfn sig)"
  by (auto simp: waits_for_mutex_def AddPageEntry_eq MarkPageShared_eq bindO_def retO_def with_defs
      split: prod.splits option.splits bool.splits if_splits)

lemma waits_scan_region_pages: "waits_for_mutex (scan_region_pages k process fuel va regionEnd)"
proof (induction fuel arbitrary: va)
  case (Suc n)
  have "waits_for_mutex (scan_one_page k process va)" for va
    unfolding scan_one_page_def by (intro waits_intros waits_AddPageEntry)
  with Suc show ?case by (subst scan_region_pages.simps) (auto intro!: waits_intros)
qed (subst scan_region_pages.simps, auto intro: waits_intros)

lemma waits_scan_regions: "waits_for_mutex (scan_regions k process handle pageFuel fuel va)"
proof (induction fuel arbitrary: va)
  case (Suc n)
  with waits_scan_region_pages show ?case
    by (subst scan_regions.simps) (auto intro!: waits_intros)
qed (subst scan_regions.simps, auto intro: waits_intros)

lemma waits_scan: "waits_for_mutex (ScanOptedInProcesses k pageFuel fuel)"
proof -
  have "waits_for_mutex (ScanProcessPages k pageFuel fuel pid)" for pid
    unfolding ScanProcessPages_def by (intro waits_intros waits_scan_regions)
  then have "waits_for_mutex (seqO (forO (ScanProcessPages k pageFuel fuel) pids)
      (retO STATUS_SUCCESS))" for pids
    by (intro waits_intros)
  then show ?thesis unfolding waits_for_mutex_def by (auto simp: scan_eq split: if_splits)
qed

text \<open>The invariant that ties the scanner to the mutex.\<close>

definition stuck_owned :: "world \<Rightarrow> bool" where
  "stuck_owned w \<longleftrightarrow> (Scanner w = Stuck \<longrightarrow> gDedupeMutex (globals w))"

lemma stuck_owned_on_globals:
  "preserves gDedupeMutex m \<Longrightarrow> preserves stuck_owned (on_globals m)"
proof (rule preservesI)
  fix w w' assume m: "preserves gDedupeMutex m" and w: "stuck_owned w"
    and fin: "final_state (on_globals m w) = Some w'"
  then obtain s where s: "final_state (m (globals w)) = Some s" "w' = w\<lparr>globals := s\<rparr>"
    by (cases "m (globals w)") (auto simp: on_globals_def)
  with preservesD [OF m _ s(1)] w show "stuck_owned w'" by (auto simp: stuck_owned_def)
qed

lemma stuck_owned_scanner_round:
  assumes "lawful k"
  shows "preserves stuck_owned (scanner_round k pageFuel fuel)"
proof (rule preservesI)
  fix w w' assume w: "stuck_owned w" and fin: "final_state (scanner_round k pageFuel fuel w) = Some w'"
  have pass: "preserves stuck_owned (on_globals (ScanOptedInProcesses k pageFuel fuel))"
    by (rule stuck_owned_on_globals [OF owned_inv.scan [OF assms]])
  show "stuck_owned w'"
  proof (cases "on_globals (ScanOptedInProcesses k pageFuel fuel) w")
    case (Ret a v)
    with preservesD [OF pass w, of v] fin show ?thesis
      by (auto simp: scanner_round_def stuck_owned_def split: if_splits)
  next
    case (Hang v)
    then have "gDedupeMutex (globals v)"
      using waits_scan by (auto simp: on_globals_def waits_for_mutex_def split: outcome.splits)
    with Hang fin show ?thesis by (auto simp: scanner_round_def stuck_owned_def)
  qed (use fin in \<open>simp add: scanner_round_def\<close>)
qed

lemma stuck_owned_objects:
  "preserves stuck_owned IoDeleteSymbolicLink" "preserves stuck_owned IoDeleteDevice"
  "preserves stuck_owned (set_device b)"
  by (simp_all add: preserves_def stuck_owned_def IoDeleteSymbolicLink_def IoDeleteDevice_def
      set_device_def modO_def)

lemma stuck_owned_unload:
  assumes "lawful k"
  shows "preserves stuck_owned (DriverUnload k pageFuel fuel)"
proof -
  have "preserves stuck_owned (wait_for_scanner k pageFuel fuel)"
    using stuck_owned_scanner_round [OF assms] unfolding preserves_def wait_for_scanner_def
    by (auto split: scanner.splits)
  moreover have
    "preserves stuck_owned (modO (\<lambda>w. w\<lparr>globals := (globals w)\<lparr>gShutdownEvent := True\<rparr>\<rparr>))"
    "preserves stuck_owned (modO (\<lambda>w. w\<lparr>globals := (globals w)\<lparr>gScanThread := False\<rparr>\<rparr>))"
    by (simp_all add: preserves_def modO_def stuck_owned_def)
  ultimately show ?thesis
    unfolding DriverUnload_def StopPageScanner_def DestroyControlDevice_def
    by (intro preserves_intros stuck_owned_objects stuck_owned_on_globals
        owned_inv.shutdown)
qed

lemma reachable_stuck_owned: "reachable w \<Longrightarrow> stuck_owned w"
proof (induction rule: reachable.induct)
  case (load k io stale w)
  with DriverEntry_result [of k io stale] show ?case
    by (auto simp: stuck_owned_def)
next
  case (request w k p w')
  from preservesD [OF stuck_owned_on_globals [OF owned_inv.request [OF request(3)]]] request
  show ?case by blast
next
  case (scan w k pageFuel fuel w')
  from preservesD [OF stuck_owned_scanner_round [OF scan(3)]] scan show ?case by blast
next
  case (unload w k pageFuel fuel w')
  from preservesD [OF stuck_owned_unload [OF unload(3)]] unload show ?case by blast
qed

text \<open>
  C15: in every reachable state with a stuck scanner the mutex is owned, so unloading never
  returns and neither does a statistics request that asks for the whole report.
\<close>

theorem reachable_stuck_scanner:
  assumes "reachable w" and "Scanner w = Stuck" and "gScanThread (globals w)"
  shows "gDedupeMutex (globals w) \<and> (\<exists>w'. DriverUnload k pageFuel fuel w = Hang w') \<and>
    QueryDedupeStats buf sizeof_DedupeDriverStats info (globals w) = Hang (globals w)"
proof -
  have "gDedupeMutex (globals w)"
    using reachable_stuck_owned [OF assms(1)] assms(2) by (simp add: stuck_owned_def)
  moreover have "\<exists>w'. DriverUnload k pageFuel fuel w = Hang w'"
    using assms(2,3)
    by (simp add: DriverUnload_def StopPageScanner_def wait_for_scanner_def seqO_def bindO_def
        modO_def getO_def)
  ultimately show ?thesis by (simp add: QueryDedupeStats_eq)
qed

text \<open>Such a state: process 77 opts in, and its first two pages are both zero. The library
  of this kernel reads the answer 0 as a match, as the driver means it.\<close>

lemma demo_selectors:
  "ExAllocatePoolWithTag demo_kenv n" "MM_LOWEST_USER_ADDRESS demo_kenv = 0x10000"
  "MM_HIGHEST_USER_ADDRESS demo_kenv = 0x7FFFFFFEFFFF"
  "MmGetPhysicalAddress demo_kenv process va = Some va"
  "UserPage demo_kenv process va = Some (replicate 512 0)"
  "PsLookupProcessByProcessId demo_kenv h = (STATUS_SUCCESS, h)"
  "ObOpenObjectByPointer demo_kenv process = (STATUS_SUCCESS, process)"
  "ZwQueryVirtualMemory demo_kenv h 0x10000 = (STATUS_SUCCESS,
     \<lparr>BaseAddress = 0x10000, RegionSize = 0x3000, State = 0x1000, Protect = 4\<rparr>)"
  by (simp_all add: demo_kenv_def)

lemma reachable_loaded1: "reachable loaded1"
proof (rule reachable.request [OF reachable_loaded _ lawful_demo])
  show "final_state (on_globals (DriverDeviceControl demo_kenv (demo_irp IOCTL_REGISTER_PROCESS 77))
      loaded) = Some loaded1"
    by (simp add: on_globals_def DriverDeviceControl_def sizeof_HANDLE_def bindO_def
        RegisterOptInProcess_eq admission_demo insert_process_def rtl_insert_def demo_searches
        linear_search_def empty_context_def AllocateGenericTableEntry_def complete_request_def
        retO_def loaded1_def demo_selectors)
qed simp

lemma scan_loaded1: "\<exists>s. ScanOptedInProcesses demo_kenv (Suc (Suc 0)) (Suc 0) (globals loaded1) = Hang s"
proof -
  define sig where "sig = MakePageSignatureFromUserPage (replicate 512 0)"
  let ?s = "globals loaded1"
  let ?t = "with_pages [new_page_entry 16 sig] ?s"
  have s: "\<not> gDedupeMutex ?s" "page_table ?s = []" "process_table ?s = [\<lparr>ProcessId = 77\<rparr>]"
    by (simp_all add: loaded1_def with_defs empty_context_def)
  have one: "AddPageEntry demo_kenv 16 sig ?s = Ret STATUS_SUCCESS ?t"
    using s by (simp add: AddPageEntry_eq insert_page_def rtl_insert_def demo_searches
        linear_search_def AllocateGenericTableEntry_def demo_selectors)
  have "ComparePageEntries demo_kenv (new_page_entry 17 sig) (new_page_entry 16 sig) = 0"
    by (simp add: ComparePageEntries_zero_iff new_page_entry_def first_pfn_def
        ArePhysicalPagesIdentical_def PAGE_SHIFT_def demo_kenv_def)
  then have "insert_page demo_kenv 17 sig [new_page_entry 16 sig]
      = ([new_page_entry 16 sig], Some (0, False))"
    by (simp add: insert_page_def rtl_insert_def demo_searches linear_search_def)
  moreover have "snd (note_duplicate 17 (new_page_entry 16 sig))"
    by (simp add: note_duplicate_def record_frame_def frames_of_def new_page_entry_def
        PfnTableSize_def Let_def)
  moreover have "insert_group demo_kenv pfn sig' [] = ([new_group pfn sig'], Some (0, True))"
    for pfn sig'
    by (simp add: insert_group_def rtl_insert_def AllocateGenericTableEntry_def demo_selectors
        demo_searches linear_search_def)
  moreover have "group_table ?s = []" by (simp add: loaded1_def with_defs empty_context_def)
  ultimately have two: "\<exists>v. AddPageEntry demo_kenv 17 sig ?t = Hang v"
    using s(1)
    by (cases "note_duplicate 17 (new_page_entry 16 sig)")
      (simp add: AddPageEntry_eq MarkPageShared_eq bindO_def with_defs)
  have probe: "probe_page demo_kenv process va = Some (frame_of_physical va, sig)" for process va
    by (simp add: probe_page_def demo_selectors sig_def)
  have frames: "frame_of_physical 0x10000 = 16" "frame_of_physical 0x11000 = 17"
    by (simp_all add: frame_of_physical_def PAGE_SHIFT_def)
  have "\<exists>v. scan_region_pages demo_kenv 77 (Suc (Suc 0)) 0x10000 0x13000 ?s = Hang v"
    using two
    by (auto simp: scan_region_pages.simps scan_one_page_def probe frames
        PAGE_SIZE_def seqO_def bindO_def one retO_def)
  then have "\<exists>v. ScanProcessPages demo_kenv (Suc (Suc 0)) (Suc 0) 77 ?s = Hang v"
    by (auto simp: ScanProcessPages_def demo_selectors scan_regions.simps scannable_def
        region_end_def MEM_COMMIT_def PAGE_GUARD_def PAGE_NOACCESS_def seqO_def bindO_def)
  with s show ?thesis
    by (auto simp: scan_eq MaxScannedProcesses_def seqO_def bindO_def)
qed

lemma reachable_stuck:
  "\<exists>w. reachable w \<and> Scanner w = Stuck \<and> gScanThread (globals w)"
proof -
  obtain s where s: "ScanOptedInProcesses demo_kenv (Suc (Suc 0)) (Suc 0) (globals loaded1) = Hang s"
    using scan_loaded1 by blast
  let ?w = "loaded1\<lparr>globals := s, Scanner := Stuck\<rparr>"
  have "Scanner loaded1 = Waiting" by (simp add: loaded1_def)
  moreover have "scanner_round demo_kenv (Suc (Suc 0)) (Suc 0) loaded1 = Hang ?w"
    by (simp add: scanner_round_def on_globals_def s)
  ultimately have "reachable ?w"
    using reachable.scan [OF reachable_loaded1 _ lawful_demo, of "Suc (Suc 0)" "Suc 0" ?w] by simp
  moreover have "preserves gScanThread (ScanOptedInProcesses demo_kenv (Suc (Suc 0)) (Suc 0))"
    by (rule preserves_ScanOptedInProcesses)
      (auto simp: preserves_def AddPageEntry_eq MarkPageShared_eq with_defs bindO_def retO_def
        split: prod.splits option.splits bool.splits if_splits)
  then have "gScanThread s"
    using preservesD [of gScanThread "ScanOptedInProcesses demo_kenv (Suc (Suc 0)) (Suc 0)"
        "globals loaded1" s] s
    by (simp add: loaded1_def with_defs)
  ultimately show ?thesis by (intro exI [of _ ?w]) simp
qed

theorem reachable_stuck_scanner_witness:
  "\<exists>w. reachable w \<and> Scanner w = Stuck \<and> gDedupeMutex (globals w) \<and>
     (\<exists>w'. DriverUnload demo_kenv 0 0 w = Hang w')"
  using reachable_stuck reachable_stuck_scanner by blast

section \<open>The frame arrays\<close>

text \<open>An entry that lists at least one and at most 64 different frames.\<close>

definition frames_ok :: "'a SharedPageGroup_scheme \<Rightarrow> bool" where
  "frames_ok e \<longleftrightarrow> wf_frames e \<and> frames_of e \<noteq> []"

lemma frames_okD:
  assumes "frames_ok e"
  shows "length (PageFrameNumbers e) = 64" and "Suc 0 \<le> unat (PageFrameCount e)"
    and "unat (PageFrameCount e) \<le> 64" and "distinct (frames_of e)"
proof -
  have "length (frames_of e) = unat (PageFrameCount e)" "frames_of e \<noteq> []"
    using assms length_frames_of by (auto simp: frames_ok_def)
  then have "unat (PageFrameCount e) \<noteq> 0" by (metis length_0_conv)
  then show "Suc 0 \<le> unat (PageFrameCount e)" by simp
qed (use assms in \<open>simp_all add: frames_ok_def wf_frames_def PfnTableSize_def\<close>)

lemma frames_ok_new: "frames_ok (new_page_entry pfn sig)" "frames_ok (new_group pfn sig)"
  by (simp_all add: frames_ok_def wf_frames_def frames_of_def new_page_entry_def new_group_def
      PfnTableSize_def)

lemma frames_ok_record: "frames_ok e \<Longrightarrow> frames_ok (record_frame pfn e)"
  by (auto simp: frames_ok_def wf_frames_record_frame frames_of_record_frame)

lemma frames_ok_shared [simp]: "frames_ok (e\<lparr>Shared := b\<rparr>) = frames_ok e"
  by (simp add: frames_ok_def wf_frames_def frames_of_def)

lemma frames_ok_note: "frames_ok e \<Longrightarrow> frames_ok (fst (note_duplicate pfn e))"
  by (simp add: note_duplicate_def Let_def frames_ok_record)

definition frames_intact :: "driver \<Rightarrow> bool" where
  "frames_intact s \<longleftrightarrow> unprotected s \<and> list_all frames_ok (page_table s) \<and>
     list_all frames_ok (group_table s)"

lemma list_all_update: "list_all Q t \<Longrightarrow> Q x \<Longrightarrow> list_all Q (t[i := x])"
  by (auto simp: list_all_iff dest!: set_update_subset_insert [THEN subsetD])

lemma list_all_promoted:
  assumes "rtl_search (search_group k) (ComparePageEntries k)" and "list_all frames_ok t"
  shows "list_all frames_ok (promoted_groups k pfn sig t)"
proof -
  obtain t' r where ins: "insert_group k pfn sig t = (t', r)" by fastforce
  note i = rtl_search.insert_list_all [OF assms(1) ins [unfolded insert_group_def] assms(2)
      frames_ok_new(2)]
  show ?thesis
  proof (cases r)
    case (Some x)
    obtain j new where x: "x = (j, new)" by fastforce
    have "frames_ok (t' ! j)" using i(1) i(2) [of j new] Some x by (simp add: list_all_length)
    then show ?thesis
      using ins Some x i(1) by (simp add: promoted_groups_def list_all_update frames_ok_record)
  qed (use ins i(1) in \<open>simp add: promoted_groups_def\<close>)
qed

lemma frames_intact_AddPageEntry:
  assumes "lawful k"
  shows "preserves frames_intact (AddPageEntry k pfn sig)"
proof (rule preservesI)
  fix s s' assume s: "frames_intact s" and fin: "final_state (AddPageEntry k pfn sig s) = Some s'"
  have "unprotected s'"
    using preservesD [OF preserves_AddPageEntry _ fin] s by (simp add: frames_intact_def)
  moreover have "list_all frames_ok (page_table s') \<and> list_all frames_ok (group_table s')"
  proof (cases "gDedupeMutex s")
    case False
    obtain t r where ins: "insert_page k pfn sig (page_table s) = (t, r)" by fastforce
    have k: "rtl_search (search_page k) (ComparePageEntries k)"
      "rtl_search (search_group k) (ComparePageEntries k)" using assms by (simp_all add: lawful_def)
    have old: "list_all frames_ok (page_table s)" "list_all frames_ok (group_table s)"
      using s by (simp_all add: frames_intact_def)
    note i = rtl_search.insert_list_all [OF k(1) ins [unfolded insert_page_def] old(1)
        frames_ok_new(1)]
    note groups = list_all_promoted [OF k(2) old(2)]
    show ?thesis
    proof (cases r)
      case (Some x)
      obtain j new where x: "x = (j, new)" by fastforce
      obtain e promote where n: "note_duplicate pfn (t ! j) = (e, promote)" by fastforce
      have "frames_ok e"
        using frames_ok_note [of "t ! j" pfn] i(1) i(2) [of j new] Some x n
        by (simp add: list_all_length)
      then have "list_all frames_ok (t[j := e])" using i(1) by (rule list_all_update [rotated])
      with False fin ins Some x n i(1) old groups show ?thesis
        by (cases new; cases promote)
          (auto simp: AddPageEntry_eq final_state_map MarkPageShared_eq with_defs split: if_splits)
    qed (use False fin ins i(1) old in \<open>auto simp: AddPageEntry_eq with_defs\<close>)
  qed (use s fin in \<open>auto simp: AddPageEntry_eq frames_intact_def\<close>)
  ultimately show "frames_intact s'" by (simp add: frames_intact_def)
qed

interpretation frames_inv: driver_invariant frames_intact
proof
  show "preserves frames_intact (AddPageEntry k pfn sig)" if "lawful k" for k pfn sig
    using that by (rule frames_intact_AddPageEntry)
  show "preserves frames_intact (UnmarkPageShared k pfn sig)" if "lawful k" for k pfn sig
    unfolding preserves_def
    using UnmarkPageShared_unprotected [OF that]
    by (auto simp: frames_intact_def unprotected_def split: if_splits)
  show "preserves frames_intact (CowFaultCallback k va wr)" if "lawful k" for k va wr
    unfolding preserves_def
    using CowFaultCallback_unprotected [OF that]
    by (auto simp: frames_intact_def unprotected_def split: if_splits)
qed (auto simp: frames_intact_def unprotected_def with_defs list_all_iff)

lemma reachable_frames_intact: "reachable w \<Longrightarrow> frames_intact (globals w)"
proof (induction rule: reachable.induct)
  case (load k io stale w)
  have "frames_intact s'" if "InitializeDedupeDriver s = Ret st s'" for s st s'
    using that by (auto simp: InitializeDedupeDriver_eq frames_intact_def unprotected_def
        empty_context_def)
  with frames_inv.entry_holds load show ?case by blast
next
  case (request w k p w')
  from preservesD [OF on_globals_preserves [OF frames_inv.request [OF request(3)]]] request
  show ?case by blast
next
  case (scan w k pageFuel fuel w')
  from preservesD [OF frames_inv.scanner_round_holds [OF scan(3)]] scan show ?case by blast
next
  case (unload w k pageFuel fuel w')
  from preservesD [OF frames_inv.unload_holds [OF unload(3)]] unload show ?case by blast
qed

text \<open>
  C26: the frame arrays are safe. In every reachable state of the driver, whatever the kernel
  answers and the library finds, every page entry and every shared group has an array of 64
  frame numbers of which it lists at least one (the one that the compare routine reads) and
  at most 64, all different: no frame is ever written or read outside the array.
\<close>

theorem reachable_frames_ok:
  assumes "reachable w"
  shows "list_all (\<lambda>e. length (PageFrameNumbers e) = 64 \<and> 1 \<le> unat (PageFrameCount e) \<and>
      unat (PageFrameCount e) \<le> 64 \<and> distinct (frames_of e)) (page_table (globals w)) \<and>
    list_all (\<lambda>g. length (PageFrameNumbers g) = 64 \<and> 1 \<le> unat (PageFrameCount g) \<and>
      unat (PageFrameCount g) \<le> 64 \<and> distinct (frames_of g)) (group_table (globals w))"
  using reachable_frames_intact [OF assms]
  by (auto simp: frames_intact_def list_all_iff One_nat_def intro: frames_okD)

theorem reachable_frames_ok_witness:
  "\<exists>w. reachable w \<and> Scanner w = Stuck \<and>
     list_all (\<lambda>e. unat (PageFrameCount e) \<le> 64) (page_table (globals w))"
proof -
  from reachable_stuck obtain w where w: "reachable w" "Scanner w = Stuck" by blast
  from reachable_frames_ok [OF w(1)] w show ?thesis by (auto simp: list_all_iff)
qed

end
