(* ===== verification/Clients.thy ===== *)
theory Clients
  imports DriverIoctl
begin

text \<open>
  The clients of the driver: the command line controller (user/controller.cpp), the
  integration tests (user/driver_test.cpp) and the latency benchmark
  (user/driver_benchmark.cpp). A device answers a control request with a reply; it is a
  parameter of every client. Output is the list of lines a command prints.
\<close>

section \<open>Devices\<close>

text \<open>What \<open>DeviceIoControl\<close> gives back: its result, the last error, the number of bytes it
  reports, and the bytes it copied to the output buffer.\<close>

record reply =
  ok :: bool
  last_error :: u32
  bytesReturned :: u32
  out_bytes :: "u8 list"

text \<open>A device takes the control code, the input bytes and the length of the output buffer.\<close>

type_synonym 's device = "u32 \<Rightarrow> u8 list \<Rightarrow> nat \<Rightarrow> 's \<Rightarrow> ('s, reply) outcome"

definition overlay :: "u8 list \<Rightarrow> u8 list \<Rightarrow> u8 list" where
  "overlay new old = new @ drop (length new) old"

definition ERROR_MORE_DATA :: u32 where "ERROR_MORE_DATA = 234"
definition ERROR_INSUFFICIENT_BUFFER :: u32 where "ERROR_INSUFFICIENT_BUFFER = 122"

text \<open>The control codes as the clients define them, all with any access.\<close>

definition client_code :: "u32 \<Rightarrow> u32" where
  "client_code function = CTL_CODE FILE_DEVICE_UNKNOWN function METHOD_BUFFERED FILE_ANY_ACCESS"

section \<open>The controller\<close>

datatype line = Usage | OpenFailed | InvalidPid string | IoctlFailed u32
  | Registered u32 | Removed u32
  | StatsFailed u32 | StatsLines u32 u32 u32
  | HealthFailed u32 | HealthLines u32 u32 u32 u32 u32 u32 bool
  | DrainFailed u32 | DrainDone
  | ListFailed u32 | ListBadSize | ListTruncated | ListLines u64 "u64 list"

text \<open>\<open>wcstoul\<close> with base ten: white space, a sign, digits; the largest value on overflow.\<close>

definition is_space :: "char \<Rightarrow> bool" where
  "is_space c \<longleftrightarrow> (of_char c :: nat) = 32 \<or> (9 \<le> (of_char c :: nat) \<and> (of_char c :: nat) \<le> 13)"

definition is_digit :: "char \<Rightarrow> bool" where
  "is_digit c \<longleftrightarrow> 48 \<le> (of_char c :: nat) \<and> (of_char c :: nat) \<le> 57"

definition digits_value :: "string \<Rightarrow> nat" where
  "digits_value ds = foldl (\<lambda>v c. 10 * v + ((of_char c :: nat) - 48)) 0 ds"

definition wcstoul :: "string \<Rightarrow> u32" where
  "wcstoul input =
     (let t = dropWhile is_space input;
          negative = (take 1 t = ''-'');
          u = (if negative \<or> take 1 t = ''+'' then drop 1 t else t);
          v = digits_value (takeWhile is_digit u)
      in if 2 ^ 32 \<le> v then - 1 else if negative then - of_nat v else of_nat v)"

text \<open>The loop that lists the processes: the buffer grows until the reply fits or an error
  ends it. The result is success, the buffer, the bytes reported and the last error.\<close>

fun list_loop :: "'s device \<Rightarrow> nat \<Rightarrow> u8 list \<Rightarrow> 's \<Rightarrow> ('s, bool \<times> u8 list \<times> u32 \<times> u32) outcome" where
  "list_loop dev 0 buffer = (\<lambda>s. Spent)"
| "list_loop dev (Suc fuel) buffer =
     bindO (dev (client_code 0x803) [] (length buffer)) (\<lambda>r.
       let buffer' = overlay (out_bytes r) buffer in
       if ok r then retO (True, buffer', bytesReturned r, last_error r)
       else if (last_error r = ERROR_MORE_DATA \<or> last_error r = ERROR_INSUFFICIENT_BUFFER)
               \<and> 0 < bytesReturned r
       then
         let size = length buffer div 8;
             nextSize = (unat (bytesReturned r) + 7) div 8;
             nextSize = (if nextSize \<le> size then size * 2 else nextSize)
         in list_loop dev fuel (buffer' @ replicate (8 * (nextSize - size)) 0)
       else retO (False, buffer', bytesReturned r, last_error r))"

definition list_lines :: "u8 list \<Rightarrow> u32 \<Rightarrow> nat \<times> line list" where
  "list_lines buffer bytes =
     (if bytes < 8 then (1, [ListBadSize])
      else
        let count = read_u64 0 buffer; size = length buffer div 8;
            printable = min (unat count) (size - 1);
            ids = map (\<lambda>i. read_u64 (8 * (i + 1)) buffer) [0..<printable]
        in (0, (if size - 1 < unat count then [ListTruncated] else []) @ [ListLines count ids]))"

definition optin_or_optout :: "'s device \<Rightarrow> bool \<Rightarrow> string list \<Rightarrow> 's \<Rightarrow> ('s, nat \<times> line list) outcome" where
  "optin_or_optout dev optin args =
     (if length args \<noteq> 2 then retO (1, [Usage])
      else
        let pid = wcstoul (args ! 1) in
        if pid = 0 then retO (1, [InvalidPid (args ! 1)])
        else bindO (dev (client_code (if optin then 0x800 else 0x801))
                        (le_encode 8 (unat pid)) 0) (\<lambda>r.
          if \<not> ok r then retO (1, [IoctlFailed (last_error r)])
          else retO (0, [if optin then Registered pid else Removed pid])))"

text \<open>\<open>wmain\<close>: the arguments after the program name, and whether the device could be opened.\<close>

definition controller :: "'s device \<Rightarrow> nat \<Rightarrow> bool \<Rightarrow> string list \<Rightarrow> 's \<Rightarrow> ('s, nat \<times> line list) outcome" where
  "controller dev fuel opened args =
     (if args = [] then retO (1, [Usage])
      else
        let command = hd args in
        if command \<notin> set [''optin'', ''optout'', ''stats'', ''list'', ''health'', ''drain'']
        then retO (1, [Usage])
        else if \<not> opened then retO (1, [OpenFailed])
        else if command = ''optin'' \<or> command = ''optout''
        then optin_or_optout dev (command = ''optin'') args
        else if command = ''stats'' then
          bindO (dev (client_code 0x802) [] 12) (\<lambda>r.
            let stats = overlay (out_bytes r) (replicate 12 0) in
            if \<not> ok r then retO (1, [StatsFailed (last_error r)])
            else retO (0, [StatsLines (read_u32 0 stats) (read_u32 4 stats) (read_u32 8 stats)]))
        else if command = ''health'' then
          bindO (dev (client_code 0x804) [] 28) (\<lambda>r.
            let health = overlay (out_bytes r) (replicate 28 0) in
            if \<not> ok r then retO (1, [HealthFailed (last_error r)])
            else retO (0, [HealthLines (read_u32 0 health) (read_u32 4 health)
              (read_u32 8 health) (read_u32 12 health) (read_u32 16 health) (read_u32 20 health)
              (read_u32 24 health \<noteq> 0)]))
        else if command = ''drain'' then
          bindO (dev (client_code 0x805) [] 0) (\<lambda>r.
            if \<not> ok r then retO (1, [DrainFailed (last_error r)])
            else retO (0, [DrainDone]))
        else
          bindO (list_loop dev fuel (replicate 64 0)) (\<lambda>(success, buffer, bytes, err).
            if \<not> success then retO (1, [ListFailed err])
            else retO (list_lines buffer bytes)))"

section \<open>The integration tests\<close>

definition sendIoControl :: "'s device \<Rightarrow> u32 \<Rightarrow> u8 list \<Rightarrow> nat \<Rightarrow> 's \<Rightarrow> ('s, bool \<times> reply) outcome" where
  "sendIoControl dev controlCode inBuffer outBufferSize =
     bindO (dev controlCode inBuffer outBufferSize) (\<lambda>r.
       if \<not> ok r then retO (False, r) else retO (True, r))"

definition queryStats :: "'s device \<Rightarrow> 's \<Rightarrow> ('s, bool) outcome" where
  "queryStats dev =
     bindO (sendIoControl dev (client_code 0x802) [] 12) (\<lambda>(sent, r).
       if \<not> sent then retO False else retO (12 \<le> bytesReturned r))"

text \<open>The tests' health structure has no field for private copies: 24 bytes. The result is
  the success and the bytes of the structure.\<close>

definition queryHealth :: "'s device \<Rightarrow> 's \<Rightarrow> ('s, bool \<times> u8 list) outcome" where
  "queryHealth dev =
     bindO (sendIoControl dev (client_code 0x804) [] 24) (\<lambda>(sent, r).
       let health = overlay (out_bytes r) (replicate 24 0) in
       if \<not> sent then retO (False, health) else retO (24 \<le> bytesReturned r, health))"

definition testOptInPolicyBlocking :: "'s device \<Rightarrow> 's \<Rightarrow> ('s, bool) outcome" where
  "testOptInPolicyBlocking dev =
     bindO (dev (client_code 0x800) (le_encode 8 4) 0) (\<lambda>r. retO (\<not> ok r))"

text \<open>The search of the list buffer: \<open>index < count\<close> and \<open>index + 1 < size\<close>.\<close>

definition listed :: "u64 \<Rightarrow> u8 list \<Rightarrow> bool" where
  "listed pid buffer =
     list_ex (\<lambda>index. read_u64 (8 * (index + 1)) buffer = pid)
       [0..<min (unat (read_u64 0 buffer)) (length buffer div 8 - 1)]"

definition testOptInRoundTrip :: "'s device \<Rightarrow> u64 \<Rightarrow> 's \<Rightarrow> ('s, bool) outcome" where
  "testOptInRoundTrip dev currentPid =
     bindO (sendIoControl dev (client_code 0x800) (le_encode 8 (unat currentPid)) 0) (\<lambda>(sent, r).
       if \<not> sent then retO False
       else bindO (sendIoControl dev (client_code 0x803) [] 512) (\<lambda>(sent, r).
         let buffer = overlay (out_bytes r) (replicate 512 0) in
         if \<not> sent then retO False
         else if bytesReturned r < 8 then retO False
         else if \<not> listed currentPid buffer then retO False
         else bindO (sendIoControl dev (client_code 0x805) [] 0) (\<lambda>(sent, r).
           if \<not> sent then retO False
           else bindO (sendIoControl dev (client_code 0x801)
                         (le_encode 8 (unat currentPid)) 0) (\<lambda>(sent, r).
             if \<not> sent then retO False else retO True))))"

text \<open>The end of \<open>testProcessListResizes\<close>, with the buffer of the last query.\<close>

definition check_listed :: "'s device \<Rightarrow> u64 \<Rightarrow> u8 list \<Rightarrow> u32 \<Rightarrow> 's \<Rightarrow> ('s, bool) outcome" where
  "check_listed dev currentPid buffer bytes =
     (if bytes < 8 then retO False
      else bindO (sendIoControl dev (client_code 0x801) (le_encode 8 (unat currentPid)) 0)
        (\<lambda>(sent, r). if \<not> sent then retO False else retO (listed currentPid buffer)))"

definition testProcessListResizes :: "'s device \<Rightarrow> u64 \<Rightarrow> 's \<Rightarrow> ('s, bool) outcome" where
  "testProcessListResizes dev currentPid =
     bindO (sendIoControl dev (client_code 0x800) (le_encode 8 (unat currentPid)) 0) (\<lambda>(sent, r).
       if \<not> sent then retO False
       else bindO (dev (client_code 0x803) [] 8) (\<lambda>r.
         let buffer = overlay (out_bytes r) (replicate 8 0) in
         if \<not> ok r then
           (if last_error r = ERROR_MORE_DATA \<or> last_error r = ERROR_INSUFFICIENT_BUFFER then
              (if bytesReturned r < 16 then retO False
               else
                 let size = 8 * ((unat (bytesReturned r) + 7) div 8);
                     resized = take size (buffer @ replicate (size - 8) 0)
                 in bindO (sendIoControl dev (client_code 0x803) [] size) (\<lambda>(sent, r).
                      if \<not> sent then retO False
                      else check_listed dev currentPid (overlay (out_bytes r) resized)
                             (bytesReturned r)))
            else retO False)
         else check_listed dev currentPid buffer (bytesReturned r)))"

definition testHealthAfterDrain :: "'s device \<Rightarrow> 's \<Rightarrow> ('s, bool) outcome" where
  "testHealthAfterDrain dev =
     bindO (queryHealth dev) (\<lambda>(queried, healthBefore).
       if \<not> queried then retO False
       else bindO (sendIoControl dev (client_code 0x805) [] 0) (\<lambda>(sent, r).
         if \<not> sent then retO False
         else bindO (queryHealth dev) (\<lambda>(queried, healthAfter).
           if \<not> queried then retO False
           else retO (read_u32 16 healthAfter = 0))))"

text \<open>The test passes the address of a local variable; \<open>pad\<close> are the padding bytes of the
  structure.\<close>

definition testCowCallbackStubInvocation :: "'s device \<Rightarrow> u64 \<Rightarrow> u8 list \<Rightarrow> 's \<Rightarrow> ('s, bool) outcome" where
  "testCowCallbackStubInvocation dev localAddress pad =
     bindO (sendIoControl dev (client_code 0x806) (le_encode 8 (unat localAddress) @ [1] @ take 7 pad) 4)
       (\<lambda>(sent, r).
          let callbackStatus = overlay (out_bytes r) (le_encode 4 (unat STATUS_UNSUCCESSFUL)) in
          if \<not> sent then retO False
          else if bytesReturned r \<noteq> 4 then retO False
          else retO (read_u32 0 callbackStatus = STATUS_NOT_SUPPORTED))"

definition testCowInterceptionReporting :: "'s device \<Rightarrow> 's \<Rightarrow> ('s, bool) outcome" where
  "testCowInterceptionReporting dev =
     bindO (queryHealth dev) (\<lambda>(queried, health).
       if \<not> queried then retO False else retO (read_u32 20 health = 1))"

text \<open>\<open>wmain\<close>: every test runs, whatever the ones before gave.\<close>

fun all_of :: "('s \<Rightarrow> ('s, bool) outcome) list \<Rightarrow> bool \<Rightarrow> 's \<Rightarrow> ('s, bool) outcome" where
  "all_of [] passed = retO passed"
| "all_of (t # ts) passed = bindO t (\<lambda>b. all_of ts (passed \<and> b))"

definition driver_test :: "'s device \<Rightarrow> u64 \<Rightarrow> u64 \<Rightarrow> u8 list \<Rightarrow> bool \<Rightarrow> 's \<Rightarrow> ('s, nat) outcome" where
  "driver_test dev currentPid localAddress pad opened =
     (if \<not> opened then retO 1
      else bindO (all_of
          [testOptInPolicyBlocking dev, testProcessListResizes dev currentPid,
           testOptInRoundTrip dev currentPid, testHealthAfterDrain dev,
           testCowInterceptionReporting dev, testCowCallbackStubInvocation dev localAddress pad,
           queryStats dev, bindO (queryHealth dev) (\<lambda>(queried, health). retO queried)] True)
        (\<lambda>passed. retO (if passed then 0 else 1)))"

section \<open>The latency benchmark\<close>

definition runQuery :: "'s device \<Rightarrow> u32 \<Rightarrow> nat \<Rightarrow> 's \<Rightarrow> ('s, bool) outcome" where
  "runQuery dev controlCode outBufferSize =
     bindO (dev controlCode [] outBufferSize) (\<lambda>r.
       retO (ok r \<and> of_nat outBufferSize \<le> bytesReturned r))"

fun benchmarkQuery :: "'s device \<Rightarrow> nat \<Rightarrow> u32 \<Rightarrow> nat \<Rightarrow> 's \<Rightarrow> ('s, bool) outcome" where
  "benchmarkQuery dev 0 controlCode outBufferSize = retO True"
| "benchmarkQuery dev (Suc i) controlCode outBufferSize =
     bindO (runQuery dev controlCode outBufferSize) (\<lambda>b.
       if \<not> b then retO False else benchmarkQuery dev i controlCode outBufferSize)"

definition driver_benchmark :: "'s device \<Rightarrow> bool \<Rightarrow> 's \<Rightarrow> ('s, nat) outcome" where
  "driver_benchmark dev opened =
     (if \<not> opened then retO 1
      else bindO (benchmarkQuery dev 50 (client_code 0x802) 12) (\<lambda>b.
        if \<not> b then retO 1
        else bindO (benchmarkQuery dev 50 (client_code 0x804) 28) (\<lambda>b.
          if \<not> b then retO 1 else retO 0)))"

end
