(* ===== verification/Integration.thy ===== *)
theory Integration
  imports Clients DriverSystem
begin

text \<open>
  The clients against the driver: a device whose answers are those of the driver's dispatch
  routine, with what the I/O manager and \<open>DeviceIoControl\<close> do in between. The request gets
  a system buffer as long as the longer of the two lengths, filled with the input and then
  with bytes \<open>fill\<close> that nobody has initialised; the call succeeds when the status is a
  success, and unless the status is an error as many bytes are copied back as \<open>Information\<close>
  counts, whatever the lengths of the buffers: past the end of the system buffer they are
  bytes \<open>pool\<close> of other memory. (No reply that the driver gives to its clients is longer
  than the client's buffer, as is proved below.)
\<close>

definition NT_ERROR :: "NTSTATUS \<Rightarrow> bool" where
  "NT_ERROR status \<longleftrightarrow> drop_bit 30 status = 3"

definition device_irp :: "u8 \<Rightarrow> u32 \<Rightarrow> u8 list \<Rightarrow> nat \<Rightarrow> irp" where
  "device_irp fill code input outLength =
     \<lparr>IoControlCode = code, InputBufferLength = of_nat (length input),
      OutputBufferLength = of_nat outLength,
      SystemBuffer = input @ replicate (outLength - length input) fill,
      IrpStatus = 0, Information = 0\<rparr>"

definition win32_reply :: "(nat \<Rightarrow> u8) \<Rightarrow> (NTSTATUS \<Rightarrow> u32) \<Rightarrow> NTSTATUS \<Rightarrow> irp \<Rightarrow> reply" where
  "win32_reply pool dos_error status p =
     \<lparr>ok = NT_SUCCESS status, last_error = (if NT_SUCCESS status then 0 else dos_error status),
      bytesReturned = (if NT_ERROR status then 0 else ucast (Information p)),
      out_bytes = (if NT_ERROR status then []
                   else map (\<lambda>i. if i < length (SystemBuffer p) then SystemBuffer p ! i else pool i)
                          [0..<unat (Information p)])\<rparr>"

definition driver_device ::
  "kenv \<Rightarrow> u8 \<Rightarrow> (nat \<Rightarrow> u8) \<Rightarrow> (NTSTATUS \<Rightarrow> u32) \<Rightarrow> driver device" where
  "driver_device k fill pool dos_error code input outLength =
     bindO (DriverDeviceControl k (device_irp fill code input outLength))
       (\<lambda>(status, p). retO (win32_reply pool dos_error status p))"

section \<open>Codes that the driver does not know\<close>

definition driver_codes :: "u32 list" where
  "driver_codes = [IOCTL_REGISTER_PROCESS, IOCTL_UNREGISTER_PROCESS, IOCTL_QUERY_STATS,
     IOCTL_LIST_PROCESSES, IOCTL_QUERY_HEALTH, IOCTL_DRAIN, IOCTL_INVOKE_COW_FAULT]"

lemma client_code_values:
  "client_code 0x800 = 0x222000" "client_code 0x801 = 0x222004" "client_code 0x802 = 0x222008"
  "client_code 0x803 = 0x22200C" "client_code 0x804 = 0x222010" "client_code 0x805 = 0x222014"
  "client_code 0x806 = 0x222018"
  by (simp_all add: client_code_def access_defs)

lemma client_code_unknown:
  "function \<in> {0x800, 0x801, 0x802, 0x803, 0x804, 0x805} \<Longrightarrow> client_code function \<notin> set driver_codes"
  by (auto simp: client_code_values driver_codes_def ioctl_values)

lemma unknown_code:
  "IoControlCode p \<notin> set driver_codes \<Longrightarrow>
     DriverDeviceControl k p s =
       Ret (STATUS_INVALID_DEVICE_REQUEST, p\<lparr>IrpStatus := STATUS_INVALID_DEVICE_REQUEST\<rparr>) s"
  by (simp add: DriverDeviceControl_def driver_codes_def complete_request_def retO_def)

text \<open>The reply to a code the driver does not know.\<close>

definition rejection :: "(NTSTATUS \<Rightarrow> u32) \<Rightarrow> reply" where
  "rejection dos_error = \<lparr>ok = False, last_error = dos_error STATUS_INVALID_DEVICE_REQUEST,
                           bytesReturned = 0, out_bytes = []\<rparr>"

lemma driver_device_rejects:
  assumes "code \<notin> set driver_codes"
  shows "driver_device k fill pool dos_error code input outLength s = Ret (rejection dos_error) s"
proof -
  have "IoControlCode (device_irp fill code input outLength) \<notin> set driver_codes"
    using assms by (simp add: device_irp_def)
  then show ?thesis
    by (simp add: driver_device_def bindO_def unknown_code retO_def win32_reply_def rejection_def
        NT_ERROR_def STATUS_INVALID_DEVICE_REQUEST_def NT_SUCCESS_def)
qed

lemma rejection_simps [simp]:
  "\<not> ok (rejection d)" "bytesReturned (rejection d) = 0" "out_bytes (rejection d) = []"
  "last_error (rejection d) = d STATUS_INVALID_DEVICE_REQUEST"
  by (simp_all add: rejection_def)

lemma client_rejected [outcome_simps]:
  "function \<in> {0x800, 0x801, 0x802, 0x803, 0x804, 0x805} \<Longrightarrow>
     bindO (driver_device k fill pool d (client_code function) input n) f s = f (rejection d) s"
  by (simp add: bindO_def driver_device_rejects [OF client_code_unknown])

section \<open>Listing processes on a conforming device\<close>

text \<open>What a client may expect of a device that lists the ids \<open>ids\<close>, from the documentation
  of \<open>DeviceIoControl\<close>: with room for everything, the call succeeds and reports exactly the
  count and the ids. With room for the count only or for some ids, it fails with
  \<open>ERROR_MORE_DATA\<close> or \<open>ERROR_INSUFFICIENT_BUFFER\<close>, fills at most the buffer, and reports a
  positive number of bytes: those it did fill, or those it would need.\<close>

definition lists_processes :: "'s device \<Rightarrow> u64 list \<Rightarrow> 's \<Rightarrow> bool" where
  "lists_processes dev ids s \<longleftrightarrow>
     (\<forall>outLength. 8 \<le> outLength \<and> outLength < 2 ^ 32 \<longrightarrow>
        (\<exists>r. dev (client_code 0x803) [] outLength s = Ret r s \<and>
           (if outLength < 8 + 8 * length ids
            then \<not> ok r \<and> last_error r \<in> {ERROR_MORE_DATA, ERROR_INSUFFICIENT_BUFFER} \<and>
              length (out_bytes r) \<le> outLength \<and>
              0 < unat (bytesReturned r) \<and> unat (bytesReturned r) \<le> 8 + 8 * length ids
            else ok r \<and> unat (bytesReturned r) = 8 + 8 * length ids \<and>
              out_bytes r = le_encode 8 (length ids) @ concat (map (le_encode 8 \<circ> unat) ids))))"

text \<open>Such a device: it fills the buffer with what fits and reports how much that is.\<close>

definition listing_device :: "u64 list \<Rightarrow> 's device" where
  "listing_device ids code input outLength s =
     (let all = le_encode 8 (length ids) @ concat (map (le_encode 8 \<circ> unat) ids);
          sent = take outLength all; fits = (length all \<le> outLength)
      in Ret \<lparr>ok = fits, last_error = (if fits then 0 else ERROR_MORE_DATA),
              bytesReturned = of_nat (length sent), out_bytes = sent\<rparr> s)"

lemma length_encoded_ids [simp]: "length (concat (map (le_encode 8 \<circ> unat) ids)) = 8 * length ids"
  by (induction ids) simp_all

lemma listing_device_conforms:
  assumes "length ids < 2 ^ 28"
  shows "lists_processes (listing_device ids) ids s"
proof -
  have "unat (of_nat (8 + 8 * length ids) :: u32) = 8 + 8 * length ids"
    using assms unfolding unat_of_nat by (simp add: take_bit_nat_eq_self)
  then show ?thesis
    by (auto simp: lists_processes_def listing_device_def Let_def unat_of_nat take_bit_nat_eq_self)
qed

lemma read_encoded_ids:
  assumes "i < length ids"
  shows "read_u64 (8 + 8 * i) (le_encode 8 n @ concat (map (le_encode 8 \<circ> unat) ids) @ rest) = ids ! i"
proof -
  let ?e = "concat (map (le_encode 8 \<circ> unat) ids)"
  have "take 8 (drop (8 * i) (?e @ rest)) = le_encode 8 (unat (ids ! i))"
    using assms
  proof (induction ids arbitrary: i)
    case (Cons v vs)
    then show ?case by (cases i) simp_all
  qed simp
  then have "read_nat (8 + 8 * i) 8 (le_encode 8 n @ ?e @ rest) = le_decode (le_encode 8 (unat (ids ! i)))"
    by (simp add: read_nat_def del: drop_append take_append append_assoc)
      (simp add: drop_append)
  also have "\<dots> = unat (ids ! i)"
    using unsigned_less [of "ids ! i", where ?'a = nat] by (simp add: le_decode_encode)
  finally show ?thesis by (simp add: read_u64_def)
qed

section \<open>The list loop ends with the whole list\<close>

lemma length_overlay: "length new \<le> length old \<Longrightarrow> length (overlay new old) = length old"
  by (simp add: overlay_def)

text \<open>The lines for a buffer that begins with a complete reply.\<close>

lemma list_lines_complete:
  assumes "unat bytes = 8 + 8 * length ids" and "length ids < 2 ^ 28"
    and "length buffer = 8 * slots" and "length ids < slots"
  shows "list_lines
    (overlay (le_encode 8 (length ids) @ concat (map (le_encode 8 \<circ> unat) ids)) buffer) bytes
    = (0, [ListLines (of_nat (length ids)) ids])"
proof -
  let ?n = "length ids"
  let ?out = "le_encode 8 ?n @ concat (map (le_encode 8 \<circ> unat) ids)"
  let ?b = "overlay ?out buffer"
  have b: "\<not> bytes < 8" using assms(1) by (simp add: word_less_nat_alt)
  have c: "read_u64 0 ?b = of_nat ?n"
    using assms(2) by (simp add: read_u64_def read_nat_def overlay_def le_decode_encode)
  have u: "unat (of_nat ?n :: u64) = ?n"
    using assms(2) by (simp add: unat_of_nat take_bit_nat_eq_self)
  have "read_u64 (8 * (i + 1)) ?b = ids ! i" if "i < ?n" for i
    using read_encoded_ids [OF that, of ?n "drop (length ?out) buffer"]
    by (simp add: overlay_def algebra_simps)
  then have m: "map (\<lambda>i. read_u64 (8 * (i + 1)) ?b) [0..<?n] = ids"
    by (intro nth_equalityI) simp_all
  have l: "length ?b div 8 = slots" using assms(3,4) by (simp add: length_overlay)
  show ?thesis
    using b c u m l assms(4) unfolding list_lines_def by (simp add: Let_def min_absorb1)
qed

text \<open>One failed request makes the buffer grow by at least one element.\<close>

lemma list_loop_retry:
  assumes "dev (client_code 0x803) [] (8 * slots) s = Ret r s" and "length buffer = 8 * slots"
    and "\<not> ok r" and "last_error r \<in> {ERROR_MORE_DATA, ERROR_INSUFFICIENT_BUFFER}"
    and "length (out_bytes r) \<le> 8 * slots"
    and "0 < unat (bytesReturned r)" and "unat (bytesReturned r) \<le> 8 + 8 * n"
    and "1 \<le> slots" and "slots \<le> n"
  shows "\<exists>buffer' slots'. list_loop dev (Suc fuel) buffer s = list_loop dev fuel buffer' s \<and>
    length buffer' = 8 * slots' \<and> slots < slots' \<and> slots' \<le> 2 * n"
proof -
  define m where "m = (unat (bytesReturned r) + 7) div 8"
  define slots' where "slots' = (if m \<le> slots then slots * 2 else m)"
  let ?b = "overlay (out_bytes r) buffer @ replicate (8 * (slots' - slots)) 0"
  have m: "m \<le> Suc n" using assms(7) by (simp add: m_def)
  then have s': "slots < slots'" "slots' \<le> 2 * n" using assms(8,9) by (auto simp: slots'_def)
  have "0 < bytesReturned r" using assms(6) by (simp add: word_less_nat_alt)
  then have "list_loop dev (Suc fuel) buffer s = list_loop dev fuel ?b s"
    using assms(1-4)
    by (subst list_loop.simps(2)) (auto simp: bindO_def Let_def m_def slots'_def)
  moreover have "length ?b = 8 * slots'"
    using assms(2,5) s'(1) by (simp add: length_overlay)
  ultimately show ?thesis using s' by blast
qed

lemma list_loop_complete:
  assumes dev: "lists_processes dev ids s" and few: "length ids < 2 ^ 28"
  shows "\<lbrakk>length buffer = 8 * slots; 1 \<le> slots; 8 * slots < 2 ^ 32;
     Suc (length ids) < slots + fuel; 0 < fuel\<rbrakk> \<Longrightarrow>
    \<exists>buffer' slots' bytes err. list_loop dev fuel buffer s =
      Ret (True, overlay (le_encode 8 (length ids) @ concat (map (le_encode 8 \<circ> unat) ids)) buffer',
           bytes, err) s \<and>
      unat bytes = 8 + 8 * length ids \<and> length buffer' = 8 * slots' \<and> length ids < slots'"
proof (induction fuel arbitrary: buffer slots)
  case (Suc fuel)
  have answer: "\<exists>r. dev (client_code 0x803) [] (8 * slots) s = Ret r s \<and>
      (if 8 * slots < 8 + 8 * length ids
       then \<not> ok r \<and> last_error r \<in> {ERROR_MORE_DATA, ERROR_INSUFFICIENT_BUFFER} \<and>
         length (out_bytes r) \<le> 8 * slots \<and>
         0 < unat (bytesReturned r) \<and> unat (bytesReturned r) \<le> 8 + 8 * length ids
       else ok r \<and> unat (bytesReturned r) = 8 + 8 * length ids \<and>
         out_bytes r = le_encode 8 (length ids) @ concat (map (le_encode 8 \<circ> unat) ids))"
    by (rule mp [OF spec [OF dev [unfolded lists_processes_def]]]) (use Suc.prems in simp)
  then obtain r where r: "dev (client_code 0x803) [] (8 * slots) s = Ret r s"
    and reply: "if 8 * slots < 8 + 8 * length ids
       then \<not> ok r \<and> last_error r \<in> {ERROR_MORE_DATA, ERROR_INSUFFICIENT_BUFFER} \<and>
         length (out_bytes r) \<le> 8 * slots \<and>
         0 < unat (bytesReturned r) \<and> unat (bytesReturned r) \<le> 8 + 8 * length ids
       else ok r \<and> unat (bytesReturned r) = 8 + 8 * length ids \<and>
         out_bytes r = le_encode 8 (length ids) @ concat (map (le_encode 8 \<circ> unat) ids)"
    by blast
  show ?case
  proof (cases "slots \<le> length ids")
    case True
    with reply list_loop_retry [of dev slots s r buffer "length ids" fuel, OF r Suc.prems(1)] Suc.prems(2)
    obtain buffer' slots' where step: "list_loop dev (Suc fuel) buffer s = list_loop dev fuel buffer' s"
      and b': "length buffer' = 8 * slots'" "slots < slots'" "slots' \<le> 2 * length ids" by auto
    show ?thesis
      unfolding step by (rule Suc.IH [OF b'(1)]) (use b' few Suc.prems True in simp_all)
  next
    case False
    with reply have "ok r" "unat (bytesReturned r) = 8 + 8 * length ids"
      "out_bytes r = le_encode 8 (length ids) @ concat (map (le_encode 8 \<circ> unat) ids)" by simp_all
    with r Suc.prems(1) False show ?thesis
      by (intro exI [of _ buffer] exI [of _ "bytesReturned r"] exI [of _ "last_error r"])
        (simp add: bindO_def retO_def Let_def comp_def)
  qed
qed simp

text \<open>
  C8: the controller's \<open>list\<close> command, against any device that lists the processes as
  \<open>DeviceIoControl\<close> documents it (the device may report on overflow how much it sent or how
  much it would send): the loop ends after at most as many requests as there are processes (one if
  there are none), each retry with a larger buffer, and the command exits with success and
  prints the number and the ids of all opted-in processes, never a truncated list.
\<close>

theorem controller_list_complete:
  assumes "lists_processes dev ids s" and "length ids < 2 ^ 28" and "length ids \<le> fuel" and "0 < fuel"
  shows "controller dev fuel True [''list''] s = Ret (0, [ListLines (of_nat (length ids)) ids]) s"
proof -
  have "length (replicate 64 0 :: u8 list) = 8 * 8" by simp
  from list_loop_complete [OF assms(1,2) this, of fuel] assms(3,4) obtain buffer slots bytes err
    where "list_loop dev fuel (replicate 64 0) s =
        Ret (True, overlay (le_encode 8 (length ids) @ concat (map (le_encode 8 \<circ> unat) ids)) buffer,
             bytes, err) s"
      and "unat bytes = 8 + 8 * length ids" "length buffer = 8 * slots" "length ids < slots"
    by auto
  with list_lines_complete [OF _ assms(2)] show ?thesis
    by (simp add: controller_def Let_def bindO_def retO_def)
qed

theorem controller_list_complete_witness:
  "controller (listing_device [10, 20, 30, 40, 50, 60, 70, 80, 90]) 9 True [''list''] ()
     = Ret (0, [ListLines 9 [10, 20, 30, 40, 50, 60, 70, 80, 90]]) ()"
proof -
  have "lists_processes (listing_device [10, 20, 30, 40, 50, 60, 70, 80, 90])
      [10, 20, 30, 40, 50, 60, 70, 80, 90] ()"
    by (rule listing_device_conforms) simp
  from controller_list_complete [OF this, of 9] show ?thesis by simp
qed

section \<open>The clients and the driver as they are\<close>

text \<open>The usual translation of status codes, for the witnesses.\<close>

definition demo_dos_error :: "NTSTATUS \<Rightarrow> u32" where
  "demo_dos_error status = (if status = STATUS_BUFFER_OVERFLOW then ERROR_MORE_DATA else 1)"

text \<open>A reply to one of the clients' codes never overruns the buffer of the client: all but
  one are rejections, and that one reports four bytes only into room for four.\<close>

lemma client_replies_fit:
  assumes "fnum \<in> {0x800, 0x801, 0x802, 0x803, 0x804, 0x805, 0x806}" and "n < 2 ^ 32"
    and "driver_device k fill pool dos_error (client_code fnum) input n s = Ret r s'"
  shows "length (out_bytes r) \<le> n"
proof (cases "fnum = 0x806")
  case False
  with assms(1,3) driver_device_rejects [OF client_code_unknown, of fnum k fill pool dos_error input n s]
  show ?thesis by auto
next
  case True
  have "unat (of_nat n :: u32) = n" using assms(2) by (simp add: unat_of_nat take_bit_nat_eq_self)
  with True assms(3) show ?thesis
    by (auto simp: driver_device_def DriverDeviceControl_def client_code_values ioctl_values
        device_irp_def complete_request_def bindO_def retO_def win32_reply_def NT_ERROR_def
        STATUS_BUFFER_TOO_SMALL_def STATUS_SUCCESS_def sizeof_NTSTATUS_def word_less_nat_alt
        split: if_splits outcome.splits)
qed

text \<open>The latency benchmark fails on its first query against the driver and leaves it
  unchanged.\<close>

lemma driver_benchmark_fails:
  "driver_benchmark (driver_device k fill pool dos_error) opened s = Ret 1 s"
  by (simp add: driver_benchmark_def runQuery_def bindO_def retO_def eval_nat_numeral
      driver_device_rejects [OF client_code_unknown])

text \<open>
  C9: no command of the controller and no query of the latency benchmark reaches the driver.
  Whatever the arguments, and whether or not the device could be opened, both programs exit
  with one and the driver's state is unchanged: each of their control codes is one the driver
  rejects.
\<close>

theorem controller_never_reaches_driver:
  "(\<exists>printed. controller (driver_device k fill pool dos_error) (Suc fuel) opened args s
      = Ret (1, printed) s) \<and>
   driver_benchmark (driver_device k fill pool dos_error) opened s = Ret 1 s"
  by (auto simp: driver_benchmark_fails controller_def optin_or_optout_def Let_def outcome_simps bindO_def retO_def
      driver_device_rejects [OF client_code_unknown])

lemma cow_test_outcome:
  assumes "lawful k" and "cow_table s = []"
  shows "testCowCallbackStubInvocation (driver_device k fill pool dos_error) va pad s
    \<in> {Ret True s, Ret False s, Hang s}"
  using CowFaultCallback_unprotected [OF assms]
  by (auto simp: testCowCallbackStubInvocation_def sendIoControl_def driver_device_def bindO_def
      DriverDeviceControl_def device_irp_def complete_request_def retO_def Let_def
      client_code_values ioctl_values split: if_splits)

text \<open>
  C27: the integration tests can never pass against the driver: in every state the driver can
  be in, the test program exits with one or never returns, and the driver's state is
  unchanged. (The test that expects the system process to be rejected passes, because every
  registration is.)
\<close>

theorem driver_test_never_passes:
  assumes "lawful k" and "unprotected s"
  shows "driver_test (driver_device k fill pool dos_error) pid va pad opened s \<in> {Ret 1 s, Hang s}"
proof -
  have "cow_table s = []" using assms(2) by (simp add: unprotected_def)
  from cow_test_outcome [OF assms(1) this, of fill pool dos_error va pad] show ?thesis
    by (auto simp: driver_test_def testOptInPolicyBlocking_def testProcessListResizes_def
        testOptInRoundTrip_def testHealthAfterDrain_def testCowInterceptionReporting_def
        queryStats_def queryHealth_def sendIoControl_def bindO_def retO_def Let_def
        driver_device_rejects [OF client_code_unknown])
qed

theorem driver_test_never_passes_witness:
  "driver_test (driver_device demo_kenv 0xAA (\<lambda>_. 0) demo_dos_error) 77 0x10000 [] True demo_driver
     \<noteq> Ret 0 demo_driver"
  using driver_test_never_passes [OF lawful_demo demo_unprotected(1), of "0xAA" "\<lambda>_. 0" demo_dos_error 77
      "0x10000" "[]" True] by auto

end
