(* ===== verification/Spec2Isabelle.thy ===== *)
theory Spec2Isabelle
  imports Engine EngineClients DriverProperties Integration
begin

text \<open>
  A verification development for Project RAM Crisis: a user-mode prototype of a page
  deduplication engine, and a Windows kernel driver with its clients.

  The program. The prototype (\<open>src/user\<close>) has an engine that scans a memory region for
  equal pages and marks the later ones as shared with the first (dedupe_engine.cpp), a
  predictor that scores processes and regions by their names (ml_predictor.cpp), a scheduler
  whose worker thread scans the best rated region (scan_scheduler.cpp), and three programs on
  top: test_engine.cpp, benchmark.cpp and dedupe_simulator.cpp. The driver
  (\<open>src/driver/deduper.cpp\<close>, deduper.h) keeps tables of opted-in processes, pages, shared
  page groups and protected frames under one fast mutex; a scanner thread hashes the pages of
  opted-in processes into the page table, and control requests register processes, report,
  drain and inject a write fault. Its clients are controller.cpp, driver_test.cpp and
  driver_benchmark.cpp. The prototype and the driver share no code; the clients talk to the
  driver through control codes and byte buffers.

  Theories, in import order, and what they model.

  \<^item> Prelude: type synonyms for the machine integers, a fallible fold, facts on lists and
    words, and the locale \<open>injective_mixer\<close> of hash steps that lose nothing, interpreted on
    both hash functions.
  \<^item> Signatures: \<open>fastHash64\<close>, \<open>computeFingerprint\<close> and the functors of the signature map. The
    lemmas give the exact lengths at which the fingerprint reads past a page, the bytes it
    depends on, and that no one-byte change keeps the hash.
  \<^item> Engine: \<open>Page\<close>, \<open>MemoryRegion\<close>, \<open>Stats\<close> and the operations of \<open>DedupeEngine\<close>; the
    vector-valued \<open>unordered_map\<close> is an association list behind the locale
    \<open>unordered_map_key\<close>. The specification \<open>dedupe_pages\<close> and \<open>scan_stats\<close> says what a scan is
    for; a loop invariant gives the refinement. Then soundness, completeness, idempotence,
    writes, and the books of the statistics over all histories (\<open>engine_run\<close>).
  \<^item> Predictor: the scores as sums of binary64 numbers, each a rational with rounding to
    nearest even written out; range, rounding error and order preservation.
  \<^item> Outcome: a small state monad whose result is a value and a state, or never returning
    (\<open>Hang\<close>, with the state other threads see), or \<open>Spent\<close> fuel; \<open>preserves\<close> and its rules.
  \<^item> Scheduler, EngineClients: the scheduler with its mutex, which names the owning thread,
    the candidate search, the worker's round, the calls of the owner and every run of them
    (\<open>scheduler_run\<close>), and the three programs. Undefined behaviour is the result None: a read
    past a page, a second lock of a \<open>std::mutex\<close> by its owner, an assignment to a running
    thread object.
  \<^item> GenericTable: the operations of the kernel's generic table over a search that is a
    parameter, and its contracts (below).
  \<^item> DriverTypes: the structures and globals of deduper.h, the process policy, the compare
    routines, the comparison of physical pages and the page signature. Everything the kernel
    answers is the record \<open>kenv\<close>.
  \<^item> DriverState, DriverCorrect: the routines on the tables under the mutex, one definition
    each with its early returns, and their closed forms on every branch.
  \<^item> DriverScan: \<open>ScanProcessPages\<close>, \<open>ScanOptedInProcesses\<close>, \<open>PageScanThread\<close>.
  \<^item> Bytes, DriverIoctl: little-endian buffers, the control codes, the three reports byte by
    byte and the dispatch routine.
  \<^item> DriverLifecycle: initialisation, the control device, the scanner thread, \<open>DriverEntry\<close>
    and \<open>DriverUnload\<close> over the kernel objects they create (\<open>world\<close>).
  \<^item> DriverSystem, DriverProperties: loading, requests, scanner rounds and unloading as the
    step relation \<open>reachable\<close>, with the kernel free to answer differently at every step. The
    locale \<open>driver_invariant\<close> states what a predicate must satisfy to hold in every reachable
    state; it is interpreted on three invariants (no frame protected; the owned mutex; the
    frame arrays).
  \<^item> Clients, Integration: the clients over a device that is a parameter, then over the driver
    itself with what \<open>DeviceIoControl\<close> does in between.

  The generic table library is not part of the program. The general contract \<open>rtl_search\<close>
  only says that positions are positions; all invariants of the reachable states rest on it
  alone. The kernel documents that a compare routine answers 0 for less, 1 for greater and 2
  for equal, while the driver's routines answer -1, 1 and 0; \<open>rtl_documented\<close> adds that an
  element for which the answer was less or greater is no match, and the properties of opting
  in, draining and unloading are stated for it (\<open>documented\<close>): an element never matches
  itself, so nothing is found again and no table can be emptied. What happens if the library
  does report a match, as the author of the driver assumes, is stated per call (the property
  of \<open>AddPageEntry\<close>) and shown on a kernel whose search reads 0 as a match.

  Bounds and fuel. The page loop of a scan needs at most 2 to the 52 steps, as the
  address space has no more pages, and the region loop at most one step per address of the
  user range, as every answer of \<open>ZwQueryVirtualMemory\<close> ends above the queried address
  (\<open>vm_ok\<close>); both bounds are hypotheses of the scan property, which shows that the fuel is
  never spent. The loops that empty a table take its size as fuel, since every completed
  round deletes one element. The controller's list loop takes one step per request; as many
  as there are processes are enough, since every retry grows the buffer.

  Not modelled: the output formatting and timing of the programs, references to process
  objects, handles and debug prints of the driver, the dispatch table entries of the driver
  object, the build and installation scripts, and the routines for private copies that the
  driver declares and never defines (parameters). The answers of the kernel are
  fixed during one routine. Requests, scanner passes and unloading are atomic steps of
  \<open>reachable\<close>; in the driver a request may also run between two pages of a pass, and the
  invariants allow for that, as each of them is preserved by every single \<open>AddPageEntry\<close>
  (the law \<open>add\<close>).
\<close>

end

